(* ===== verification/Prelude.thy ===== *)
theory Prelude
  imports Main "HOL-Library.Char_ord" "HOL-Library.List_Lexorder" "HOL-Library.Sublist"
begin

text \<open>
  Shared vocabulary of the development: Python's text operations on \<open>str\<close> values, and the
  programs with state and exceptions in which the effectful classes of the control plane are
  written.

  A Python string is a list of code points. Here it is a HOL \<open>string\<close>, so code points run from 0
  to 255 (Latin-1): every operation below does on those code points what CPython does, including
  the non-ASCII white space \<open>0x85\<close> and \<open>0xA0\<close> and the line boundaries of \<open>str.splitlines\<close>. Code
  points above 255 are outside the model.
\<close>

section \<open>Collections of facts\<close>

named_theorems keeps_intros "frame rules: what a program leaves unchanged"
named_theorems prog_eqs "how a program runs on a given state"

section \<open>Results and programs\<close>

text \<open>
  A fallible computation returns \<open>Inl\<close> of the exception it raised or \<open>Inr\<close> of its value. A program
  also passes a state along; an exception keeps the state changes made before it, as in Python.
\<close>

type_synonym ('s, 'e, 'a) prog = "'s \<Rightarrow> ('e + 'a) \<times> 's"

definition returnP :: "'a \<Rightarrow> ('s, 'e, 'a) prog" where
  "returnP a = (\<lambda>s. (Inr a, s))"

definition raiseP :: "'e \<Rightarrow> ('s, 'e, 'a) prog" where
  "raiseP e = (\<lambda>s. (Inl e, s))"

definition bindP :: "('s, 'e, 'a) prog \<Rightarrow> ('a \<Rightarrow> ('s, 'e, 'b) prog) \<Rightarrow> ('s, 'e, 'b) prog" where
  "bindP m f = (\<lambda>s. case m s of (Inl e, s1) \<Rightarrow> (Inl e, s1) | (Inr a, s1) \<Rightarrow> f a s1)"

text \<open>\<open>try: m except: h\<close>. The handler raises again what it does not handle.\<close>

definition tryP :: "('s, 'e, 'a) prog \<Rightarrow> ('e \<Rightarrow> ('s, 'e, 'a) prog) \<Rightarrow> ('s, 'e, 'a) prog" where
  "tryP m h = (\<lambda>s. case m s of (Inl e, s1) \<Rightarrow> h e s1 | (Inr a, s1) \<Rightarrow> (Inr a, s1))"

text \<open>Reading the state, and a pure result as a program.\<close>

definition getP :: "('s \<Rightarrow> 'a) \<Rightarrow> ('s, 'e, 'a) prog" where
  "getP f = (\<lambda>s. (Inr (f s), s))"

definition updP :: "('s \<Rightarrow> 's) \<Rightarrow> ('s, 'e, unit) prog" where
  "updP f = (\<lambda>s. (Inr (), f s))"

definition liftP :: "'e + 'a \<Rightarrow> ('s, 'e, 'a) prog" where
  "liftP r = (\<lambda>s. (r, s))"

text \<open>A \<open>for\<close> loop whose body may raise, and one that collects a list of results.\<close>

primrec eachP :: "('x \<Rightarrow> ('s, 'e, unit) prog) \<Rightarrow> 'x list \<Rightarrow> ('s, 'e, unit) prog" where
  "eachP f [] = returnP ()"
| "eachP f (x # xs) = bindP (f x) (\<lambda>_. eachP f xs)"

primrec mapP :: "('x \<Rightarrow> ('s, 'e, 'a) prog) \<Rightarrow> 'x list \<Rightarrow> ('s, 'e, 'a list) prog" where
  "mapP f [] = returnP []"
| "mapP f (x # xs) = bindP (f x) (\<lambda>y. bindP (mapP f xs) (\<lambda>ys. returnP (y # ys)))"

text \<open>How a program runs on a state; these equations are also what a program is evaluated with.\<close>

lemma run_return [simp, prog_eqs, code]: "returnP a s = (Inr a, s)"
  by (simp add: returnP_def)

lemma run_raise [simp, prog_eqs, code]: "raiseP e s = (Inl e, s)"
  by (simp add: raiseP_def)

lemma run_get [simp, prog_eqs, code]: "getP f s = (Inr (f s), s)"
  by (simp add: getP_def)

lemma run_upd [simp, prog_eqs, code]: "updP f s = (Inr (), f s)"
  by (simp add: updP_def)

lemma run_lift [simp, prog_eqs, code]: "liftP r s = (r, s)"
  by (simp add: liftP_def)

lemma run_bind [prog_eqs, code]:
  "bindP m f s = (case m s of (Inl e, s1) \<Rightarrow> (Inl e, s1) | (Inr a, s1) \<Rightarrow> f a s1)"
  by (simp add: bindP_def)

lemma run_try [prog_eqs, code]:
  "tryP m h s = (case m s of (Inl e, s1) \<Rightarrow> h e s1 | (Inr a, s1) \<Rightarrow> (Inr a, s1))"
  by (simp add: tryP_def)

lemma bind_return_left [simp]: "bindP (returnP a) f = f a"
  by (simp add: bindP_def returnP_def)

lemma bind_lift_Inr [simp]: "bindP (liftP (Inr a)) f = f a"
  by (simp add: bindP_def liftP_def)

lemma bind_lift_Inl [simp]: "bindP (liftP (Inl e)) f = raiseP e"
  by (simp add: bindP_def liftP_def raiseP_def)

lemma bind_get_run [simp]: "bindP (getP g) f s = f (g s) s"
  by (simp add: bindP_def getP_def)

lemma bind_upd_run [simp]: "bindP (updP g) f s = f () (g s)"
  by (simp add: bindP_def updP_def)

lemma bind_raise [simp]: "bindP (raiseP e) f = raiseP e"
  by (simp add: bindP_def raiseP_def)

lemma bind_assoc: "bindP (bindP m f) g = bindP m (\<lambda>a. bindP (f a) g)"
  by (auto simp: bindP_def fun_eq_iff split: prod.splits sum.splits)

text \<open>Where a sequence succeeded, each part did; where it raised, one part did.\<close>

lemma bind_Inr_iff:
  "bindP m f s = (Inr b, s') \<longleftrightarrow> (\<exists>a s1. m s = (Inr a, s1) \<and> f a s1 = (Inr b, s'))"
  by (auto simp: bindP_def split: prod.splits sum.splits)

lemma bind_Inl_iff:
  "bindP m f s = (Inl e, s') \<longleftrightarrow>
     m s = (Inl e, s') \<or> (\<exists>a s1. m s = (Inr a, s1) \<and> f a s1 = (Inl e, s'))"
  by (auto simp: bindP_def split: prod.splits sum.splits)

lemma bind_step_Inr: "m s = (Inr a, s1) \<Longrightarrow> bindP m f s = f a s1"
  by (simp add: bindP_def)

lemma bind_step_Inl: "m s = (Inl e, s1) \<Longrightarrow> bindP m f s = (Inl e, s1)"
  by (simp add: bindP_def)

text \<open>A sequence of pure fallible computations.\<close>

definition bindE :: "'e + 'a \<Rightarrow> ('a \<Rightarrow> 'e + 'b) \<Rightarrow> 'e + 'b" where
  "bindE r f = (case r of Inl e \<Rightarrow> Inl e | Inr a \<Rightarrow> f a)"

lemma bindE_simps [simp]: "bindE (Inl e) f = Inl e" "bindE (Inr a) f = f a"
  by (simp_all add: bindE_def)

lemma bindE_Inr_iff: "bindE r f = Inr b \<longleftrightarrow> (\<exists>a. r = Inr a \<and> f a = Inr b)"
  by (cases r) auto

lemma bindE_Inl_iff: "bindE r f = Inl e \<longleftrightarrow> r = Inl e \<or> (\<exists>a. r = Inr a \<and> f a = Inl e)"
  by (cases r) auto

subsection \<open>Frames: what a program leaves unchanged\<close>

definition keeps :: "('s \<Rightarrow> 'v) \<Rightarrow> ('s, 'e, 'a) prog \<Rightarrow> bool" where
  "keeps v m \<longleftrightarrow> (\<forall>s. v (snd (m s)) = v s)"

lemma keepsD: "keeps v m \<Longrightarrow> m s = (r, s') \<Longrightarrow> v s' = v s"
  by (metis keeps_def snd_conv)

lemma keepsI: "(\<And>s r s'. m s = (r, s') \<Longrightarrow> v s' = v s) \<Longrightarrow> keeps v m"
  unfolding keeps_def by (metis prod.collapse)

lemma keeps_snd: "keeps v m \<Longrightarrow> v (snd (m s)) = v s"
  by (simp add: keeps_def)

lemma keeps_return [keeps_intros]: "keeps v (returnP a)"
  by (simp add: keeps_def)

lemma keeps_raise [keeps_intros]: "keeps v (raiseP e)"
  by (simp add: keeps_def)

lemma keeps_get [keeps_intros]: "keeps v (getP f)"
  by (simp add: keeps_def)

lemma keeps_lift [keeps_intros]: "keeps v (liftP r)"
  by (simp add: keeps_def)

lemma keeps_upd: "(\<And>s. v (f s) = v s) \<Longrightarrow> keeps v (updP f)"
  by (simp add: keeps_def)

lemma keeps_bind [keeps_intros]: "keeps v m \<Longrightarrow> (\<And>a. keeps v (f a)) \<Longrightarrow> keeps v (bindP m f)"
  unfolding keeps_def bindP_def by (auto split: prod.splits sum.splits) (metis snd_conv)+

lemma keeps_try [keeps_intros]: "keeps v m \<Longrightarrow> (\<And>e. keeps v (h e)) \<Longrightarrow> keeps v (tryP m h)"
  unfolding keeps_def tryP_def by (auto split: prod.splits sum.splits) (metis snd_conv)+

lemma keeps_each [keeps_intros]: "(\<And>x. keeps v (f x)) \<Longrightarrow> keeps v (eachP f xs)"
  by (induction xs) (auto intro: keeps_intros)

lemma keeps_map [keeps_intros]: "(\<And>x. keeps v (f x)) \<Longrightarrow> keeps v (mapP f xs)"
  by (induction xs) (auto intro!: keeps_intros)

lemma keeps_if [keeps_intros]: "(b \<Longrightarrow> keeps v m) \<Longrightarrow> (\<not> b \<Longrightarrow> keeps v n) \<Longrightarrow> keeps v (if b then m else n)"
  by simp

lemma keeps_option [keeps_intros]:
  "(x = None \<Longrightarrow> keeps v m) \<Longrightarrow> (\<And>y. x = Some y \<Longrightarrow> keeps v (n y)) \<Longrightarrow>
   keeps v (case x of None \<Rightarrow> m | Some y \<Rightarrow> n y)"
  by (cases x) auto

lemma keeps_sum [keeps_intros]:
  "(\<And>e. keeps v (f e)) \<Longrightarrow> (\<And>a. keeps v (g a)) \<Longrightarrow> keeps v (case s of Inl e \<Rightarrow> f e | Inr a \<Rightarrow> g a)"
  by (cases s) auto

lemma keeps_pair [keeps_intros]:
  "(\<And>a b. keeps v (f a b)) \<Longrightarrow> keeps v (case p of (a, b) \<Rightarrow> f a b)"
  by (cases p) auto

section \<open>Text\<close>

abbreviation LF :: char where "LF \<equiv> CHR 0x0A"
abbreviation CR :: char where "CR \<equiv> CHR 0x0D"
abbreviation BSL :: char where "BSL \<equiv> CHR 0x5C"
abbreviation QUOTE :: char where "QUOTE \<equiv> CHR 0x22"

definition in_range :: "char \<Rightarrow> char \<times> char \<Rightarrow> bool" where
  "in_range c r = (fst r \<le> c \<and> c \<le> snd r)"

definition is_digit :: "char \<Rightarrow> bool" where
  "is_digit c = in_range c (CHR ''0'', CHR ''9'')"

text \<open>\<open>str.isspace\<close> and the line boundaries of \<open>str.splitlines\<close>.\<close>

definition is_space :: "char \<Rightarrow> bool" where
  "is_space c = (in_range c (CHR 0x09, CHR 0x0D) \<or> in_range c (CHR 0x1C, CHR 0x20)
     \<or> c = CHR 0x85 \<or> c = CHR 0xA0)"

definition is_line_break :: "char \<Rightarrow> bool" where
  "is_line_break c = (in_range c (CHR 0x0A, CHR 0x0D) \<or> in_range c (CHR 0x1C, CHR 0x1E)
     \<or> c = CHR 0x85)"

text \<open>\<open>s.rstrip\<close> and \<open>s.strip\<close>, of the characters that satisfy \<open>p\<close>.\<close>

definition rstrip_by :: "(char \<Rightarrow> bool) \<Rightarrow> string \<Rightarrow> string" where
  "rstrip_by p s = rev (dropWhile p (rev s))"

definition strip :: "string \<Rightarrow> string" where
  "strip s = rstrip_by is_space (dropWhile is_space s)"

text \<open>\<open>s.splitlines()\<close>: \<open>cur\<close> is the line read so far, reversed; CR LF is one boundary.\<close>

fun lines_from :: "string \<Rightarrow> string \<Rightarrow> string list" where
  "lines_from cur [] = (if cur = [] then [] else [rev cur])"
| "lines_from cur [c] = [rev (if is_line_break c then cur else c # cur)]"
| "lines_from cur (c # d # s) =
     (if c = CR \<and> d = LF then rev cur # lines_from [] s
      else if is_line_break c then rev cur # lines_from [] (d # s)
      else lines_from (c # cur) (d # s))"

definition splitlines :: "string \<Rightarrow> string list" where
  "splitlines s = lines_from [] s"

text \<open>\<open>s.split()\<close>: the words between white space; \<open>cur\<close> is the word read so far, reversed.\<close>

fun words_from :: "string \<Rightarrow> string \<Rightarrow> string list" where
  "words_from cur [] = (if cur = [] then [] else [rev cur])"
| "words_from cur (c # s) =
     (if is_space c then (if cur = [] then words_from [] s else rev cur # words_from [] s)
      else words_from (c # cur) s)"

definition words :: "string \<Rightarrow> string list" where
  "words s = words_from [] s"

text \<open>What reading a file in text mode makes of its line ends.\<close>

fun universal_newlines :: "string \<Rightarrow> string" where
  "universal_newlines [] = []"
| "universal_newlines (c # s) =
     (if c = CR then LF # (case s of [] \<Rightarrow> [] | d # t \<Rightarrow> if d = LF then universal_newlines t else universal_newlines s)
      else c # universal_newlines s)"

text \<open>\<open>s.split(c)\<close> for one character, and \<open>sep.join(parts)\<close>.\<close>

fun split_on :: "char \<Rightarrow> string \<Rightarrow> string list" where
  "split_on c [] = [[]]"
| "split_on c (x # xs) =
     (if x = c then [] # split_on c xs
      else (case split_on c xs of [] \<Rightarrow> [[x]] | p # ps \<Rightarrow> (x # p) # ps))"

fun join :: "string \<Rightarrow> string list \<Rightarrow> string" where
  "join sep [] = []"
| "join sep [p] = p"
| "join sep (p # q # ps) = p @ sep @ join sep (q # ps)"

text \<open>\<open>s.partition(c)\<close> without the separator, and \<open>s.rsplit(c, 1)\<close>: \<open>None\<close> if \<open>c\<close> does not occur.\<close>

definition partition_on :: "char \<Rightarrow> string \<Rightarrow> string \<times> string option" where
  "partition_on c s =
     (takeWhile (\<lambda>x. x \<noteq> c) s,
      case dropWhile (\<lambda>x. x \<noteq> c) s of [] \<Rightarrow> None | _ # r \<Rightarrow> Some r)"

definition rpartition_on :: "char \<Rightarrow> string \<Rightarrow> (string \<times> string) option" where
  "rpartition_on c s =
     (case dropWhile (\<lambda>x. x \<noteq> c) (rev s) of
        [] \<Rightarrow> None
      | _ # r \<Rightarrow> Some (rev r, rev (takeWhile (\<lambda>x. x \<noteq> c) (rev s))))"

text \<open>\<open>s.replace(c, t)\<close> for one character.\<close>

definition replace_char :: "char \<Rightarrow> string \<Rightarrow> string \<Rightarrow> string" where
  "replace_char c t s = concat (map (\<lambda>x. if x = c then t else [x]) s)"

text \<open>
  \<open>str.lower\<close> and \<open>str.upper\<close>. Two Latin-1 letters have an upper case form outside Latin-1 (micro
  sign, y with diaeresis) and stay as they are; sharp s becomes two letters.
\<close>

definition lower_char :: "char \<Rightarrow> char" where
  "lower_char c =
     (if in_range c (CHR ''A'', CHR ''Z'') \<or> in_range c (CHR 0xC0, CHR 0xDE) \<and> c \<noteq> CHR 0xD7
      then char_of (of_char c + (32 :: int)) else c)"

definition upper_char :: "char \<Rightarrow> string" where
  "upper_char c =
     (if c = CHR 0xDF then ''SS''
      else if in_range c (CHR ''a'', CHR ''z'') \<or> in_range c (CHR 0xE0, CHR 0xFE) \<and> c \<noteq> CHR 0xF7
      then [char_of (of_char c - (32 :: int))] else [c])"

definition lower :: "string \<Rightarrow> string" where
  "lower s = map lower_char s"

definition upper :: "string \<Rightarrow> string" where
  "upper s = concat (map upper_char s)"

text \<open>\<open>str(n)\<close> of an integer, and the value of a string of decimal digits.\<close>

definition digit_char :: "int \<Rightarrow> char" where
  "digit_char d = char_of (48 + d)"

function dec_digits :: "int \<Rightarrow> string" where
  "dec_digits n = (if n < 10 then [digit_char n] else dec_digits (n div 10) @ [digit_char (n mod 10)])"
  by pat_completeness auto
termination
  by (relation "measure nat") auto

declare dec_digits.simps [simp del]

definition str_int :: "int \<Rightarrow> string" where
  "str_int n = (if n < 0 then CHR ''-'' # dec_digits (- n) else dec_digits n)"

definition digit_val :: "char \<Rightarrow> int" where
  "digit_val c = of_char c - 48"

definition digits_val :: "string \<Rightarrow> int" where
  "digits_val s = foldl (\<lambda>acc c. 10 * acc + digit_val c) 0 s"

subsection \<open>Facts about the text operations\<close>

lemma split_on_ne [simp]: "split_on c s \<noteq> []"
  by (induction s) (auto split: list.splits)

lemma join_Cons: "ps \<noteq> [] \<Longrightarrow> join sep (p # ps) = p @ sep @ join sep ps"
  by (cases ps) auto

text \<open>\<open>c.join(s.split(c)) == s\<close>, and no part holds the separator.\<close>

lemma join_split_on: "join [c] (split_on c s) = s"
proof (induction s)
  case (Cons x s)
  show ?case
  proof (cases "x = c")
    case True
    with Cons show ?thesis by (simp add: join_Cons)
  next
    case False
    obtain p ps where "split_on c s = p # ps" by (cases "split_on c s") auto
    with False Cons show ?thesis by (cases ps) auto
  qed
qed simp

lemma split_on_no_sep: "p \<in> set (split_on c s) \<Longrightarrow> c \<notin> set p"
  by (induction s arbitrary: p) (auto split: list.splits if_splits)

lemma split_on_none [simp]: "c \<notin> set s \<Longrightarrow> split_on c s = [s]"
  by (induction s) auto

lemma split_on_append: "c \<notin> set p \<Longrightarrow> split_on c (p @ c # s) = p # split_on c s"
  by (induction p) auto

lemma split_on_join:
  "ps \<noteq> [] \<Longrightarrow> (\<And>p. p \<in> set ps \<Longrightarrow> c \<notin> set p) \<Longrightarrow> split_on c (join [c] ps) = ps"
  by (induction "[c]" ps rule: join.induct) (auto simp: split_on_append)

lemma set_split_on: "p \<in> set (split_on c s) \<Longrightarrow> set p \<subseteq> set s"
  by (induction s arbitrary: p) (fastforce split: list.splits if_splits)+

lemma set_join: "x \<in> set (join sep ps) \<Longrightarrow> x \<in> set sep \<or> (\<exists>p \<in> set ps. x \<in> set p)"
  by (induction sep ps rule: join.induct) auto

lemma partition_on_app [simp]: "c \<notin> set p \<Longrightarrow> partition_on c (p @ c # s) = (p, Some s)"
  unfolding partition_on_def by (induction p) auto

lemma partition_on_none [simp]: "c \<notin> set s \<Longrightarrow> partition_on c s = (s, None)"
  unfolding partition_on_def by (induction s) auto

lemma partition_on_Some:
  "partition_on c s = (p, Some r) \<longleftrightarrow> s = p @ c # r \<and> c \<notin> set p"
proof
  assume h: "partition_on c s = (p, Some r)"
  then have "p = takeWhile (\<lambda>x. x \<noteq> c) s" and "\<exists>y. dropWhile (\<lambda>x. x \<noteq> c) s = y # r"
    by (auto simp: partition_on_def split: list.splits)
  moreover from this have "dropWhile (\<lambda>x. x \<noteq> c) s = c # r"
    by (metis (mono_tags, lifting) dropWhile_eq_Cons_conv)
  ultimately show "s = p @ c # r \<and> c \<notin> set p"
    by (metis (mono_tags, lifting) set_takeWhileD takeWhile_dropWhile_id)
qed auto

lemma rpartition_on_Some:
  assumes "rpartition_on c s = Some (p, q)"
  shows "s = p @ c # q \<and> c \<notin> set q"
proof -
  obtain y r where d: "dropWhile (\<lambda>x. x \<noteq> c) (rev s) = y # r" and "p = rev r"
    and q: "q = rev (takeWhile (\<lambda>x. x \<noteq> c) (rev s))"
    using assms by (auto simp: rpartition_on_def split: list.splits)
  from d have "y = c" by (metis (mono_tags, lifting) dropWhile_eq_Cons_conv)
  with d q have "rev s = rev q @ c # r" by (metis rev_rev_ident takeWhile_dropWhile_id)
  with \<open>p = rev r\<close> have "s = p @ c # q" by (metis append.assoc append_Cons append_Nil rev.simps(2) rev_append rev_rev_ident)
  moreover from q have "c \<notin> set q" by (auto dest: set_takeWhileD)
  ultimately show ?thesis by blast
qed

lemma rpartition_on_None: "rpartition_on c s = None \<longleftrightarrow> c \<notin> set s"
proof -
  have "rpartition_on c s = None \<longleftrightarrow> dropWhile (\<lambda>x. x \<noteq> c) (rev s) = []"
    by (cases "dropWhile (\<lambda>x. x \<noteq> c) (rev s)")
      (simp_all add: rpartition_on_def del: dropWhile_eq_Nil_conv)
  then show ?thesis by (metis (mono_tags, lifting) dropWhile_eq_Nil_conv set_rev)
qed

lemma replace_char_Nil [simp]: "replace_char c t [] = []"
  by (simp add: replace_char_def)

lemma replace_char_Cons [simp]:
  "replace_char c t (x # s) = (if x = c then t else [x]) @ replace_char c t s"
  by (simp add: replace_char_def)

lemma replace_char_none: "c \<notin> set s \<Longrightarrow> replace_char c t s = s"
  by (induction s) auto

text \<open>Decimal printing and reading are inverse, and print digits only.\<close>

lemma digit_val_char [simp]: "0 \<le> d \<Longrightarrow> d < 10 \<Longrightarrow> digit_val (digit_char d) = d"
  by (simp add: digit_val_def digit_char_def of_char_of)

lemma is_digit_char: "0 \<le> d \<Longrightarrow> d < 10 \<Longrightarrow> is_digit (digit_char d)"
proof -
  assume "0 \<le> d" and "d < 10"
  then have "d \<in> {0, 1, 2, 3, 4, 5, 6, 7, 8, 9}" by simp presburger
  then show ?thesis
    by (auto simp: is_digit_def in_range_def digit_char_def less_eq_char_def char_of_def)
qed

lemma dec_digits_ne [simp]: "dec_digits n \<noteq> []"
  by (subst dec_digits.simps) simp

lemma digits_val_append [simp]: "digits_val (s @ [c]) = 10 * digits_val s + digit_val c"
  by (simp add: digits_val_def)

lemma digits_val_dec: "0 \<le> n \<Longrightarrow> digits_val (dec_digits n) = n"
proof (induction n rule: dec_digits.induct)
  case (1 n)
  show ?case
  proof (cases "n < 10")
    case True
    with 1 show ?thesis by (subst dec_digits.simps) (simp add: digits_val_def)
  next
    case False
    with 1 have "digits_val (dec_digits (n div 10)) = n div 10" by simp
    with False show ?thesis by (subst dec_digits.simps) simp
  qed
qed

lemma all_digits_dec: "0 \<le> n \<Longrightarrow> list_all is_digit (dec_digits n)"
proof (induction n rule: dec_digits.induct)
  case (1 n)
  show ?case
  proof (cases "n < 10")
    case True
    with 1 show ?thesis by (subst dec_digits.simps) (simp add: is_digit_char)
  next
    case False
    with 1 have "list_all is_digit (dec_digits (n div 10))" by simp
    with False show ?thesis by (subst dec_digits.simps) (simp add: is_digit_char)
  qed
qed

lemma str_int_inj: "0 \<le> m \<Longrightarrow> 0 \<le> n \<Longrightarrow> str_int m = str_int n \<longleftrightarrow> m = n"
  by (metis digits_val_dec linorder_not_less str_int_def)

lemma rstrip_snoc [simp]: "rstrip_by p (w @ [c]) = (if p c then rstrip_by p w else w @ [c])"
  by (simp add: rstrip_by_def)

lemma rstrip_Nil [simp]: "rstrip_by p [] = []"
  by (simp add: rstrip_by_def)

lemma rstrip_keep: "\<not> p x \<Longrightarrow> rstrip_by p (u @ x # v) = u @ x # rstrip_by p v"
proof (induction v rule: rev_induct)
  case Nil
  then show ?case by simp
next
  case (snoc c v)
  then show ?case
    using rstrip_snoc [of p "u @ x # v" c] by (simp split: if_splits)
qed

lemma rstrip_subset: "set (rstrip_by p s) \<subseteq> set s"
  by (auto simp: rstrip_by_def dest: set_dropWhileD)

lemma rstrip_last: "rstrip_by p s \<noteq> [] \<Longrightarrow> \<not> p (last (rstrip_by p s))"
  unfolding rstrip_by_def by (metis hd_dropWhile last_rev rev_is_Nil_conv)

lemma digit_val_range: "is_digit c \<Longrightarrow> 0 \<le> digit_val c \<and> digit_val c < 10"
proof -
  assume "is_digit c"
  then have "48 \<le> (of_char c :: nat)" and "(of_char c :: nat) \<le> 57"
    by (auto simp: is_digit_def in_range_def less_eq_char_def)
  moreover have "(of_char c :: int) = int (of_char c)" by (simp only: of_nat_of_char)
  ultimately show ?thesis unfolding digit_val_def by linarith
qed

lemma digits_val_nonneg: "list_all is_digit ds \<Longrightarrow> 0 \<le> digits_val ds"
proof (induction ds rule: rev_induct)
  case (snoc c ds)
  then show ?case using digit_val_range [of c] by simp
qed (simp add: digits_val_def)

end
