(* ===== verification/Errors.thy ===== *)
theory Errors
  imports Prelude
begin

text \<open>
  The exceptions of the control plane as values. The classes of \<open>docker.errors\<close> keep their
  hierarchy: \<open>ImageNotFound\<close> is a \<open>NotFound\<close>, and that is an \<open>APIError\<close>; \<open>ContainerError\<close> is none of
  them and carries the output of the failed run. Texts of exceptions are kept only where the
  program reads them again; a field that holds \<open>str(exc)\<close> holds the exception itself.

  \<open>NoFuel\<close> is not an exception of the program: it marks a polling loop of the model that was cut off,
  and no handler catches it. Theorems on the loops show that it does not occur with enough fuel.
\<close>

datatype derr = NotFound | ImageNotFound | APIError | ContainerError string

datatype pyerr =
    ValueErr
  | ValidationErr
  | UnicodeErr
  | KeyErr string
  | TypeErr
  | FileNotFound
  | FileExists
  | PermissionErr
  | OSErr
  | YamlErr
  | StoreErr
  | DockerErr derr
  | OtherErr
  | NoFuel

text \<open>What \<open>except NotFound\<close>, \<open>except APIError\<close>, \<open>except ValueError\<close> and \<open>except OSError\<close> catch.\<close>

definition is_not_found :: "pyerr \<Rightarrow> bool" where
  "is_not_found e = (e \<in> {DockerErr NotFound, DockerErr ImageNotFound})"

definition is_api_error :: "pyerr \<Rightarrow> bool" where
  "is_api_error e = (e \<in> {DockerErr NotFound, DockerErr ImageNotFound, DockerErr APIError})"

definition is_value_error :: "pyerr \<Rightarrow> bool" where
  "is_value_error e = (case e of ValueErr \<Rightarrow> True | ValidationErr \<Rightarrow> True | UnicodeErr \<Rightarrow> True | _ \<Rightarrow> False)"

text \<open>What \<open>except Exception\<close> catches.\<close>

definition is_exception :: "pyerr \<Rightarrow> bool" where
  "is_exception e = (e \<noteq> NoFuel)"

text \<open>\<open>APIError\<close> is a \<open>requests.HTTPError\<close>, and that is an \<open>OSError\<close>.\<close>

definition is_os_error :: "pyerr \<Rightarrow> bool" where
  "is_os_error e = (e \<in> {FileNotFound, FileExists, PermissionErr, OSErr} \<or> is_api_error e)"

lemma not_found_api: "is_not_found e \<Longrightarrow> is_api_error e"
  by (auto simp: is_not_found_def is_api_error_def)

lemma api_os: "is_api_error e \<Longrightarrow> is_os_error e"
  by (simp add: is_os_error_def)

end
