(* ===== verification/World.thy ===== *)
theory World
  imports Errors "HOL-Library.AList"
begin

text \<open>
  What the effectful classes of the control plane act on, and the services they call.

  The state is a record: the files of the instances directory, the state of git, the rest of the
  file system (secrets, certificates, rendered configuration), the state of the Docker engine
  together with the clock and the network, and a log of the calls made to git and Docker. The log
  is no state of the program; it lets theorems speak about which calls were made, and in which
  order.

  The services themselves (docker-py and its engine, git, PyYAML, the clock, sockets) are not code of
  this repository: they are the functions of a record \<open>ext\<close>, an argument of every definition that
  uses them.
\<close>

section \<open>Python values\<close>

text \<open>Values as YAML and JSON give them; floats and dates do not occur.\<close>

datatype pyval = PNone | PBool bool | PInt int | PStr string | PList "pyval list" | PDict "(pyval \<times> pyval) list"

fun truthy :: "pyval \<Rightarrow> bool" where
  "truthy PNone = False"
| "truthy (PBool b) = b"
| "truthy (PInt n) = (n \<noteq> 0)"
| "truthy (PStr s) = (s \<noteq> [])"
| "truthy (PList xs) = (xs \<noteq> [])"
| "truthy (PDict d) = (d \<noteq> [])"

definition dget :: "(pyval \<times> pyval) list \<Rightarrow> string \<Rightarrow> pyval option" where
  "dget d k = map_of d (PStr k)"

lemma dget_Nil [simp]: "dget [] k = None"
  by (simp add: dget_def)

lemma dget_Cons [simp]: "dget ((PStr k, v) # d) l = (if k = l then Some v else dget d l)"
  by (simp add: dget_def)

section \<open>Files\<close>

text \<open>The content of a file: text, bytes that are not UTF-8, or a file the service may not read.\<close>

datatype content = Text string | Undecodable | Unreadable

text \<open>A file with its mode, a directory with its mode, or a symbolic link with its target.\<close>

datatype node = FFile content nat | FDir nat | FLink string

type_synonym path = "string list"
type_synonym fs = "(path \<times> node) list"

text \<open>\<open>read_text(encoding="utf-8")\<close>.\<close>

definition read_content :: "content \<Rightarrow> pyerr + string" where
  "read_content c = (case c of Text s \<Rightarrow> Inr (universal_newlines s) | Undecodable \<Rightarrow> Inl UnicodeErr | Unreadable \<Rightarrow> Inl PermissionErr)"

section \<open>Calls of the services\<close>

record hardening =
  h_read_only :: bool
  h_tmpfs :: "(string \<times> string) list"
  h_cap_drop :: "string list"
  h_cap_add :: "string list"
  h_security_opt :: "string list"
  h_log_type :: string
  h_log_config :: "(string \<times> string) list"

text \<open>The arguments of \<open>containers.run\<close>. A volume is a source with its target and mode.\<close>

record run_spec =
  rs_image :: string
  rs_command :: "string list option"
  rs_name :: "string option"
  rs_hostname :: string
  rs_env :: "(string \<times> string) list"
  rs_volumes :: "(string \<times> string \<times> string) list"
  rs_ports :: "(string \<times> string \<times> int) list"
  rs_detach :: bool
  rs_remove :: bool
  rs_restart :: "string option"
  rs_healthcheck :: "string list option"
  rs_hardening :: hardening

datatype call =
    CGit "string list" "int option"
  | CPull string "string option"
  | CGet string
  | CReload string
  | CImage string
  | CLogs string int "int option" "int option"
  | CRemove string
  | CStart string
  | CStop string
  | CRestart string
  | CRun run_spec
  | CVolGet string
  | CVolRemove string
  | CExec string "string list"

record ('g, 'd) world =
  w_insts :: "(string \<times> content) list"
  w_git :: 'g
  w_fs :: fs
  w_dk :: 'd
  w_log :: "call list"

text \<open>
  The services. \<open>x_load\<close>, \<open>x_dump\<close>: \<open>yaml.safe_load\<close> and \<open>safe_dump\<close>; \<open>x_int\<close>: pydantic's conversion
  of a value that is no integer to an integer; \<open>x_git\<close>: a run of git in the instances directory, with
  its exit code, output and error output, or no result if git cannot be started; the engine's calls, by
  container id; \<open>x_now\<close>, \<open>x_sleep\<close>: the monotonic clock in milliseconds; \<open>x_route\<close>: the local address of a
  UDP socket connected to a host; \<open>x_routes\<close>: the lines of \<open>/proc/net/route\<close>; \<open>x_ifaddr\<close>: the address of
  an interface. Container output is the decoded text.
\<close>

record ('g, 'd) ext =
  x_load :: "string \<Rightarrow> pyerr + pyval"
  x_dump :: "pyval \<Rightarrow> string"
  x_int :: "pyval \<Rightarrow> int option"
  x_git :: "string list \<Rightarrow> (string \<times> content) list \<Rightarrow> 'g \<Rightarrow> (int \<times> string \<times> string) option \<times> 'g"
  x_pull :: "string \<Rightarrow> string option \<Rightarrow> 'd \<Rightarrow> (pyerr + unit) \<times> 'd"
  x_get :: "string \<Rightarrow> 'd \<Rightarrow> (pyerr + string) \<times> 'd"
  x_reload :: "string \<Rightarrow> 'd \<Rightarrow> (pyerr + (pyval \<times> pyval) list) \<times> 'd"
  x_image :: "string \<Rightarrow> 'd \<Rightarrow> (pyerr + string list option) \<times> 'd"
  x_logs :: "string \<Rightarrow> int \<Rightarrow> int option \<Rightarrow> int option \<Rightarrow> 'd \<Rightarrow> (pyerr + string) \<times> 'd"
  x_remove :: "string \<Rightarrow> 'd \<Rightarrow> (pyerr + unit) \<times> 'd"
  x_start :: "string \<Rightarrow> 'd \<Rightarrow> (pyerr + unit) \<times> 'd"
  x_stop :: "string \<Rightarrow> 'd \<Rightarrow> (pyerr + unit) \<times> 'd"
  x_restart :: "string \<Rightarrow> 'd \<Rightarrow> (pyerr + unit) \<times> 'd"
  x_run :: "run_spec \<Rightarrow> 'd \<Rightarrow> (pyerr + string) \<times> 'd"
  x_vol_get :: "string \<Rightarrow> 'd \<Rightarrow> (pyerr + unit) \<times> 'd"
  x_vol_remove :: "string \<Rightarrow> 'd \<Rightarrow> (pyerr + unit) \<times> 'd"
  x_exec :: "string \<Rightarrow> string list \<Rightarrow> 'd \<Rightarrow> (pyerr + int \<times> string) \<times> 'd"
  x_now :: "'d \<Rightarrow> int"
  x_sleep :: "int \<Rightarrow> 'd \<Rightarrow> 'd"
  x_route :: "string \<Rightarrow> 'd \<Rightarrow> pyerr + string"
  x_routes :: "'d \<Rightarrow> pyerr + string list"
  x_ifaddr :: "string \<Rightarrow> 'd \<Rightarrow> pyerr + string"

type_synonym ('g, 'd, 'a) run = "(('g, 'd) world, pyerr, 'a) prog"

definition log_call :: "call \<Rightarrow> ('g, 'd, unit) run" where
  "log_call c = updP (\<lambda>w. w \<lparr> w_log := w_log w @ [c] \<rparr>)"

text \<open>A call of the engine: it is logged and runs on the engine's state.\<close>

definition engine :: "call \<Rightarrow> ('d \<Rightarrow> (pyerr + 'a) \<times> 'd) \<Rightarrow> ('g, 'd, 'a) run" where
  "engine c f = (\<lambda>w. case f (w_dk w) of (r, d) \<Rightarrow> (r, w \<lparr> w_dk := d, w_log := w_log w @ [c] \<rparr>))"

lemma engine_run [code]: "engine c f w =
    (case f (w_dk w) of (r, d) \<Rightarrow> (r, w \<lparr> w_dk := d, w_log := w_log w @ [c] \<rparr>))"
  by (simp add: engine_def)

section \<open>Logs\<close>

text \<open>\<open>logs P m\<close>: every call that \<open>m\<close> adds to the log satisfies \<open>P\<close>, and it takes none away.\<close>

definition logs :: "(call \<Rightarrow> bool) \<Rightarrow> ('g, 'd, 'a) run \<Rightarrow> bool" where
  "logs P m \<longleftrightarrow> (\<forall>w. \<exists>cs. w_log (snd (m w)) = w_log w @ cs \<and> list_all P cs)"

named_theorems logs_intros "which calls a program makes"

lemma logsD: "logs P m \<Longrightarrow> m w = (r, w') \<Longrightarrow> \<exists>cs. w_log w' = w_log w @ cs \<and> list_all P cs"
  unfolding logs_def by (metis snd_conv)

lemma logs_return [logs_intros]: "logs P (returnP a)"
  by (simp add: logs_def)

lemma logs_raise [logs_intros]: "logs P (raiseP e)"
  by (simp add: logs_def)

lemma logs_get [logs_intros]: "logs P (getP f)"
  by (simp add: logs_def)

lemma logs_lift [logs_intros]: "logs P (liftP r)"
  by (simp add: logs_def)

lemma logs_upd: "(\<And>w. w_log (f w) = w_log w) \<Longrightarrow> logs P (updP f)"
  by (simp add: logs_def)

lemma logs_engine [logs_intros]: "P c \<Longrightarrow> logs P (engine c f)"
  by (auto simp: logs_def engine_def split: prod.split)

lemma logs_call [logs_intros]: "P c \<Longrightarrow> logs P (log_call c)"
  by (auto simp: logs_def log_call_def)

lemma logs_trans:
  assumes "logs P m" and "m w = (r, w1)" and "\<exists>ds. w_log w2 = w_log w1 @ ds \<and> list_all P ds"
  shows "\<exists>cs. w_log w2 = w_log w @ cs \<and> list_all P cs"
  using logsD [OF assms(1,2)] assms(3) by auto

lemma logs_bind [logs_intros]:
  assumes "logs P m" and "\<And>a. logs P (f a)"
  shows "logs P (bindP m f)"
  unfolding logs_def
proof
  fix w
  obtain r w1 where m: "m w = (r, w1)" by (cases "m w")
  show "\<exists>cs. w_log (snd (bindP m f w)) = w_log w @ cs \<and> list_all P cs"
  proof (cases r)
    case (Inl e)
    with m show ?thesis using logsD [OF assms(1) m] by (simp add: run_bind)
  next
    case (Inr a)
    have "\<exists>ds. w_log (snd (f a w1)) = w_log w1 @ ds \<and> list_all P ds"
      using assms(2) [of a] by (simp add: logs_def)
    with m Inr show ?thesis using logs_trans [OF assms(1) m] by (simp add: run_bind)
  qed
qed

lemma logs_try [logs_intros]:
  assumes "logs P m" and "\<And>e. logs P (h e)"
  shows "logs P (tryP m h)"
  unfolding logs_def
proof
  fix w
  obtain r w1 where m: "m w = (r, w1)" by (cases "m w")
  show "\<exists>cs. w_log (snd (tryP m h w)) = w_log w @ cs \<and> list_all P cs"
  proof (cases r)
    case (Inr a)
    with m show ?thesis using logsD [OF assms(1) m] by (simp add: run_try)
  next
    case (Inl e)
    have "\<exists>ds. w_log (snd (h e w1)) = w_log w1 @ ds \<and> list_all P ds"
      using assms(2) [of e] by (simp add: logs_def)
    with m Inl show ?thesis using logs_trans [OF assms(1) m] by (simp add: run_try)
  qed
qed

lemma logs_if [logs_intros]: "logs P m \<Longrightarrow> logs P n \<Longrightarrow> logs P (if b then m else n)"
  by simp

lemma logs_option [logs_intros]:
  "logs P m \<Longrightarrow> (\<And>x. logs P (f x)) \<Longrightarrow> logs P (case opt of None \<Rightarrow> m | Some x \<Rightarrow> f x)"
  by (cases opt) auto

lemma logs_sum [logs_intros]:
  "(\<And>e. logs P (f e)) \<Longrightarrow> (\<And>a. logs P (g a)) \<Longrightarrow> logs P (case s of Inl e \<Rightarrow> f e | Inr a \<Rightarrow> g a)"
  by (cases s) auto

lemma logs_pair [logs_intros]:
  "(\<And>a b. logs P (f a b)) \<Longrightarrow> logs P (case p of (a, b) \<Rightarrow> f a b)"
  by (cases p) auto

lemma logs_map [logs_intros]: "(\<And>x. x \<in> set xs \<Longrightarrow> logs P (f x)) \<Longrightarrow> logs P (mapP f xs)"
  by (induction xs) (auto intro!: logs_intros)

lemma logs_each [logs_intros]: "(\<And>x. x \<in> set xs \<Longrightarrow> logs P (f x)) \<Longrightarrow> logs P (eachP f xs)"
  by (induction xs) (auto intro!: logs_intros)

lemma logs_mono: "logs P m \<Longrightarrow> (\<And>c. P c \<Longrightarrow> Q c) \<Longrightarrow> logs Q m"
  unfolding logs_def by (metis list.pred_mono_strong)

lemma keeps_log_call [keeps_intros]:
  "(\<And>w l. v (w \<lparr> w_log := l \<rparr>) = v w) \<Longrightarrow> keeps v (log_call c)"
  by (simp add: keeps_def log_call_def)

lemma keeps_engine [keeps_intros]:
  "(\<And>w d l. v (w \<lparr> w_dk := d, w_log := l \<rparr>) = v w) \<Longrightarrow> keeps v (engine c f)"
  by (simp add: keeps_def engine_def split: prod.split)

end
