(* ===== verification/PyRe.thy ===== *)
theory PyRe
  imports Prelude
begin

text \<open>
  The part of Python's \<open>re\<close> module the sources use: character classes, sequence, alternation,
  greedy and lazy repetition, groups, the look-ahead, and \<open>$\<close>. The matcher returns all ways to
  match, the one Python reports first; a way is the text left over and the groups captured. A
  leading \<open>^\<close> is left out: \<open>re.match\<close> and \<open>re.fullmatch\<close> are anchored at the start anyway.
  \<open>$\<close> holds at the end of the text and also before a line feed that ends it.
\<close>

section \<open>Patterns\<close>

datatype re =
    Eps
  | Cls "(char \<times> char) list"
  | NCls "(char \<times> char) list"
  | Seq re re
  | Alt re re
  | Rep nat "nat option" re
  | Lazy re
  | Grp nat re
  | Eos
  | Look re

definition lit :: "char \<Rightarrow> re" where
  "lit c = Cls [(c, c)]"

definition lits :: "string \<Rightarrow> re" where
  "lits s = foldr (\<lambda>c r. Seq (lit c) r) s Eps"

definition seqs :: "re list \<Rightarrow> re" where
  "seqs rs = foldr Seq rs Eps"

abbreviation opt :: "re \<Rightarrow> re" where "opt r \<equiv> Rep 0 (Some (Suc 0)) r"
abbreviation star :: "re \<Rightarrow> re" where "star r \<equiv> Rep 0 None r"
abbreviation plus1 :: "re \<Rightarrow> re" where "plus1 r \<equiv> Rep (Suc 0) None r"
abbreviation up_to :: "nat \<Rightarrow> re \<Rightarrow> re" where "up_to n r \<equiv> Rep 0 (Some n) r"

definition cls_has :: "(char \<times> char) list \<Rightarrow> char \<Rightarrow> bool" where
  "cls_has rs c = list_ex (in_range c) rs"

section \<open>The matcher\<close>

type_synonym caps = "(nat \<times> string) list"
type_synonym mstate = "string \<times> caps"

text \<open>
  Repetition tries one more round first and stops later. A round that consumes nothing ends the
  repetition (no pattern of the sources has one), so the text left over shrinks.
\<close>

function rep_run :: "(mstate \<Rightarrow> mstate list) \<Rightarrow> nat \<Rightarrow> nat option \<Rightarrow> mstate \<Rightarrow> mstate list" where
  "rep_run f m n x =
     (if n = Some 0 then []
      else concat (map (\<lambda>y. if length (fst y) < length (fst x)
                           then rep_run f (m - 1) (map_option (\<lambda>k. k - 1) n) y else []) (f x)))
     @ (if m = 0 then [x] else [])"
  by pat_completeness auto
termination
  by (relation "measure (\<lambda>(f, m, n, x). length (fst x))") auto

declare rep_run.simps [simp del]

function lazy_run :: "(mstate \<Rightarrow> mstate list) \<Rightarrow> mstate \<Rightarrow> mstate list" where
  "lazy_run f x =
     x # concat (map (\<lambda>y. if length (fst y) < length (fst x) then lazy_run f y else []) (f x))"
  by pat_completeness auto
termination
  by (relation "measure (\<lambda>(f, x). length (fst x))") auto

declare lazy_run.simps [simp del]

primrec re_run :: "re \<Rightarrow> mstate \<Rightarrow> mstate list" where
  "re_run Eps x = [x]"
| "re_run (Cls rs) x =
     (case fst x of [] \<Rightarrow> [] | c # t \<Rightarrow> if cls_has rs c then [(t, snd x)] else [])"
| "re_run (NCls rs) x =
     (case fst x of [] \<Rightarrow> [] | c # t \<Rightarrow> if cls_has rs c then [] else [(t, snd x)])"
| "re_run (Seq a b) x = concat (map (re_run b) (re_run a x))"
| "re_run (Alt a b) x = re_run a x @ re_run b x"
| "re_run (Rep m n r) x = rep_run (re_run r) m n x"
| "re_run (Lazy r) x = lazy_run (re_run r) x"
| "re_run (Grp k r) x =
     map (\<lambda>y. (fst y, (k, take (length (fst x) - length (fst y)) (fst x)) # snd y)) (re_run r x)"
| "re_run Eos x = (if fst x = [] \<or> fst x = [LF] then [x] else [])"
| "re_run (Look r) x = (case re_run r x of [] \<Rightarrow> [] | y # _ \<Rightarrow> [(fst x, snd y)])"

text \<open>\<open>p.match(s)\<close>, its truth value, \<open>p.fullmatch(s)\<close>, and \<open>m.group(k)\<close>.\<close>

definition re_match :: "re \<Rightarrow> string \<Rightarrow> mstate option" where
  "re_match r s = (case re_run r (s, []) of [] \<Rightarrow> None | y # _ \<Rightarrow> Some y)"

definition re_test :: "re \<Rightarrow> string \<Rightarrow> bool" where
  "re_test r s = (re_match r s \<noteq> None)"

definition re_fullmatch :: "re \<Rightarrow> string \<Rightarrow> mstate option" where
  "re_fullmatch r s = find (\<lambda>y. fst y = []) (re_run r (s, []))"

definition group_of :: "nat \<Rightarrow> mstate \<Rightarrow> string option" where
  "group_of k y = map_of (snd y) k"

text \<open>\<open>p.findall(s)\<close> of a pattern without groups: the matches, left to right, without overlap.\<close>

function re_findall :: "re \<Rightarrow> string \<Rightarrow> string list" where
  "re_findall r s =
     (case re_run r (s, []) of
        [] \<Rightarrow> (case s of [] \<Rightarrow> [] | _ # t \<Rightarrow> re_findall r t)
      | y # _ \<Rightarrow>
          if length (fst y) < length s then take (length s - length (fst y)) s # re_findall r (fst y)
          else [] # (case s of [] \<Rightarrow> [] | _ # t \<Rightarrow> re_findall r t))"
  by pat_completeness auto
termination
  by (relation "measure (\<lambda>(r, s). length s)") auto

declare re_findall.simps [simp del]

section \<open>Where a match can end\<close>

text \<open>
  The texts left over by the ways to match. They do not depend on the groups captured so far, and
  they follow the structure of the pattern; this is what the validators' lemmas rest on.
\<close>

definition ends :: "re \<Rightarrow> string \<Rightarrow> string set" where
  "ends r s = fst ` set (re_run r (s, []))"

definition blind :: "(mstate \<Rightarrow> mstate list) \<Rightarrow> bool" where
  "blind f \<longleftrightarrow> (\<forall>s e e'. map fst (f (s, e)) = map fst (f (s, e')))"

lemma blindD: "blind f \<Longrightarrow> fst x = fst y \<Longrightarrow> map fst (f x) = map fst (f y)"
  unfolding blind_def by (metis prod.collapse)

lemma map_fst_concat_cong:
  assumes "map fst xs = map fst ys"
    and "\<And>x y. x \<in> set xs \<Longrightarrow> y \<in> set ys \<Longrightarrow> fst x = fst y \<Longrightarrow> map fst (g x) = map fst (h y)"
  shows "map fst (concat (map g xs)) = map fst (concat (map h ys))"
  using assms
proof (induction xs arbitrary: ys)
  case Nil
  then show ?case by simp
next
  case (Cons x xs)
  then obtain y ys' where "ys = y # ys'" "fst x = fst y" "map fst xs = map fst ys'"
    by (cases ys) auto
  then show ?case using Cons.IH [of ys'] Cons.prems(2) by auto
qed

lemma rep_run_0: "rep_run f m (Some 0) x = (if m = 0 then [x] else [])"
  by (simp add: rep_run.simps)

lemma rep_run_unfold:
  "n \<noteq> Some 0 \<Longrightarrow> rep_run f m n x =
     concat (map (\<lambda>y. if length (fst y) < length (fst x)
                     then rep_run f (m - 1) (map_option (\<lambda>k. k - 1) n) y else []) (f x))
     @ (if m = 0 then [x] else [])"
  by (simp add: rep_run.simps [of f m n x])

lemma blind_rep:
  "blind f \<Longrightarrow> fst x = fst y \<Longrightarrow> map fst (rep_run f m n x) = map fst (rep_run f m n y)"
proof (induction f m n x arbitrary: y rule: rep_run.induct)
  case (1 f m n x)
  let ?k = "map_option (\<lambda>k. k - 1) n"
  let ?g = "\<lambda>x z. if length (fst z) < length (fst x) then rep_run f (m - 1) ?k z else []"
  show ?case
  proof (cases "n = Some 0")
    case True
    with 1(3) show ?thesis by (simp add: rep_run_0)
  next
    case False
    have "map fst (concat (map (?g x) (f x))) = map fst (concat (map (?g y) (f y)))"
    proof (rule map_fst_concat_cong)
      show "map fst (f x) = map fst (f y)" using 1(2,3) by (rule blindD)
    next
      fix u v :: mstate assume "u \<in> set (f x)" "fst u = fst v"
      then show "map fst (?g x u) = map fst (?g y v)"
        using 1(1) [OF False, of u v] 1(2,3) by auto
    qed
    with False 1(3) show ?thesis by (simp add: rep_run_unfold)
  qed
qed

lemma blind_lazy:
  "blind f \<Longrightarrow> fst x = fst y \<Longrightarrow> map fst (lazy_run f x) = map fst (lazy_run f y)"
proof (induction f x arbitrary: y rule: lazy_run.induct)
  case (1 f x)
  let ?g = "\<lambda>x z. if length (fst z) < length (fst x) then lazy_run f z else []"
  have "map fst (concat (map (?g x) (f x))) = map fst (concat (map (?g y) (f y)))"
  proof (rule map_fst_concat_cong)
    show "map fst (f x) = map fst (f y)" using 1(2,3) by (rule blindD)
  next
    fix u v :: mstate assume "u \<in> set (f x)" "fst u = fst v"
    then show "map fst (?g x u) = map fst (?g y v)"
      using 1(1) [of u v] 1(2,3) by auto
  qed
  with 1(3) show ?case by (simp add: lazy_run.simps [of f x] lazy_run.simps [of f y])
qed

lemma blind_run: "blind (re_run r)"
proof (induction r)
  case (Seq a b)
  then show ?case
    unfolding blind_def by (auto intro!: map_fst_concat_cong intro: blindD [OF Seq(2)])
next
  case (Alt a b)
  then show ?case unfolding blind_def by simp metis
next
  case (Rep m n r)
  then show ?case by (simp add: blind_def [of "rep_run (re_run r) m n"] blind_rep)
next
  case (Lazy r)
  then show ?case by (simp add: blind_def [of "lazy_run (re_run r)"] blind_lazy)
next
  case (Grp k r)
  then show ?case unfolding blind_def by (simp add: comp_def)
next
  case (Look r)
  show ?case
    unfolding blind_def
  proof (intro allI)
    fix s e e'
    have "map fst (re_run r (s, e)) = map fst (re_run r (s, e'))"
      using Look by (simp add: blind_def)
    then show "map fst (re_run (Look r) (s, e)) = map fst (re_run (Look r) (s, e'))"
      by (cases "re_run r (s, e)"; cases "re_run r (s, e')") auto
  qed
qed (auto simp: blind_def split: list.splits)

lemma ends_any: "fst ` set (re_run r x) = ends r (fst x)"
proof -
  have "map fst (re_run r x) = map fst (re_run r (fst x, []))"
    by (rule blindD [OF blind_run]) simp
  then show ?thesis unfolding ends_def by (metis list.set_map)
qed

lemma re_test_ends: "re_test r s \<longleftrightarrow> ends r s \<noteq> {}"
  by (auto simp: re_test_def re_match_def ends_def split: list.splits)

text \<open>The ends of each form of pattern.\<close>

lemma ends_Eps [simp]: "ends Eps s = {s}"
  by (simp add: ends_def)

lemma ends_Nil_Cls [simp]: "ends (Cls rs) [] = {}" "ends (NCls rs) [] = {}"
  by (simp_all add: ends_def)

lemma ends_Cons_Cls [simp]:
  "ends (Cls rs) (c # t) = (if cls_has rs c then {t} else {})"
  "ends (NCls rs) (c # t) = (if cls_has rs c then {} else {t})"
  by (simp_all add: ends_def)

lemma ends_Seq: "ends (Seq a b) s = (\<Union>u \<in> ends a s. ends b u)"
proof -
  have "ends (Seq a b) s = (\<Union>y \<in> set (re_run a (s, [])). fst ` set (re_run b y))"
    by (simp add: ends_def image_UN)
  also have "\<dots> = (\<Union>y \<in> set (re_run a (s, [])). ends b (fst y))" by (simp add: ends_any)
  finally show ?thesis by (simp add: ends_def)
qed

lemma ends_Alt: "ends (Alt a b) s = ends a s \<union> ends b s"
  by (simp add: ends_def image_Un)

lemma ends_Grp [simp]: "ends (Grp k r) s = ends r s"
  by (simp add: ends_def image_image)

lemma ends_Eos [simp]: "ends Eos s = (if s = [] \<or> s = [LF] then {s} else {})"
  by (simp add: ends_def)

lemma ends_Look: "ends (Look r) s = (if ends r s = {} then {} else {s})"
  by (cases "re_run r (s, [])") (auto simp: ends_def)

lemma ends_Rep0 [simp]: "ends (Rep m (Some 0) r) s = (if m = 0 then {s} else {})"
  by (simp add: ends_def rep_run_0)

lemma ends_Rep:
  assumes "n \<noteq> Some 0"
  shows "ends (Rep m n r) s =
    (\<Union>u \<in> {u \<in> ends r s. length u < length s}. ends (Rep (m - 1) (map_option (\<lambda>k. k - 1) n) r) u)
    \<union> (if m = 0 then {s} else {})"
proof -
  let ?R = "Rep (m - 1) (map_option (\<lambda>k. k - 1) n) r"
  let ?Y = "set (re_run r (s, []))"
  have "ends (Rep m n r) s =
      (\<Union>y \<in> ?Y. if length (fst y) < length s then fst ` set (re_run ?R y) else {})
      \<union> (if m = 0 then {s} else {})"
    using assms by (auto simp: ends_def rep_run_unfold)
  also have "\<dots> = (\<Union>y \<in> ?Y. if length (fst y) < length s then ends ?R (fst y) else {})
      \<union> (if m = 0 then {s} else {})"
    by (simp only: ends_any)
  also have "\<dots> = (\<Union>u \<in> ends r s. if length u < length s then ends ?R u else {})
      \<union> (if m = 0 then {s} else {})"
    unfolding ends_def [of r s] by (simp only: UN_simps image_image)
  finally show ?thesis by auto
qed

lemma ends_Lazy:
  "ends (Lazy r) s = {s} \<union> (\<Union>u \<in> {u \<in> ends r s. length u < length s}. ends (Lazy r) u)"
proof -
  let ?Y = "set (re_run r (s, []))"
  have "ends (Lazy r) s =
      {s} \<union> (\<Union>y \<in> ?Y. if length (fst y) < length s then fst ` set (re_run (Lazy r) y) else {})"
    by (auto simp: ends_def lazy_run.simps [of "re_run r" "(s, [])"])
  also have "\<dots> = {s} \<union> (\<Union>y \<in> ?Y. if length (fst y) < length s then ends (Lazy r) (fst y) else {})"
    by (simp only: ends_any)
  also have "\<dots> = {s} \<union> (\<Union>u \<in> ends r s. if length u < length s then ends (Lazy r) u else {})"
    unfolding ends_def [of r s] by (simp only: UN_simps image_image)
  finally show ?thesis by auto
qed

text \<open>Repetition of a class: any number of its characters within the bounds.\<close>

definition within :: "nat option \<Rightarrow> nat \<Rightarrow> bool" where
  "within n k = (case n of None \<Rightarrow> True | Some j \<Rightarrow> k \<le> j)"

lemma within_simps [simp]: "within None k" "within (Some j) k \<longleftrightarrow> k \<le> j"
  by (simp_all add: within_def)

lemma within_Suc: "n \<noteq> Some 0 \<Longrightarrow> within n (Suc k) \<longleftrightarrow> within (map_option (\<lambda>k. k - 1) n) k"
  by (cases n) auto

lemma ends_Rep_Cls:
  "ends (Rep m n (Cls rs)) s =
     {t. \<exists>p. s = p @ t \<and> list_all (cls_has rs) p \<and> m \<le> length p \<and> within n (length p)}"
proof (induction s arbitrary: m n)
  case Nil
  show ?case by (cases "n = Some 0") (auto simp: ends_Rep, (cases n, auto)+)
next
  case (Cons c s)
  show ?case
  proof (cases "n = Some 0")
    case True
    then show ?thesis by auto
  next
    case False
    let ?S = "\<lambda>m n s. {t. \<exists>p. s = p @ t \<and> list_all (cls_has rs) p \<and> m \<le> length p \<and> within n (length p)}"
    have "{u \<in> ends (Cls rs) (c # s). length u < length (c # s)} = (if cls_has rs c then {s} else {})"
      by auto
    then have "ends (Rep m n (Cls rs)) (c # s) =
        (if cls_has rs c then ?S (m - 1) (map_option (\<lambda>k. k - 1) n) s else {})
        \<union> (if m = 0 then {c # s} else {})"
      using False by (simp add: ends_Rep Cons.IH)
    also have "\<dots> = ?S m n (c # s)"
    proof (rule set_eqI)
      fix t
      have "t \<in> ?S m n (c # s) \<longleftrightarrow>
          (\<exists>p. c # s = p @ t \<and> p = [] \<and> m = 0) \<or>
          (\<exists>p. s = p @ t \<and> cls_has rs c \<and> list_all (cls_has rs) p \<and> m \<le> Suc (length p)
             \<and> within n (Suc (length p)))"
        by (auto simp: Cons_eq_append_conv within_def split: option.splits)
      also have "\<dots> \<longleftrightarrow> t \<in> (if cls_has rs c then ?S (m - 1) (map_option (\<lambda>k. k - 1) n) s else {})
          \<union> (if m = 0 then {c # s} else {})"
        using False by (auto simp: within_Suc)
      finally show "t \<in> (if cls_has rs c then ?S (m - 1) (map_option (\<lambda>k. k - 1) n) s else {})
          \<union> (if m = 0 then {c # s} else {}) \<longleftrightarrow> t \<in> ?S m n (c # s)" by blast
    qed
    finally show ?thesis .
  qed
qed

text \<open>
  The shape most validators have: one character of a class, up to \<open>n\<close> of another, \<open>$\<close>. The
  accepted texts are exactly those of that form, each also with one line feed behind it.
\<close>

definition head_tail :: "(char \<times> char) list \<Rightarrow> nat \<Rightarrow> (char \<times> char) list \<Rightarrow> string \<Rightarrow> bool" where
  "head_tail a n b s =
     (case s of [] \<Rightarrow> False | c # t \<Rightarrow> cls_has a c \<and> list_all (cls_has b) t \<and> length t \<le> n)"

lemma re_test_head_tail:
  "re_test (seqs [Cls a, up_to n (Cls b), Eos]) s \<longleftrightarrow>
     head_tail a n b s \<or> (\<exists>t. s = t @ [LF] \<and> head_tail a n b t)"
proof (cases s)
  case (Cons c t)
  have "re_test (seqs [Cls a, up_to n (Cls b), Eos]) s \<longleftrightarrow>
      cls_has a c \<and> (\<exists>p u. t = p @ u \<and> list_all (cls_has b) p \<and> length p \<le> n \<and> (u = [] \<or> u = [LF]))"
    using Cons by (auto simp: re_test_ends seqs_def ends_Seq ends_Rep_Cls)
  moreover have "(\<exists>p u. t = p @ u \<and> list_all (cls_has b) p \<and> length p \<le> n \<and> (u = [] \<or> u = [LF])) \<longleftrightarrow>
      list_all (cls_has b) t \<and> length t \<le> n \<or>
      (\<exists>p. t = p @ [LF] \<and> list_all (cls_has b) p \<and> length p \<le> n)"
    by (metis append.right_neutral)
  ultimately show ?thesis using Cons by (auto simp: head_tail_def Cons_eq_append_conv)
qed (simp add: re_test_ends seqs_def ends_Seq head_tail_def)

section \<open>Which characters, and how many, a match can consume\<close>

primrec re_char :: "re \<Rightarrow> char \<Rightarrow> bool" where
  "re_char Eps c = False"
| "re_char (Cls rs) c = cls_has rs c"
| "re_char (NCls rs) c = (\<not> cls_has rs c)"
| "re_char (Seq a b) c = (re_char a c \<or> re_char b c)"
| "re_char (Alt a b) c = (re_char a c \<or> re_char b c)"
| "re_char (Rep m n r) c = re_char r c"
| "re_char (Lazy r) c = re_char r c"
| "re_char (Grp k r) c = re_char r c"
| "re_char Eos c = False"
| "re_char (Look r) c = False"

definition eats :: "(char \<Rightarrow> bool) \<Rightarrow> string \<Rightarrow> string \<Rightarrow> bool" where
  "eats P s t \<longleftrightarrow> (\<exists>p. s = p @ t \<and> list_all P p)"

lemma eats_refl [simp]: "eats P s s"
  by (simp add: eats_def)

lemma eats_trans: "eats P s t \<Longrightarrow> eats P t u \<Longrightarrow> eats P s u"
  unfolding eats_def by (metis append.assoc list_all_append)

lemma eats_mono: "eats P s t \<Longrightarrow> (\<And>c. P c \<Longrightarrow> Q c) \<Longrightarrow> eats Q s t"
  unfolding eats_def by (metis (mono_tags, lifting) list.pred_mono_strong)

lemma ends_Rep_eats:
  assumes "\<And>s t. t \<in> ends r s \<Longrightarrow> eats P s t"
  shows "t \<in> ends (Rep m n r) s \<Longrightarrow> eats P s t"
proof (induction "length s" arbitrary: s m n rule: less_induct)
  case less
  show ?case
  proof (cases "n = Some 0")
    case True
    with less.prems show ?thesis by (auto split: if_splits)
  next
    case False
    with less show ?thesis
      by (auto simp: ends_Rep split: if_splits intro: eats_trans assms)
  qed
qed

lemma ends_Lazy_eats:
  assumes "\<And>s t. t \<in> ends r s \<Longrightarrow> eats P s t"
  shows "t \<in> ends (Lazy r) s \<Longrightarrow> eats P s t"
proof (induction "length s" arbitrary: s rule: less_induct)
  case less
  from less.prems consider "t = s" | u where "u \<in> ends r s" "length u < length s" "t \<in> ends (Lazy r) u"
    by (subst (asm) ends_Lazy) auto
  then show ?case by cases (auto intro: eats_trans assms less.hyps)
qed

lemma ends_eats: "t \<in> ends r s \<Longrightarrow> eats (re_char r) s t"
proof (induction r arbitrary: s t)
  case (Cls rs)
  then show ?case by (cases s) (auto simp: eats_def split: if_splits)
next
  case (NCls rs)
  then show ?case by (cases s) (auto simp: eats_def split: if_splits)
next
  case (Seq a b)
  from Seq.prems obtain u where "u \<in> ends a s" "t \<in> ends b u" by (auto simp: ends_Seq)
  then have "eats (re_char a) s u" "eats (re_char b) u t" by (auto intro: Seq.IH)
  then have "eats (re_char (Seq a b)) s u" "eats (re_char (Seq a b)) u t" by (auto elim: eats_mono)
  then show ?case by (rule eats_trans)
next
  case (Alt a b)
  then have "eats (re_char a) s t \<or> eats (re_char b) s t" by (auto simp: ends_Alt)
  then show ?case by (auto elim: eats_mono)
next
  case (Rep m n r)
  have "re_char (Rep m n r) = re_char r" by (rule ext) simp
  then show ?case using ends_Rep_eats [of r "re_char r"] Rep by simp
next
  case (Lazy r)
  have "re_char (Lazy r) = re_char r" by (rule ext) simp
  then show ?case using ends_Lazy_eats [of r "re_char r"] Lazy by simp
next
  case (Grp k r)
  have "re_char (Grp k r) = re_char r" by (rule ext) simp
  with Grp show ?case by simp
next
  case (Look r)
  then show ?case by (auto simp: ends_Look split: if_splits)
qed (auto split: if_splits)

text \<open>A pattern that ends in \<open>$\<close> covers the whole text, but for a line feed that ends it.\<close>

lemma re_test_chars:
  assumes "re_test (Seq r Eos) s"
  shows "list_all (re_char r) s \<or> (\<exists>t. s = t @ [LF] \<and> list_all (re_char r) t)"
proof -
  from assms obtain t where t: "t \<in> ends r s" and e: "t = [] \<or> t = [LF]"
    by (auto simp: re_test_ends ends_Seq split: if_splits)
  from ends_eats [OF t] obtain p where "s = p @ t" "list_all (re_char r) p" by (auto simp: eats_def)
  with e show ?thesis by auto
qed

section \<open>The way Python reports\<close>

text \<open>The first way of a sequence comes from the first way of its parts, if they lead to one.\<close>

definition starts :: "'a list \<Rightarrow> 'a \<Rightarrow> bool" where
  "starts xs y \<longleftrightarrow> (\<exists>ys. xs = y # ys)"

lemma starts_Cons [simp]: "starts (x # xs) y \<longleftrightarrow> x = y"
  by (auto simp: starts_def)

lemma starts_append: "starts xs y \<Longrightarrow> starts (xs @ ys) y"
  by (auto simp: starts_def)

lemma re_match_starts: "starts (re_run r (s, [])) y \<Longrightarrow> re_match r s = Some y"
  by (auto simp: starts_def re_match_def)

lemma starts_Seq: "starts (re_run a x) y \<Longrightarrow> starts (re_run b y) z \<Longrightarrow> starts (re_run (Seq a b) x) z"
  by (auto simp: starts_def)

lemma starts_Grp:
  "starts (re_run r (s, e)) (t, e') \<Longrightarrow>
   starts (re_run (Grp k r) (s, e)) (t, (k, take (length s - length t) s) # e')"
  by (auto simp: starts_def)

text \<open>A pattern for one character, and its greedy repetition: all of the characters are taken.\<close>

definition one_char :: "re \<Rightarrow> (char \<Rightarrow> bool) \<Rightarrow> bool" where
  "one_char r P \<longleftrightarrow> (\<forall>e. re_run r ([], e) = []) \<and>
     (\<forall>c t e. re_run r (c # t, e) = (if P c then [(t, e)] else []))"

lemma one_char_Cls: "one_char (Cls rs) (cls_has rs)" "one_char (NCls rs) (\<lambda>c. \<not> cls_has rs c)"
  by (auto simp: one_char_def)

lemma starts_star:
  assumes "one_char r P" and "t = [] \<or> \<not> P (hd t)"
  shows "list_all P p \<Longrightarrow> starts (re_run (star r) (p @ t, e)) (t, e)"
proof (induction p)
  case Nil
  from assms have "re_run r (t, e) = []" by (cases t) (auto simp: one_char_def)
  then show ?case by (simp add: rep_run_unfold)
next
  case (Cons c p)
  with assms have "re_run r (c # p @ t, e) = [(p @ t, e)]" by (auto simp: one_char_def)
  with Cons show ?case
    by (simp add: rep_run_unfold [of None "re_run r" 0 "(c # p @ t, e)"] starts_append)
qed

lemma starts_plus1:
  assumes "one_char r P" and "t = [] \<or> \<not> P (hd t)" and "list_all P p" and "p \<noteq> []"
  shows "starts (re_run (plus1 r) (p @ t, e)) (t, e)"
proof -
  obtain c q where p: "p = c # q" using assms(4) by (cases p) auto
  with assms(1,3) have "re_run r (c # q @ t, e) = [(q @ t, e)]" by (auto simp: one_char_def)
  moreover have "starts (rep_run (re_run r) 0 None (q @ t, e)) (t, e)"
    using starts_star [OF assms(1,2), of q e] assms(3) p by simp
  ultimately show ?thesis
    using p by (simp add: rep_run_unfold [of None "re_run r" "Suc 0" "(c # q @ t, e)"])
qed

lemma starts_opt:
  assumes "starts (re_run r x) y" and "length (fst y) < length (fst x)"
  shows "starts (re_run (opt r) x) y"
  using assms by (auto simp: starts_def rep_run_unfold rep_run_0)

lemma opt_none: "re_run r x = [] \<Longrightarrow> re_run (opt r) x = [x]"
  by (simp add: rep_run_unfold)

lemma ends_lit: "ends (lit c) s = {t. s = c # t}"
  by (cases s) (auto simp: lit_def cls_has_def in_range_def)

lemma ends_lits: "ends (lits w) s = {t. s = w @ t}"
  by (induction w arbitrary: s) (auto simp: lits_def ends_Seq ends_lit)

lemma ends_opt: "ends (opt r) s = {t \<in> ends r s. length t < length s} \<union> {s}"
  by (auto simp: ends_Rep)

text \<open>The same facts as membership, for proofs that take a pattern apart.\<close>

lemma re_test_ex: "re_test r s \<longleftrightarrow> (\<exists>t. t \<in> ends r s)"
  by (auto simp: re_test_ends)

lemma in_Seq: "t \<in> ends (Seq a b) s \<longleftrightarrow> (\<exists>u. u \<in> ends a s \<and> t \<in> ends b u)"
  by (auto simp: ends_Seq)

lemma in_lits: "t \<in> ends (lits w) s \<longleftrightarrow> s = w @ t"
  by (simp add: ends_lits)

lemma in_Eos: "t \<in> ends Eos s \<longleftrightarrow> t = s \<and> (t = [] \<or> t = [LF])"
  by auto

lemma in_Eps: "t \<in> ends Eps s \<longleftrightarrow> t = s"
  by simp

lemma in_Alt: "t \<in> ends (Alt a b) s \<longleftrightarrow> t \<in> ends a s \<or> t \<in> ends b s"
  by (simp add: ends_Alt)

lemmas in_ends = in_Seq in_lits in_Eos in_Eps in_Alt

lemma starts_lits: "re_run (lits w) (w @ t, e) = [(t, e)]"
  by (induction w) (auto simp: lits_def lit_def cls_has_def in_range_def)

end
