(* ===== verification/Ipaddress.thy ===== *)
theory Ipaddress
  imports Prelude
begin

unbundle bit_operations_syntax

text \<open>
  The part of Python's \<open>ipaddress\<close> module that \<open>models.py\<close> uses to check \<open>client_subnets\<close>:
  \<open>ip_network(cidr, strict=False)\<close>, for IPv4 and IPv6, and \<open>overlaps\<close>. Addresses are Python
  integers. A scope id behind a percent sign is accepted by IPv6 as in the module, whatever its
  characters. The lemmas say that \<open>overlaps\<close> decides whether two networks share an address.
\<close>

datatype ipver = V4 | V6

record ipnet =
  ip_ver :: ipver
  ip_net :: int
  ip_plen :: nat

primrec ip_bits :: "ipver \<Rightarrow> nat" where
  "ip_bits V4 = 32"
| "ip_bits V6 = 128"

section \<open>Parsing addresses\<close>

definition ascii_digits :: "string \<Rightarrow> bool" where
  "ascii_digits s = (s \<noteq> [] \<and> list_all is_digit s)"

definition parse_octet :: "string \<Rightarrow> int option" where
  "parse_octet s =
     (if \<not> ascii_digits s then None
      else if length s > 3 then None
      else if s \<noteq> ''0'' \<and> hd s = CHR ''0'' then None
      else if digits_val s > 255 then None else Some (digits_val s))"

fun all_some :: "'a option list \<Rightarrow> 'a list option" where
  "all_some [] = Some []"
| "all_some (None # xs) = None"
| "all_some (Some x # xs) = map_option ((#) x) (all_some xs)"

definition v4_int :: "string \<Rightarrow> int option" where
  "v4_int s =
     (let octets = split_on CHR ''.'' s in
      if s = [] \<or> length octets \<noteq> 4 then None
      else map_option (foldl (\<lambda>acc o1. acc * 256 + o1) 0) (all_some (map parse_octet octets)))"

definition is_hex :: "char \<Rightarrow> bool" where
  "is_hex c = (is_digit c \<or> in_range c (CHR ''a'', CHR ''f'') \<or> in_range c (CHR ''A'', CHR ''F''))"

definition hex_val :: "char \<Rightarrow> int" where
  "hex_val c =
     (if is_digit c then of_char c - 48
      else if in_range c (CHR ''a'', CHR ''f'') then of_char c - 87 else of_char c - 55)"

definition parse_hextet :: "string \<Rightarrow> int option" where
  "parse_hextet s =
     (if s = [] \<or> \<not> list_all is_hex s \<or> length s > 4 then None
      else Some (foldl (\<lambda>acc c. acc * 16 + hex_val c) 0 s))"

definition hex_char :: "int \<Rightarrow> char" where
  "hex_char d = char_of (if d < 10 then 48 + d else 87 + d)"

function hex_str :: "int \<Rightarrow> string" where
  "hex_str n = (if n < 16 then [hex_char n] else hex_str (n div 16) @ [hex_char (n mod 16)])"
  by pat_completeness auto
termination
  by (relation "measure nat") auto

declare hex_str.simps [simp del]

text \<open>The parts between colons; an IPv4 suffix becomes two hexadecimal parts.\<close>

definition v6_parts :: "string \<Rightarrow> string list option" where
  "v6_parts s =
     (let parts = split_on CHR '':'' s in
      if s = [] \<or> length parts < 3 then None
      else if CHR ''.'' \<in> set (last parts) then
        (case v4_int (last parts) of
           None \<Rightarrow> None
         | Some a \<Rightarrow> Some (butlast parts @ [hex_str (a div 65536), hex_str (a mod 65536)]))
      else Some parts)"

text \<open>How many parts stand before and after the \<open>::\<close>, and how many zeros it stands for.\<close>

definition v6_layout :: "string list \<Rightarrow> (nat \<times> nat \<times> nat) option" where
  "v6_layout parts =
     (let n = length parts;
          skips = filter (\<lambda>i. parts ! i = []) [1..<n - 1]
      in if n > 9 then None
         else (case skips of
             [] \<Rightarrow> (if n \<noteq> 8 \<or> hd parts = [] \<or> last parts = [] then None else Some (n, 0, 0))
           | [k] \<Rightarrow>
               (let hi = (if hd parts = [] then k - 1 else k);
                    lo = (if last parts = [] then n - k - 2 else n - k - 1)
                in if hd parts = [] \<and> hi \<noteq> 0 then None
                   else if last parts = [] \<and> lo \<noteq> 0 then None
                   else if hi + lo > 7 then None else Some (hi, lo, 8 - (hi + lo)))
           | _ \<Rightarrow> None))"

definition v6_int :: "string \<Rightarrow> int option" where
  "v6_int s =
     (case v6_parts s of
        None \<Rightarrow> None
      | Some parts \<Rightarrow>
          (case v6_layout parts of
             None \<Rightarrow> None
           | Some (hi, lo, skipped) \<Rightarrow>
               (case (all_some (map parse_hextet (take hi parts)),
                      all_some (map parse_hextet (drop (length parts - lo) parts))) of
                  (Some h, Some l) \<Rightarrow>
                    Some (foldl (\<lambda>acc x. acc * 65536 + x)
                            (foldl (\<lambda>acc x. acc * 65536 + x) 0 h * 65536 ^ skipped) l)
                | _ \<Rightarrow> None)))"

text \<open>\<open>_split_scope_id\<close>: a scope id is any non-empty text without a second percent sign.\<close>

definition v6_addr :: "string \<Rightarrow> int option" where
  "v6_addr s =
     (case partition_on CHR ''%'' s of
        (a, None) \<Rightarrow> v6_int a
      | (a, Some scope) \<Rightarrow> if scope = [] \<or> CHR ''%'' \<in> set scope then None else v6_int a)"

section \<open>Prefix lengths and netmasks\<close>

definition all_ones :: "ipver \<Rightarrow> int" where
  "all_ones v = 2 ^ ip_bits v - 1"

definition ip_int_from_prefix :: "ipver \<Rightarrow> nat \<Rightarrow> int" where
  "ip_int_from_prefix v p = all_ones v XOR drop_bit p (all_ones v)"

definition prefix_from_prefix_string :: "ipver \<Rightarrow> string \<Rightarrow> nat option" where
  "prefix_from_prefix_string v s =
     (if \<not> ascii_digits s \<or> digits_val s > int (ip_bits v) then None
      else Some (nat (digits_val s)))"

primrec count_righthand_zero_bits :: "nat \<Rightarrow> int \<Rightarrow> nat" where
  "count_righthand_zero_bits 0 n = 0"
| "count_righthand_zero_bits (Suc b) n =
     (if odd n then 0 else Suc (count_righthand_zero_bits b (n div 2)))"

definition prefix_from_ip_int :: "ipver \<Rightarrow> int \<Rightarrow> nat option" where
  "prefix_from_ip_int v n =
     (let z = count_righthand_zero_bits (ip_bits v) n; p = ip_bits v - z
      in if drop_bit z n = 2 ^ p - 1 then Some p else None)"

definition prefix_from_ip_string :: "string \<Rightarrow> nat option" where
  "prefix_from_ip_string s =
     (case v4_int s of
        None \<Rightarrow> None
      | Some n \<Rightarrow> (case prefix_from_ip_int V4 n of
          Some p \<Rightarrow> Some p | None \<Rightarrow> prefix_from_ip_int V4 (n XOR all_ones V4)))"

definition make_netmask :: "ipver \<Rightarrow> string option \<Rightarrow> nat option" where
  "make_netmask v arg =
     (case arg of
        None \<Rightarrow> Some (ip_bits v)
      | Some s \<Rightarrow> (case prefix_from_prefix_string v s of
          Some p \<Rightarrow> Some p
        | None \<Rightarrow> (if v = V4 then prefix_from_ip_string s else None)))"

section \<open>Networks\<close>

definition netmask :: "ipnet \<Rightarrow> int" where
  "netmask n = ip_int_from_prefix (ip_ver n) (ip_plen n)"

definition split_addr_prefix :: "string \<Rightarrow> (string \<times> string option) option" where
  "split_addr_prefix s =
     (case split_on CHR ''/'' s of
        [a] \<Rightarrow> Some (a, None) | [a, m] \<Rightarrow> Some (a, Some m) | _ \<Rightarrow> None)"

definition ip_network_of :: "ipver \<Rightarrow> string \<Rightarrow> ipnet option" where
  "ip_network_of v s =
     (case split_addr_prefix s of
        None \<Rightarrow> None
      | Some (a, m) \<Rightarrow>
          (case (if v = V4 then v4_int a else v6_addr a) of
             None \<Rightarrow> None
           | Some n \<Rightarrow>
               (case make_netmask v m of
                  None \<Rightarrow> None
                | Some p \<Rightarrow> Some \<lparr>ip_ver = v, ip_net = n AND ip_int_from_prefix v p, ip_plen = p\<rparr>)))"

definition ip_network :: "string \<Rightarrow> ipnet option" where
  "ip_network s = (case ip_network_of V4 s of Some n \<Rightarrow> Some n | None \<Rightarrow> ip_network_of V6 s)"

definition broadcast :: "ipnet \<Rightarrow> int" where
  "broadcast n = ip_net n OR (netmask n XOR all_ones (ip_ver n))"

definition net_has :: "ipnet \<Rightarrow> int \<Rightarrow> bool" where
  "net_has n a = (a AND netmask n = ip_net n)"

definition overlaps :: "ipnet \<Rightarrow> ipnet \<Rightarrow> bool" where
  "overlaps m n = (ip_ver m = ip_ver n \<and>
     (net_has n (ip_net m) \<or> net_has n (broadcast m) \<or> net_has m (ip_net n) \<or> net_has m (broadcast n)))"

lemma ip_network_examples:
  "ip_network ''10.0.0.0/16'' = Some \<lparr>ip_ver = V4, ip_net = 167772160, ip_plen = 16\<rparr>"
  "ip_network ''10.0.0.5/0.0.255.255'' = Some \<lparr>ip_ver = V4, ip_net = 167772160, ip_plen = 16\<rparr>"
  "ip_network ''010.0.0.0/8'' = None"
  "ip_network ''::ffff:127.0.0.1/128'' = Some \<lparr>ip_ver = V6, ip_net = 281472812449793, ip_plen = 128\<rparr>"
  "ip_network ''fe80::%x/64'' = Some \<lparr>ip_ver = V6, ip_net = 338288524927261089654018896841347694592, ip_plen = 64\<rparr>"
  "ip_network ''1::2::3'' = None"
  "ip_network '':1::2'' = None"
  by code_simp+

section \<open>What overlaps decides\<close>

lemma bit_prefix_mask [simp]:
  "bit (ip_int_from_prefix v p) k \<longleftrightarrow> k < ip_bits v \<and> ip_bits v \<le> p + k"
  unfolding ip_int_from_prefix_def all_ones_def mask_eq_exp_minus_1 [symmetric]
  by (auto simp: bit_simps)

text \<open>The networks the module builds: the host bits of the network address are cleared.\<close>

definition net_ok :: "ipnet \<Rightarrow> bool" where
  "net_ok n \<longleftrightarrow> ip_net n AND netmask n = ip_net n"

lemma ip_network_of_ok: "ip_network_of v s = Some n \<Longrightarrow> net_ok n \<and> ip_ver n = v"
  by (auto simp: ip_network_of_def net_ok_def netmask_def ac_simps split: option.splits)

lemma ip_network_ok: "ip_network s = Some n \<Longrightarrow> net_ok n"
  by (auto simp: ip_network_def dest: ip_network_of_ok split: option.splits)

lemma net_has_net: "net_ok n \<Longrightarrow> net_has n (ip_net n)"
  by (simp add: net_ok_def net_has_def)

lemma net_has_broadcast:
  assumes "net_ok n"
  shows "net_has n (broadcast n)"
proof -
  have "(netmask n XOR all_ones (ip_ver n)) AND netmask n = 0"
    unfolding netmask_def ip_int_from_prefix_def all_ones_def mask_eq_exp_minus_1 [symmetric]
    by (rule bit_eqI) (auto simp: bit_simps)
  then show ?thesis
    using assms by (simp add: net_has_def broadcast_def net_ok_def bit.conj_disj_distrib2)
qed

lemma netmask_le:
  assumes "ip_ver m = ip_ver n" and "ip_plen m \<le> ip_plen n"
  shows "netmask n AND netmask m = netmask m"
  using assms unfolding netmask_def by (intro bit_eqI) (auto simp: bit_simps)

lemma net_has_nested:
  assumes "ip_ver m = ip_ver n" and "ip_plen m \<le> ip_plen n" and "net_has m a" and "net_has n a"
  shows "net_has m (ip_net n)"
proof -
  have "ip_net n AND netmask m = a AND (netmask n AND netmask m)"
    using assms(4) unfolding net_has_def by (simp flip: and.assoc)
  also have "\<dots> = ip_net m" using assms by (simp add: netmask_le net_has_def)
  finally show ?thesis by (simp add: net_has_def)
qed

lemma overlaps_iff:
  assumes "net_ok m" and "net_ok n" and "ip_ver m = ip_ver n"
  shows "overlaps m n \<longleftrightarrow> (\<exists>a. net_has m a \<and> net_has n a)"
proof
  assume "overlaps m n"
  then show "\<exists>a. net_has m a \<and> net_has n a"
    using assms(1,2) unfolding overlaps_def by (blast intro: net_has_net net_has_broadcast)
next
  assume "\<exists>a. net_has m a \<and> net_has n a"
  then obtain a where a: "net_has m a" "net_has n a" by blast
  show "overlaps m n"
  proof (cases "ip_plen m \<le> ip_plen n")
    case True
    then have "net_has m (ip_net n)" using assms(3) a by (intro net_has_nested)
    then show ?thesis using assms(3) by (simp add: overlaps_def)
  next
    case False
    then have "net_has n (ip_net m)" using assms(3) a by (intro net_has_nested) auto
    then show ?thesis using assms(3) by (simp add: overlaps_def)
  qed
qed

text \<open>For an address of the version, membership is: the same leading bits.\<close>

lemma and_prefix:
  assumes "0 \<le> a" and "a < 2 ^ ip_bits v" and "p \<le> ip_bits v"
  shows "a AND ip_int_from_prefix v p = (a div 2 ^ (ip_bits v - p)) * 2 ^ (ip_bits v - p)"
proof -
  have t: "take_bit (ip_bits v) a = a" using assms(1,2) by (simp add: take_bit_int_eq_self)
  have "a AND ip_int_from_prefix v p = push_bit (ip_bits v - p) (drop_bit (ip_bits v - p) a)"
  proof (rule bit_eqI)
    fix k
    have "bit a k \<Longrightarrow> k < ip_bits v" using t by (metis bit_take_bit_iff)
    then show "bit (a AND ip_int_from_prefix v p) k \<longleftrightarrow>
        bit (push_bit (ip_bits v - p) (drop_bit (ip_bits v - p) a)) k"
      using assms(3) by (auto simp: bit_simps)
  qed
  then show ?thesis by (simp add: push_bit_eq_mult drop_bit_eq_div)
qed

end
