(* ===== verification/Models.thy ===== *)
theory Models
  imports PyRe Ipaddress
begin

text \<open>
  \<open>controlplane/lmnradius/models.py\<close>: the patterns, the data, and the validators of the API
  boundary. A pydantic model is a record; a validator is a function that returns \<open>None\<close> where the
  code raises \<open>ValueError\<close> (the message is not modelled); a model's \<open>_errors\<close> function lists the
  fields whose validator failed, in field order, so a record is valid when the list is empty.
  Pydantic's own type coercion is not modelled: fields have their declared type.
\<close>

section \<open>Patterns\<close>

definition alnum :: "(char \<times> char) list" where
  "alnum = [(CHR ''a'', CHR ''z''), (CHR ''A'', CHR ''Z''), (CHR ''0'', CHR ''9'')]"

definition upnum :: "(char \<times> char) list" where
  "upnum = [(CHR ''A'', CHR ''Z''), (CHR ''0'', CHR ''9'')]"

definition plus_chars :: "(char \<times> char) list \<Rightarrow> string \<Rightarrow> (char \<times> char) list" where
  "plus_chars rs s = rs @ map (\<lambda>c. (c, c)) s"

definition name_re :: re where
  "name_re = seqs [Cls alnum, up_to 30 (Cls (plus_chars alnum ''-'')), Eos]"

definition realm_re :: re where
  "realm_re = seqs [Cls upnum, up_to 254 (Cls (plus_chars upnum ''.-'')), Eos]"

definition workgroup_re :: re where
  "workgroup_re = seqs [Cls upnum, up_to 20 (Cls (plus_chars upnum ''-'')), Eos]"

text \<open>A host name: a label, then any number of labels behind a dot.\<close>

definition label_re :: re where
  "label_re = Seq (Cls alnum) (Grp 1 (up_to 62 (Cls (plus_chars alnum ''-''))))"

definition hostname_re :: re where
  "hostname_re = Seq label_re (star (Grp 2 (Seq (lit CHR ''.'') label_re)))"

definition host_re :: re where
  "host_re =
     seqs [Look (Seq (Rep 1 (Some 253) (NCls [(LF, LF)])) Eos), hostname_re, Eos]"

definition group_re :: re where
  "group_re = seqs [Cls alnum, up_to 63 (Cls (plus_chars alnum ''._ -'')), Eos]"

definition dn_re :: re where
  "dn_re = seqs [Cls alnum, up_to 254 (Cls (plus_chars alnum ''=,._ /-'')), Eos]"

definition digit_cls :: "(char \<times> char) list" where
  "digit_cls = [(CHR ''0'', CHR ''9'')]"

definition port_re :: re where
  "port_re = opt (Grp 3 (Seq (lit CHR '':'') (plus1 (Cls digit_cls))))"

definition ldap_uri_re :: re where
  "ldap_uri_re = seqs [lits ''ldap'', opt (lit CHR ''s''), lits ''://'', hostname_re, port_re, Eos]"

definition secret_re :: re where
  "secret_re = seqs [Cls alnum, up_to 62 (Cls (plus_chars alnum ''._-'')), Eos]"

definition ssid_re :: re where
  "ssid_re = seqs [Cls alnum, up_to 31 (Cls (plus_chars alnum ''._ -'')), Eos]"

definition lownum :: "(char \<times> char) list" where
  "lownum = [(CHR ''a'', CHR ''z''), (CHR ''0'', CHR ''9'')]"

definition hex_cls :: "(char \<times> char) list" where
  "hex_cls = [(CHR ''a'', CHR ''f''), (CHR ''0'', CHR ''9'')]"

definition image_re :: re where
  "image_re =
     seqs [Cls lownum, star (Cls (plus_chars lownum ''._/:-'')),
           Alt (seqs [lit CHR '':'', Cls alnum, up_to 127 (Cls (plus_chars alnum ''._-''))])
               (seqs [lits ''@sha256:'', Rep 64 (Some 64) (Cls hex_cls)]),
           Eos]"

definition test_user_re :: re where
  "test_user_re = seqs [Cls alnum, up_to 63 (Cls (plus_chars alnum ''._-'')), Eos]"

section \<open>LDAP URIs\<close>

text \<open>A letter under \<open>re.IGNORECASE\<close>.\<close>

definition lit_ic :: "char \<Rightarrow> re" where
  "lit_ic c = Cls (map (\<lambda>d. (d, d)) (c # upper_char c))"

definition lits_ic :: "string \<Rightarrow> re" where
  "lits_ic s = foldr (\<lambda>c r. Seq (lit_ic c) r) s Eps"

definition ldap_url_re :: re where
  "ldap_url_re =
     seqs [Grp 1 (Seq (lits_ic ''ldap'') (opt (lit_ic CHR ''s''))), lits ''://'',
           Grp 2 (plus1 (NCls [(CHR ''/'', CHR ''/''), (CHR '':'', CHR '':'')])),
           opt (Seq (lit CHR '':'') (Grp 3 (plus1 (Cls digit_cls)))), Eos]"

definition ldap_url_parts :: "string \<Rightarrow> (string \<times> string \<times> int) option" where
  "ldap_url_parts url =
     (case re_match ldap_url_re (strip url) of
        None \<Rightarrow> None
      | Some m \<Rightarrow>
          (let scheme = lower (case group_of 1 m of Some s \<Rightarrow> s | None \<Rightarrow> []);
               port = (case group_of 3 m of
                   Some p \<Rightarrow> digits_val p
                 | None \<Rightarrow> if scheme = ''ldaps'' then 636 else 389)
           in Some (scheme, case group_of 2 m of Some h \<Rightarrow> h | None \<Rightarrow> [], port)))"

definition is_ldaps :: "string \<Rightarrow> bool" where
  "is_ldaps url = prefix ''ldaps://'' (lower (strip url))"

definition DEFAULT_IMAGE :: string where
  "DEFAULT_IMAGE = ''ghcr.io/faircomp/linuxmuster-radius@sha256:7385d3a64c3d98afa33577473c6b065f2a6a2ef88fa7ff70117ab6262118a77a''"

definition LDAP_CA_FILE :: string where
  "LDAP_CA_FILE = ''ldap-ca.pem''"

section \<open>Data\<close>

record ssid =
  s_name :: string
  s_allowed_group :: string
  s_vlan :: "int option"

record inst =
  i_name :: string
  i_realm :: string
  i_workgroup :: string
  i_server_fqdn :: string
  i_ldap_server :: string
  i_ldap_base_dn :: string
  i_ldap_bind_dn :: string
  i_wifi_group :: string
  i_client_subnets :: "string list"
  i_ssids :: "ssid list"
  i_join_secret :: string
  i_ldap_bind_secret :: string
  i_radius_secret :: string
  i_image :: string
  i_ldap_ca :: "string option"

section \<open>Validators\<close>

definition check :: "bool \<Rightarrow> 'a \<Rightarrow> 'a option" where
  "check b v = (if b then Some v else None)"

definition v_ssid_name :: "string \<Rightarrow> string option" where
  "v_ssid_name v = check (re_test ssid_re v) v"

definition v_group :: "string \<Rightarrow> string option" where
  "v_group v = check (re_test group_re v) v"

definition v_vlan :: "int option \<Rightarrow> int option option" where
  "v_vlan v = check (case v of None \<Rightarrow> True | Some n \<Rightarrow> 1 \<le> n \<and> n \<le> 4094) v"

definition v_name :: "string \<Rightarrow> string option" where
  "v_name v = check (re_test name_re v) v"

definition v_realm :: "string \<Rightarrow> string option" where
  "v_realm v = check (re_test realm_re v) v"

definition v_workgroup :: "string \<Rightarrow> string option" where
  "v_workgroup v = check (re_test workgroup_re v) v"

definition v_server_fqdn :: "string \<Rightarrow> string option" where
  "v_server_fqdn v = check (re_test host_re v) v"

definition v_ldap_server :: "string \<Rightarrow> string option" where
  "v_ldap_server v = check (re_test ldap_uri_re v) v"

definition v_dn :: "string \<Rightarrow> string option" where
  "v_dn v = check (re_test dn_re v) v"

definition loopback_v4 :: ipnet where
  "loopback_v4 = \<lparr>ip_ver = V4, ip_net = 2130706432, ip_plen = 8\<rparr>"

definition loopback_v6 :: ipnet where
  "loopback_v6 = \<lparr>ip_ver = V6, ip_net = 1, ip_plen = 128\<rparr>"

definition cidr_ok :: "string \<Rightarrow> bool" where
  "cidr_ok cidr =
     (case ip_network cidr of
        None \<Rightarrow> False
      | Some net \<Rightarrow> \<not> overlaps net (if ip_ver net = V4 then loopback_v4 else loopback_v6))"

definition v_client_subnets :: "string list \<Rightarrow> string list option" where
  "v_client_subnets v = check (v \<noteq> [] \<and> list_all cidr_ok v) v"

definition v_ssids :: "ssid list \<Rightarrow> ssid list option" where
  "v_ssids v = check (v \<noteq> []) v"

definition v_secret :: "string \<Rightarrow> string option" where
  "v_secret v = check (\<not> (sublist ''..'' v \<or> \<not> re_test secret_re v)) v"

definition v_image :: "string \<Rightarrow> string option" where
  "v_image v = check (re_test image_re v) v"

definition v_ldap_ca :: "string option \<Rightarrow> string option option" where
  "v_ldap_ca v = check (case v of None \<Rightarrow> True | Some f \<Rightarrow> \<not> (sublist ''..'' f \<or> \<not> re_test secret_re f)) v"

text \<open>The fields of a model whose validator failed.\<close>

definition failed :: "string \<Rightarrow> 'a option \<Rightarrow> string list" where
  "failed field r = (case r of None \<Rightarrow> [field] | Some _ \<Rightarrow> [])"

definition ssid_errors :: "ssid \<Rightarrow> string list" where
  "ssid_errors s =
     failed ''name'' (v_ssid_name (s_name s)) @
     failed ''allowed_group'' (v_group (s_allowed_group s)) @
     failed ''vlan'' (v_vlan (s_vlan s))"

definition inst_errors :: "inst \<Rightarrow> string list" where
  "inst_errors i =
     failed ''name'' (v_name (i_name i)) @
     failed ''realm'' (v_realm (i_realm i)) @
     failed ''workgroup'' (v_workgroup (i_workgroup i)) @
     failed ''server_fqdn'' (v_server_fqdn (i_server_fqdn i)) @
     failed ''ldap_server'' (v_ldap_server (i_ldap_server i)) @
     failed ''ldap_base_dn'' (v_dn (i_ldap_base_dn i)) @
     failed ''ldap_bind_dn'' (v_dn (i_ldap_bind_dn i)) @
     failed ''wifi_group'' (v_group (i_wifi_group i)) @
     failed ''client_subnets'' (v_client_subnets (i_client_subnets i)) @
     (if list_all (\<lambda>s. ssid_errors s = []) (i_ssids i)
      then failed ''ssids'' (v_ssids (i_ssids i)) else [''ssids'']) @
     failed ''join_secret'' (v_secret (i_join_secret i)) @
     failed ''ldap_bind_secret'' (v_secret (i_ldap_bind_secret i)) @
     failed ''radius_secret'' (v_secret (i_radius_secret i)) @
     failed ''image'' (v_image (i_image i)) @
     failed ''ldap_ca'' (v_ldap_ca (i_ldap_ca i))"

definition model_validate :: "inst \<Rightarrow> string list + inst" where
  "model_validate i = (if inst_errors i = [] then Inr i else Inl (inst_errors i))"

definition container_name :: "inst \<Rightarrow> string" where
  "container_name i = ''lmnradius-'' @ i_name i"

section \<open>Request bodies\<close>

text \<open>
  A PATCH body. \<open>None\<close> is a field left out (\<open>exclude_unset\<close>), \<open>Some None\<close> an explicit null.
\<close>

record inst_patch =
  p_realm :: "string option option"
  p_workgroup :: "string option option"
  p_server_fqdn :: "string option option"
  p_ldap_server :: "string option option"
  p_ldap_base_dn :: "string option option"
  p_ldap_bind_dn :: "string option option"
  p_wifi_group :: "string option option"
  p_client_subnets :: "string list option option"
  p_ssids :: "ssid list option option"
  p_join_secret :: "string option option"
  p_ldap_bind_secret :: "string option option"
  p_radius_secret :: "string option option"
  p_image :: "string option option"
  p_ldap_ca :: "string option option"

definition PEM_MAX_LEN :: nat where
  "PEM_MAX_LEN = 64 * 1024"

definition v_pem :: "string \<Rightarrow> string option" where
  "v_pem v = check (0 < length v \<and> length v \<le> PEM_MAX_LEN) v"

definition v_ldap_ca_pem :: "string option \<Rightarrow> string option option" where
  "v_ldap_ca_pem v = (case v of None \<Rightarrow> Some None | Some t \<Rightarrow> map_option Some (v_pem t))"

record inst_create =
  c_inst :: inst
  c_ldap_ca_pem :: "string option"

definition create_errors :: "inst_create \<Rightarrow> string list" where
  "create_errors b = inst_errors (c_inst b) @ failed ''ldap_ca_pem'' (v_ldap_ca_pem (c_ldap_ca_pem b))"

definition v_passphrase :: "string \<Rightarrow> string option" where
  "v_passphrase v = check (v \<noteq> []) v"

record ca_init_request =
  ci_passphrase :: string
  ci_common_name :: string
  ci_validity_days :: int

definition ca_init_errors :: "ca_init_request \<Rightarrow> string list" where
  "ca_init_errors b =
     failed ''passphrase'' (v_passphrase (ci_passphrase b)) @
     failed ''validity_days'' (check (1 \<le> ci_validity_days b \<and> ci_validity_days b \<le> 7305) b)"

record cert_issue_request =
  ce_passphrase :: string
  ce_fqdn :: "string option"
  ce_validity_days :: int

definition v_fqdn :: "string option \<Rightarrow> string option option" where
  "v_fqdn v = check (case v of None \<Rightarrow> True | Some f \<Rightarrow> re_test host_re f) v"

definition cert_issue_errors :: "cert_issue_request \<Rightarrow> string list" where
  "cert_issue_errors b =
     failed ''passphrase'' (v_passphrase (ce_passphrase b)) @
     failed ''fqdn'' (v_fqdn (ce_fqdn b)) @
     failed ''validity_days'' (check (1 \<le> ce_validity_days b \<and> ce_validity_days b \<le> 3653) b)"

record test_request =
  t_user :: "string option"
  t_password :: "string option"

definition v_user :: "string option \<Rightarrow> string option option" where
  "v_user v = check (case v of None \<Rightarrow> True | Some u \<Rightarrow> re_test test_user_re u) v"

text \<open>The model validator runs after the field validators, if they passed.\<close>

definition test_request_errors :: "test_request \<Rightarrow> string list" where
  "test_request_errors b =
     (if v_user (t_user b) = None then [''user'']
      else if t_user b \<noteq> None \<and> (t_password b = None \<or> t_password b = Some []) then [''(model)'']
      else [])"

section \<open>What validation gives\<close>

lemma check_iff [simp]: "check b v = None \<longleftrightarrow> \<not> b" "check b v = Some w \<longleftrightarrow> b \<and> w = v"
  by (auto simp: check_def)

lemma failed_Nil [simp]: "failed f r = [] \<longleftrightarrow> r \<noteq> None"
  by (cases r) (auto simp: failed_def)

lemmas validator_defs = v_ssid_name_def v_group_def v_vlan_def v_name_def v_realm_def v_workgroup_def
  v_server_fqdn_def v_ldap_server_def v_dn_def v_client_subnets_def v_ssids_def v_secret_def
  v_image_def v_ldap_ca_def

lemma ssid_valid_iff:
  "ssid_errors s = [] \<longleftrightarrow>
     re_test ssid_re (s_name s) \<and> re_test group_re (s_allowed_group s) \<and>
     (\<forall>n. s_vlan s = Some n \<longrightarrow> 1 \<le> n \<and> n \<le> 4094)"
  by (auto simp: ssid_errors_def validator_defs split: option.splits)

definition secret_ok :: "string \<Rightarrow> bool" where
  "secret_ok v \<longleftrightarrow> \<not> sublist ''..'' v \<and> re_test secret_re v"

lemma inst_valid_iff:
  "inst_errors i = [] \<longleftrightarrow>
     re_test name_re (i_name i) \<and> re_test realm_re (i_realm i) \<and> re_test workgroup_re (i_workgroup i) \<and>
     re_test host_re (i_server_fqdn i) \<and> re_test ldap_uri_re (i_ldap_server i) \<and>
     re_test dn_re (i_ldap_base_dn i) \<and> re_test dn_re (i_ldap_bind_dn i) \<and>
     re_test group_re (i_wifi_group i) \<and>
     i_client_subnets i \<noteq> [] \<and> list_all cidr_ok (i_client_subnets i) \<and>
     i_ssids i \<noteq> [] \<and> list_all (\<lambda>s. ssid_errors s = []) (i_ssids i) \<and>
     secret_ok (i_join_secret i) \<and> secret_ok (i_ldap_bind_secret i) \<and> secret_ok (i_radius_secret i) \<and>
     re_test image_re (i_image i) \<and> (\<forall>f. i_ldap_ca i = Some f \<longrightarrow> secret_ok f)"
  by (auto simp: inst_errors_def validator_defs secret_ok_def split: option.splits)

lemma head_tail_iff:
  "head_tail a n b s \<longleftrightarrow>
     (\<exists>c t. s = c # t \<and> cls_has a c \<and> list_all (cls_has b) t \<and> length t \<le> n)"
  by (cases s) (auto simp: head_tail_def)

lemma head_tail_notin:
  assumes "re_test (seqs [Cls a, up_to n (Cls b), Eos]) s"
    and "\<not> cls_has a x" and "\<not> cls_has b x" and "x \<noteq> LF"
  shows "x \<notin> set s"
  using assms by (auto simp: re_test_head_tail head_tail_iff list_all_iff)

lemma sublist_in: "sublist [x, x] s \<Longrightarrow> x \<in> set s"
  by (auto simp: sublist_def)

lemma name_no_sep: "re_test name_re s \<Longrightarrow> CHR ''/'' \<notin> set s \<and> CHR ''.'' \<notin> set s \<and> CHR 0x5C \<notin> set s"
  unfolding name_re_def
  by (intro conjI; erule head_tail_notin)
    (simp_all add: cls_has_def alnum_def plus_chars_def in_range_def)

lemma name_ne: "re_test name_re s \<Longrightarrow> s \<noteq> []"
  by (auto simp: name_re_def re_test_head_tail head_tail_def)

lemma secret_no_slash: "re_test secret_re s \<Longrightarrow> CHR ''/'' \<notin> set s"
  unfolding secret_re_def
  by (erule head_tail_notin) (simp_all add: cls_has_def alnum_def plus_chars_def in_range_def)

lemma secret_hd: "re_test secret_re s \<Longrightarrow> s \<noteq> [] \<and> hd s \<noteq> CHR ''.''"
  by (auto simp: secret_re_def re_test_head_tail head_tail_iff cls_has_def alnum_def in_range_def)

lemma ssid_no_quote: "re_test ssid_re s \<Longrightarrow> CHR 0x22 \<notin> set s \<and> CHR 0x5C \<notin> set s"
  unfolding ssid_re_def
  by (intro conjI; erule head_tail_notin)
    (simp_all add: cls_has_def alnum_def plus_chars_def in_range_def)

lemma group_no_quote: "re_test group_re s \<Longrightarrow> CHR 0x22 \<notin> set s \<and> CHR 0x5C \<notin> set s"
  unfolding group_re_def
  by (intro conjI; erule head_tail_notin)
    (simp_all add: cls_has_def alnum_def plus_chars_def in_range_def)

section \<open>The sample instance\<close>

text \<open>The example of \<open>docs/operations.md\<close>, for the witnesses.\<close>

definition sample_inst :: inst where
  "sample_inst = \<lparr>i_name = ''default-school'', i_realm = ''LINUXMUSTER.LAN'', i_workgroup = ''LINUXMUSTER'',
     i_server_fqdn = ''radius.linuxmuster.lan'', i_ldap_server = ''ldaps://dc.linuxmuster.lan'',
     i_ldap_base_dn = ''DC=linuxmuster,DC=lan'',
     i_ldap_bind_dn = ''CN=global-binduser,OU=Management,OU=GLOBAL,DC=linuxmuster,DC=lan'',
     i_wifi_group = ''wifi'', i_client_subnets = [''10.0.0.0/16''],
     i_ssids = [\<lparr>s_name = ''lehrer'', s_allowed_group = ''teachers'', s_vlan = Some 20\<rparr>,
                \<lparr>s_name = ''schueler'', s_allowed_group = ''students'', s_vlan = Some 10\<rparr>],
     i_join_secret = ''join.authfile'', i_ldap_bind_secret = ''ldap-bind.secret'',
     i_radius_secret = ''radius.secret'', i_image = DEFAULT_IMAGE, i_ldap_ca = Some ''ldap-ca.pem''\<rparr>"

lemma sample_inst_valid: "inst_errors sample_inst = []"
  by code_simp

section \<open>A validated LDAP URI splits\<close>

lemma re_test_uri:
  "re_test (seqs [lits a, r1, lits b, r2, r3, Eos]) s \<longleftrightarrow>
     (\<exists>s1 s3 s4 u. s = a @ s1 \<and> b @ s3 \<in> ends r1 s1 \<and> s4 \<in> ends r2 s3 \<and> u \<in> ends r3 s4 \<and>
        (u = [] \<or> u = [LF]))"
  unfolding re_test_ex seqs_def foldr.simps o_apply id_apply in_ends by blast

lemma ldap_uri_shape:
  assumes "re_test ldap_uri_re s"
  obtains sch h pt nl where "s = sch @ ''://'' @ h @ pt @ nl" and "sch = ''ldap'' \<or> sch = ''ldaps''"
    and "h \<noteq> []" and "list_all (cls_has (plus_chars alnum ''.-'')) h"
    and "pt = [] \<or> (\<exists>ds. pt = CHR '':'' # ds \<and> ds \<noteq> [] \<and> list_all is_digit ds)"
    and "nl = [] \<or> nl = [LF]"
proof -
  have digit: "cls_has digit_cls = is_digit"
    by (auto simp: fun_eq_iff cls_has_def digit_cls_def is_digit_def)
  obtain s1 s3 s4 u where s: "s = ''ldap'' @ s1" and u2: "''://'' @ s3 \<in> ends (opt (lit CHR ''s'')) s1"
    and h: "s4 \<in> ends hostname_re s3"
    and e: "u \<in> ends port_re s4" "u = [] \<or> u = [LF]"
    using assms unfolding ldap_uri_re_def re_test_uri by blast
  have s2: "s1 = ''://'' @ s3 \<or> s1 = ''s://'' @ s3" using u2 by (auto simp: ends_opt ends_lit)
  have "list_all (cls_has (plus_chars alnum ''.-'')) p" if "list_all (re_char hostname_re) p" for p
    using that unfolding list_all_iff
    by (auto simp: hostname_re_def label_re_def lit_def cls_has_def plus_chars_def)
  then obtain p where p: "s3 = p @ s4" "list_all (cls_has (plus_chars alnum ''.-'')) p"
    using ends_eats [OF h] by (auto simp: eats_def)
  have "p \<noteq> []"
  proof
    assume "p = []"
    with p h have "s4 \<in> ends hostname_re s4" by simp
    then obtain u v where u: "u \<in> ends (Cls alnum) s4"
      and "v \<in> ends (Grp 1 (up_to 62 (Cls (plus_chars alnum ''-'')))) u"
      and "s4 \<in> ends (star (Grp 2 (Seq (lit CHR ''.'') label_re))) v"
      unfolding hostname_re_def label_re_def in_Seq by blast
    then obtain q r where "u = q @ v" "v = r @ s4" by (blast dest: ends_eats eats_def [THEN iffD1])
    then show False using u by (cases s4) (auto split: if_splits)
  qed
  moreover from e obtain q where "s4 = q @ u"
    "q = [] \<or> (\<exists>ds. q = CHR '':'' # ds \<and> ds \<noteq> [] \<and> list_all is_digit ds)"
    by (fastforce simp: port_re_def ends_opt ends_Seq ends_lit ends_Rep_Cls digit)
  ultimately show thesis
    using e s s2 p that [of "''ldap''" p q u] that [of "''ldaps''" p q u] by auto
qed

lemma strip_nl:
  assumes "x \<noteq> []" and "\<not> is_space (hd x)" and "\<not> is_space (last x)" and "nl = [] \<or> nl = [LF]"
  shows "strip (x @ nl) = x"
proof -
  obtain c t where "x = c # t" using assms(1) by (cases x) auto
  then have d: "dropWhile is_space (x @ nl) = x @ nl" using assms(2) by simp
  have LF: "is_space LF" by (simp add: is_space_def in_range_def)
  obtain y z where x: "x = y @ [z]" using assms(1) by (cases x rule: rev_cases) auto
  have "rstrip_by is_space (x @ nl) = x"
    using assms(3,4) LF by (auto simp: rstrip_by_def x)
  then show ?thesis by (simp add: strip_def d)
qed

lemma scheme_run:
  assumes "sch = ''ldap'' \<or> sch = ''ldaps''"
  shows "starts (re_run (Grp 1 (Seq (lits_ic ''ldap'') (opt (lit_ic CHR ''s'')))) (sch @ ''://'' @ r, []))
    (''://'' @ r, [(1, sch)])"
  using assms
  by (auto simp: lits_ic_def lit_ic_def upper_char_def cls_has_def in_range_def char_of_def
      rep_run_unfold rep_run_0)

definition url_port_re :: re where
  "url_port_re = opt (Seq (lit CHR '':'') (Grp 3 (plus1 (Cls digit_cls))))"

lemma digit_cls_has: "cls_has digit_cls = is_digit"
  by (auto simp: fun_eq_iff cls_has_def digit_cls_def is_digit_def)

lemma port_run:
  assumes "pt = [] \<or> (\<exists>ds. pt = CHR '':'' # ds \<and> ds \<noteq> [] \<and> list_all is_digit ds)"
  shows "starts (re_run url_port_re (pt, e)) ([], if pt = [] then e else (3, tl pt) # e)"
proof (cases "pt = []")
  case True
  then show ?thesis by (simp add: url_port_re_def rep_run_unfold lit_def)
next
  case False
  with assms obtain ds where pt: "pt = CHR '':'' # ds" and ds: "ds \<noteq> []" "list_all (cls_has digit_cls) ds"
    by (auto simp: digit_cls_has)
  have "starts (re_run (plus1 (Cls digit_cls)) (ds, e)) ([], e)"
    using starts_plus1 [OF one_char_Cls(1) _ ds(2,1), of "[]" e] by (simp del: re_run.simps)
  from starts_Grp [OF this, of 3]
  have "starts (re_run (Grp 3 (plus1 (Cls digit_cls))) (ds, e)) ([], (3, ds) # e)"
    by (simp del: re_run.simps)
  moreover have "starts (re_run (lit CHR '':'') (pt, e)) (ds, e)"
    by (simp add: pt lit_def cls_has_def in_range_def)
  ultimately have "starts (re_run (Seq (lit CHR '':'') (Grp 3 (plus1 (Cls digit_cls)))) (pt, e)) ([], (3, ds) # e)"
    by (rule starts_Seq [rotated])
  from starts_opt [OF this] show ?thesis
    by (simp add: url_port_re_def pt del: re_run.simps)
qed

lemma ldap_url_parts_shape:
  assumes sch: "sch = ''ldap'' \<or> sch = ''ldaps''"
    and h: "h \<noteq> []" "list_all (cls_has (plus_chars alnum ''.-'')) h"
    and pt: "pt = [] \<or> (\<exists>ds. pt = CHR '':'' # ds \<and> ds \<noteq> [] \<and> list_all is_digit ds)"
    and nl: "nl = [] \<or> nl = [LF]"
  shows "ldap_url_parts (sch @ ''://'' @ h @ pt @ nl) =
    Some (sch, h, if pt = [] then (if sch = ''ldaps'' then 636 else 389) else digits_val (tl pt))"
proof -
  let ?x = "sch @ ''://'' @ h @ pt"
  have host: "\<not> cls_has [(CHR ''/'', CHR ''/''), (CHR '':'', CHR '':'')] c \<and> \<not> is_space c"
    if "c \<in> set h" for c
    using h(2) that unfolding list_all_iff
    by (auto simp: cls_has_def plus_chars_def alnum_def in_range_def is_space_def less_eq_char_def)
  have dig: "\<not> is_space c" if "is_digit c" for c
    using that by (auto simp: is_digit_def in_range_def is_space_def less_eq_char_def)
  have "last ?x = (if pt = [] then last h else last pt)" using h(1) by auto
  moreover have "pt \<noteq> [] \<Longrightarrow> is_digit (last pt)" using pt by (auto simp: list_all_iff)
  ultimately have "\<not> is_space (last ?x)" using host [of "last h"] h(1) dig by auto
  moreover have "hd ?x = CHR ''l''" using sch by auto
  ultimately have "strip (?x @ nl) = ?x"
    using nl by (intro strip_nl) (auto simp: is_space_def in_range_def)
  then have strip: "strip (sch @ ''://'' @ h @ pt @ nl) = ?x" by simp
  let ?H = "plus1 (NCls [(CHR ''/'', CHR ''/''), (CHR '':'', CHR '':'')])"
  have "starts (re_run ?H (h @ pt, [(1, sch)])) (pt, [(1, sch)])"
    using h(1) pt host
    by (intro starts_plus1 [OF one_char_Cls(2)]) (auto simp: list_all_iff cls_has_def in_range_def)
  from starts_Grp [OF this, of 2]
  have "starts (re_run (Grp 2 ?H) (h @ pt, [(1, sch)])) (pt, [(2, h), (1, sch)])"
    by (simp del: re_run.simps)
  note host_way = this
  have port_way: "starts (re_run url_port_re (pt, [(2, h), (1, sch)]))
      ([], (if pt = [] then [] else [(3, tl pt)]) @ [(2, h), (1, sch)])"
    using port_run [OF pt, of "[(2, h), (1, sch)]"] by (cases "pt = []") auto
  have end_way: "starts (re_run (Seq Eos Eps) ([], e)) ([], e)" for e by simp
  have sep_way: "starts (re_run (lits ''://'') (''://'' @ h @ pt, [(1, sch)])) (h @ pt, [(1, sch)])"
    by (simp only: starts_lits starts_Cons)
  have "starts (re_run ldap_url_re (?x, []))
      ([], (if pt = [] then [] else [(3, tl pt)]) @ [(2, h), (1, sch)])"
    unfolding ldap_url_re_def seqs_def foldr.simps o_apply id_apply url_port_re_def [symmetric]
    by (rule starts_Seq [OF scheme_run [OF sch] starts_Seq [OF sep_way
          starts_Seq [OF host_way starts_Seq [OF port_way end_way]]]])
  then have "re_match ldap_url_re ?x =
      Some ([], (if pt = [] then [] else [(3, tl pt)]) @ [(2, h), (1, sch)])"
    by (rule re_match_starts)
  moreover have "lower sch = sch"
    using sch by (auto simp: lower_def lower_char_def in_range_def)
  ultimately show ?thesis
    unfolding ldap_url_parts_def strip by (simp add: group_of_def Let_def)
qed

text \<open>The two readings of a validated URI agree: it is LDAPS exactly when its scheme is.\<close>

lemma valid_ldap_uri_parts:
  assumes "re_test ldap_uri_re url"
  obtains scheme host port where "ldap_url_parts url = Some (scheme, host, port)"
    and "scheme = ''ldap'' \<or> scheme = ''ldaps''" and "host \<noteq> []" and "0 \<le> port"
    and "is_ldaps url \<longleftrightarrow> scheme = ''ldaps''"
proof -
  from assms obtain sch h pt nl where url: "url = sch @ ''://'' @ h @ pt @ nl"
    and sch: "sch = ''ldap'' \<or> sch = ''ldaps''" and h: "h \<noteq> []" "list_all (cls_has (plus_chars alnum ''.-'')) h"
    and pt: "pt = [] \<or> (\<exists>ds. pt = CHR '':'' # ds \<and> ds \<noteq> [] \<and> list_all is_digit ds)"
    and nl: "nl = [] \<or> nl = [LF]"
    by (rule ldap_uri_shape)
  have port: "0 \<le> (if pt = [] then (if sch = ''ldaps'' then 636 else 389) else digits_val (tl pt))"
    using pt by (auto simp: digits_val_nonneg)
  obtain c r where hc: "h = c # r" using h(1) by (cases h) auto
  have "\<not> is_space CHR ''l''" by (simp add: is_space_def in_range_def)
  then have d: "dropWhile is_space url = url" using sch by (auto simp: url)
  have "\<exists>r. strip url = sch @ ''://'' @ r"
  proof -
    have "url = (sch @ '':/'') @ CHR ''/'' # (h @ pt @ nl)" by (simp add: url)
    moreover have "\<not> is_space CHR ''/''" by (simp add: is_space_def in_range_def)
    ultimately have "rstrip_by is_space url = (sch @ '':/'') @ CHR ''/'' # rstrip_by is_space (h @ pt @ nl)"
      by (metis rstrip_keep)
    then show ?thesis by (simp add: strip_def d)
  qed
  then have "is_ldaps url \<longleftrightarrow> sch = ''ldaps''"
    using sch by (auto simp: is_ldaps_def lower_def lower_char_def in_range_def)
  with ldap_url_parts_shape [OF sch h pt nl] sch h(1) port url show thesis
    by (intro that [of sch h "if pt = [] then (if sch = ''ldaps'' then 636 else 389) else digits_val (tl pt)"]) auto
qed

section \<open>The shape of a validated image reference\<close>

lemma cls_has_in: "cls_has rs c \<Longrightarrow> list_all (\<lambda>r. \<not> in_range x r) rs \<Longrightarrow> c \<noteq> x"
  by (auto simp: cls_has_def list_ex_iff list_all_iff)

lemma image_shape:
  assumes "re_test image_re s"
  obtains (Tag) base tag nl where "s = base @ CHR '':'' # tag @ nl" and "base \<noteq> []" and "tag \<noteq> []"
      and "CHR ''@'' \<notin> set base" and "list_all (cls_has (plus_chars alnum ''._-'')) tag"
      and "nl = [] \<or> nl = [LF]"
    | (Digest) base hex nl where "s = base @ ''@sha256:'' @ hex @ nl" and "base \<noteq> []"
      and "CHR ''@'' \<notin> set base" and "list_all (cls_has hex_cls) hex" and "length hex = 64"
      and "nl = [] \<or> nl = [LF]"
proof -
  let ?T = "seqs [lit CHR '':'', Cls alnum, up_to 127 (Cls (plus_chars alnum ''._-''))]"
  let ?D = "seqs [lits ''@sha256:'', Rep 64 (Some 64) (Cls hex_cls)]"
  from assms obtain s1 s2 s3 where s1: "s1 \<in> ends (Cls lownum) s"
    and s2: "s2 \<in> ends (star (Cls (plus_chars lownum ''._/:-''))) s1"
    and s3: "s3 \<in> ends ?T s2 \<or> s3 \<in> ends ?D s2" and nl: "s3 = [] \<or> s3 = [LF]"
    unfolding image_re_def re_test_ex seqs_def foldr.simps o_apply id_apply in_ends by blast
  obtain c where c: "s = c # s1" "cls_has lownum c" using s1 by (cases s) (auto split: if_splits)
  obtain p where p: "s1 = p @ s2" "list_all (cls_has (plus_chars lownum ''._/:-'')) p"
    using s2 by (auto simp: ends_Rep_Cls)
  have at: "CHR ''@'' \<notin> set (c # p)"
    using c(2) p(2) by (auto simp: list_all_iff cls_has_def lownum_def plus_chars_def in_range_def)
  from s3 show thesis
  proof
    assume "s3 \<in> ends ?T s2"
    then obtain d t where d: "s2 = CHR '':'' # d # t" "cls_has alnum d"
      and t: "s3 \<in> ends (up_to 127 (Cls (plus_chars alnum ''._-''))) t"
      unfolding seqs_def foldr.simps o_apply id_apply in_ends
      by (auto simp: ends_lit) (metis ends_Cons_Cls(1) ends_Nil_Cls(1) empty_iff list.exhaust singletonD)
    then obtain q where "t = q @ s3" "list_all (cls_has (plus_chars alnum ''._-'')) q"
      by (auto simp: ends_Rep_Cls)
    then show thesis
      using Tag [of "c # p" "d # q" s3] c p d at nl by (auto simp: plus_chars_def cls_has_def)
  next
    assume "s3 \<in> ends ?D s2"
    then obtain t where "s2 = ''@sha256:'' @ t" "s3 \<in> ends (Rep 64 (Some 64) (Cls hex_cls)) t"
      unfolding seqs_def foldr.simps o_apply id_apply in_ends by blast
    then obtain q where "s2 = ''@sha256:'' @ q @ s3" "list_all (cls_has hex_cls) q" "length q = 64"
      by (auto simp: ends_Rep_Cls)
    then show thesis
      using Digest [of "c # p" q s3] c p at nl by auto
  qed
qed

section \<open>Properties\<close>

lemma loopback_parsed:
  "ip_network ''127.0.0.0/8'' = Some loopback_v4" "ip_network ''::1/128'' = Some loopback_v6"
  by code_simp+

lemma loopback_ok: "net_ok loopback_v4" "net_ok loopback_v6"
  using loopback_parsed by (auto dest: ip_network_ok)

lemma loopback_v4_has: "0 \<le> a \<Longrightarrow> a < 2 ^ 32 \<Longrightarrow> net_has loopback_v4 a \<longleftrightarrow> a div 2 ^ 24 = 127"
  using and_prefix [of a V4 8] by (auto simp: net_has_def netmask_def loopback_v4_def)

lemma loopback_v6_has: "net_has loopback_v6 1"
  by code_simp

lemma cidr_ok_avoids:
  assumes "cidr_ok cidr"
  obtains n where "ip_network cidr = Some n"
    and "\<And>a. net_has n a \<Longrightarrow> \<not> net_has (if ip_ver n = V4 then loopback_v4 else loopback_v6) a"
proof -
  let ?lo = "\<lambda>n. if ip_ver n = V4 then loopback_v4 else loopback_v6"
  from assms obtain n where n: "ip_network cidr = Some n" "\<not> overlaps n (?lo n)"
    by (auto simp: cidr_ok_def split: option.splits)
  have "ip_ver (?lo n) = ip_ver n" by (cases "ip_ver n") (auto simp: loopback_v4_def loopback_v6_def)
  then have "\<not> (\<exists>a. net_has n a \<and> net_has (?lo n) a)"
    using n overlaps_iff [OF ip_network_ok [OF n(1)], of "?lo n"] loopback_ok by (auto split: if_splits)
  with n(1) that show thesis by blast
qed

text \<open>
  C24: No subnet of a validated instance covers loopback. Every \<open>client_subnets\<close> entry parses; an
  IPv4 entry holds no address of 127.0.0.0/8, an IPv6 entry does not hold \<open>::1\<close>. So the clients
  rendered from it never duplicate the healthcheck client of the image.
\<close>

theorem valid_subnets_avoid_loopback:
  assumes "inst_errors i = []" and "cidr \<in> set (i_client_subnets i)"
  shows "\<exists>n. ip_network cidr = Some n \<and>
    (ip_ver n = V4 \<longrightarrow> (\<forall>a. 0 \<le> a \<and> a < 2 ^ 32 \<and> net_has n a \<longrightarrow> a div 2 ^ 24 \<noteq> 127)) \<and>
    (ip_ver n = V6 \<longrightarrow> \<not> net_has n 1)"
proof -
  have "cidr_ok cidr" using assms by (auto simp: inst_valid_iff list_all_iff)
  then obtain n where n: "ip_network cidr = Some n"
    and a: "\<And>a. net_has n a \<Longrightarrow> \<not> net_has (if ip_ver n = V4 then loopback_v4 else loopback_v6) a"
    by (rule cidr_ok_avoids) blast
  have "net_has n b \<longrightarrow> b div 2 ^ 24 \<noteq> 127" if "ip_ver n = V4" "0 \<le> b" "b < 2 ^ 32" for b
    using a [of b] loopback_v4_has [OF that(2,3)] that(1) by simp
  moreover have "ip_ver n = V6 \<longrightarrow> \<not> net_has n 1"
    using a [of 1] loopback_v6_has by auto
  ultimately show ?thesis using n by blast
qed

theorem valid_subnets_avoid_loopback_witness:
  "\<exists>n. ip_network ''10.0.0.0/16'' = Some n \<and>
    (ip_ver n = V4 \<longrightarrow> (\<forall>a. 0 \<le> a \<and> a < 2 ^ 32 \<and> net_has n a \<longrightarrow> a div 2 ^ 24 \<noteq> 127)) \<and>
    (ip_ver n = V6 \<longrightarrow> \<not> net_has n 1)"
  by (rule valid_subnets_avoid_loopback [OF sample_inst_valid]) (simp add: sample_inst_def)

text \<open>
  C26: What a validated instance contributes to paths is one plain component: the instance name, the
  three secret references and the pinned CA's file name are non-empty, hold no slash and no
  \<open>..\<close>, and do not begin with a dot.
\<close>

theorem valid_path_components:
  assumes "inst_errors i = []"
    and "f \<in> {i_name i, i_join_secret i, i_ldap_bind_secret i, i_radius_secret i} \<union> set_option (i_ldap_ca i)"
  shows "f \<noteq> [] \<and> CHR ''/'' \<notin> set f \<and> \<not> sublist ''..'' f \<and> hd f \<noteq> CHR ''.''"
proof (cases "f = i_name i")
  case True
  then have "re_test name_re f" using assms(1) by (simp add: inst_valid_iff)
  from name_no_sep [OF this] name_ne [OF this] show ?thesis
    by (metis hd_in_set sublist_in)
next
  case False
  then have "secret_ok f" using assms by (auto simp: inst_valid_iff)
  then show ?thesis using secret_no_slash secret_hd by (auto simp: secret_ok_def)
qed

theorem valid_path_components_witness:
  "''join.authfile'' \<noteq> [] \<and> CHR ''/'' \<notin> set ''join.authfile'' \<and> \<not> sublist ''..'' ''join.authfile''
     \<and> hd ''join.authfile'' \<noteq> CHR ''.''"
  by (rule valid_path_components [OF sample_inst_valid]) (simp add: sample_inst_def)

text \<open>
  The \<open>ldap_server\<close> of a validated instance always splits: \<open>ldap_url_parts\<close> does not raise, gives
  the scheme \<open>ldap\<close> or \<open>ldaps\<close>, a host and a port, and \<open>is_ldaps\<close> says \<open>ldaps\<close> exactly then. So
  \<open>env_for\<close> cannot fail on a stored instance, and the API's LDAPS gate and the CLI agree.
\<close>

theorem valid_ldap_server_splits:
  assumes "inst_errors i = []"
  shows "\<exists>scheme host port. ldap_url_parts (i_ldap_server i) = Some (scheme, host, port) \<and>
    scheme \<in> {''ldap'', ''ldaps''} \<and> host \<noteq> [] \<and> 0 \<le> port \<and>
    (is_ldaps (i_ldap_server i) \<longleftrightarrow> scheme = ''ldaps'')"
proof -
  have "re_test ldap_uri_re (i_ldap_server i)" using assms by (simp add: inst_valid_iff)
  then show ?thesis by (rule valid_ldap_uri_parts) blast
qed

theorem valid_ldap_server_splits_witness:
  "\<exists>scheme host port. ldap_url_parts (i_ldap_server sample_inst) = Some (scheme, host, port) \<and>
    scheme \<in> {''ldap'', ''ldaps''} \<and> host \<noteq> [] \<and> 0 \<le> port \<and>
    (is_ldaps (i_ldap_server sample_inst) \<longleftrightarrow> scheme = ''ldaps'')"
  by (rule valid_ldap_server_splits) (rule sample_inst_valid)

text \<open>
  The validators let a line feed through at the end of a text, because \<open>$\<close> also matches before
  it: for each of the eight patterns of one class and a bounded tail, if a text is accepted and ends in
  no line feed, the text with one appended is accepted too. The comments call these texts free of
  newlines.
\<close>

theorem trailing_newline_accepted:
  assumes "r \<in> {name_re, realm_re, workgroup_re, group_re, dn_re, secret_re, ssid_re, test_user_re}"
    and "re_test r s" and "LF \<notin> set s"
  shows "re_test r (s @ [LF])"
  using assms
  by (auto simp: name_re_def realm_re_def workgroup_re_def group_re_def dn_re_def secret_re_def
      ssid_re_def test_user_re_def re_test_head_tail)

theorem trailing_newline_accepted_witness:
  "re_test dn_re ''DC=linuxmuster,DC=lan\<newline>''"
proof -
  have "re_test dn_re (''DC=linuxmuster,DC=lan'' @ [LF])"
    by (rule trailing_newline_accepted) (simp, code_simp, simp)
  then show ?thesis by simp
qed

end
