(* ===== verification/Sim.thy ===== *)
theory Sim
  imports World Models
begin

text \<open>
  A concrete git, YAML codec, clock and Docker engine, small but complete: the services the theorems are
  applied to where they are run on an example. A YAML text is the name in the record it stands for,
  read back from a book of values; git is a repository that takes every change; the engine holds named
  containers with their image, and shows for each the state its image is given.
\<close>

record sim =
  d_containers :: "(string \<times> string) list"
  d_volumes :: "string list"
  d_clock :: int

record sim_rules =
  u_book :: "string \<Rightarrow> pyval option"
  u_attrs :: "string \<Rightarrow> (pyval \<times> pyval) list"
  u_broken :: "string list"

definition name_of_val :: "pyval \<Rightarrow> string" where
  "name_of_val v =
     (case v of PDict d \<Rightarrow> (case (dget d ''name'', dget d ''image'') of
        (Some (PStr s), Some (PStr t)) \<Rightarrow> s @ '' '' @ t | _ \<Rightarrow> []) | _ \<Rightarrow> [])"

definition sim_load :: "sim_rules \<Rightarrow> string \<Rightarrow> pyerr + pyval" where
  "sim_load u s = (case u_book u s of None \<Rightarrow> Inl YamlErr | Some v \<Rightarrow> Inr v)"

definition sim_git :: "string list \<Rightarrow> (int \<times> string \<times> string) option" where
  "sim_git args =
     Some (if hd args = ''rev-parse'' then (0, ''true'' @ [LF], '''')
           else if hd args = ''diff'' then (1, '''', '''') else (0, '''', ''''))"

definition sim_get :: "string \<Rightarrow> sim \<Rightarrow> (pyerr + string) \<times> sim" where
  "sim_get n d = (if map_of (d_containers d) n = None then Inl (DockerErr NotFound) else Inr n, d)"

definition sim_run :: "string list \<Rightarrow> run_spec \<Rightarrow> sim \<Rightarrow> (pyerr + string) \<times> sim" where
  "sim_run broken spec d =
     (if rs_image spec \<in> set broken then (Inl (DockerErr APIError), d)
      else (case rs_name spec of
         None \<Rightarrow> (Inr ''left the domain'', d)
       | Some n \<Rightarrow> (Inr '''', d \<lparr> d_containers := AList.update n (rs_image spec) (d_containers d) \<rparr>)))"

definition sim_run_git :: "string list \<Rightarrow> (string \<times> content) list \<Rightarrow> unit \<Rightarrow> (int \<times> string \<times> string) option \<times> unit" where
  "sim_run_git args files g = (sim_git args, g)"

definition sim_int :: "pyval \<Rightarrow> int option" where
  "sim_int v = None"

definition sim_pull :: "string \<Rightarrow> string option \<Rightarrow> sim \<Rightarrow> (pyerr + unit) \<times> sim" where
  "sim_pull repo tag d = (Inr (), d)"

definition sim_reload :: "sim_rules \<Rightarrow> string \<Rightarrow> sim \<Rightarrow> (pyerr + (pyval \<times> pyval) list) \<times> sim" where
  "sim_reload u c d =
     (case map_of (d_containers d) c of None \<Rightarrow> Inl (DockerErr NotFound) | Some img \<Rightarrow> Inr (u_attrs u img), d)"

definition sim_image :: "string \<Rightarrow> sim \<Rightarrow> (pyerr + string list option) \<times> sim" where
  "sim_image c d = (Inr (map_option (\<lambda>img. [img]) (map_of (d_containers d) c)), d)"

definition sim_logs :: "string \<Rightarrow> int \<Rightarrow> int option \<Rightarrow> int option \<Rightarrow> sim \<Rightarrow> (pyerr + string) \<times> sim" where
  "sim_logs c tail since until d = (Inr ''FATAL: example'', d)"

definition sim_remove :: "string \<Rightarrow> sim \<Rightarrow> (pyerr + unit) \<times> sim" where
  "sim_remove c d = (Inr (), d \<lparr> d_containers := AList.delete c (d_containers d) \<rparr>)"

text \<open>Starting, stopping and restarting leave the example engine as it is.\<close>

definition sim_touch :: "string \<Rightarrow> sim \<Rightarrow> (pyerr + unit) \<times> sim" where
  "sim_touch c d = (Inr (), d)"

definition sim_vol_get :: "string \<Rightarrow> sim \<Rightarrow> (pyerr + unit) \<times> sim" where
  "sim_vol_get v d = (if v \<in> set (d_volumes d) then Inr () else Inl (DockerErr NotFound), d)"

definition sim_vol_remove :: "string \<Rightarrow> sim \<Rightarrow> (pyerr + unit) \<times> sim" where
  "sim_vol_remove v d = (Inr (), d \<lparr> d_volumes := removeAll v (d_volumes d) \<rparr>)"

definition sim_exec :: "string \<Rightarrow> string list \<Rightarrow> sim \<Rightarrow> (pyerr + int \<times> string) \<times> sim" where
  "sim_exec c argv d = (Inr (0, ''succeeded''), d)"

definition sim_sleep :: "int \<Rightarrow> sim \<Rightarrow> sim" where
  "sim_sleep ms d = d \<lparr> d_clock := d_clock d + ms \<rparr>"

definition sim_route :: "string \<Rightarrow> sim \<Rightarrow> pyerr + string" where
  "sim_route h d = Inr ''10.0.0.5''"

definition sim_routes :: "sim \<Rightarrow> pyerr + string list" where
  "sim_routes d = Inl OSErr"

definition sim_ifaddr :: "string \<Rightarrow> sim \<Rightarrow> pyerr + string" where
  "sim_ifaddr n d = Inl OSErr"

definition sim_ext :: "sim_rules \<Rightarrow> (unit, sim) ext" where
  "sim_ext u = \<lparr>
     x_load = sim_load u, x_dump = name_of_val, x_int = sim_int, x_git = sim_run_git,
     x_pull = sim_pull, x_get = sim_get, x_reload = sim_reload u, x_image = sim_image, x_logs = sim_logs,
     x_remove = sim_remove, x_start = sim_touch, x_stop = sim_touch, x_restart = sim_touch,
     x_run = sim_run (u_broken u), x_vol_get = sim_vol_get, x_vol_remove = sim_vol_remove,
     x_exec = sim_exec, x_now = d_clock, x_sleep = sim_sleep, x_route = sim_route, x_routes = sim_routes,
     x_ifaddr = sim_ifaddr \<rparr>"

lemmas sim_defs = sim_ext_def sim_load_def sim_int_def sim_run_git_def sim_pull_def sim_get_def sim_reload_def
  sim_image_def sim_logs_def sim_remove_def sim_touch_def sim_run_def sim_vol_get_def sim_vol_remove_def
  sim_exec_def sim_sleep_def sim_route_def sim_routes_def sim_ifaddr_def

end
