(* ===== verification/Contracts.thy ===== *)
theory Contracts
  imports Errors Models
begin

text \<open>
  The interfaces the reconciler and the updater rely on, as locales: a store of instances, and a
  store together with a service that deploys an instance. The lemmas say what holds for every
  provider that keeps these laws; the model's own store and Docker service are shown to keep them in
  their theories.
\<close>

section \<open>A store of instances\<close>

text \<open>
  \<open>look\<close> is what reading a record gives; \<open>storable\<close> are the instances whose record reads back.
  A write takes effect even where it raises (git refused the change), except for an unsafe name.
\<close>

locale instance_store =
  fixes put :: "inst \<Rightarrow> ('w, pyerr, unit) prog"
    and get :: "string \<Rightarrow> ('w, pyerr, inst option) prog"
    and del :: "string \<Rightarrow> ('w, pyerr, unit) prog"
    and look :: "'w \<Rightarrow> string \<Rightarrow> pyerr + inst option"
    and storable :: "inst \<Rightarrow> bool"
  assumes get_look: "get n w = (look w n, w)"
    and put_look: "storable i \<Longrightarrow> put i w = (r, w') \<Longrightarrow> look w' = (look w)(i_name i := Inr (Some i))"
    and del_look: "del n w = (r, w') \<Longrightarrow> r \<noteq> Inl ValueErr \<Longrightarrow> look w' = (look w)(n := Inr None)"
    and put_raises: "storable i \<Longrightarrow> put i w = (Inl e, w') \<Longrightarrow> e = StoreErr"
    and del_raises: "del n w = (Inl e, w') \<Longrightarrow> e = StoreErr \<or> e = ValueErr \<and> w' = w"
begin

lemma get_after_put:
  "storable i \<Longrightarrow> put i w = (r, w') \<Longrightarrow> get (i_name i) w' = (Inr (Some i), w')"
  by (simp add: get_look put_look)

lemma get_other_after_put:
  "storable i \<Longrightarrow> put i w = (r, w') \<Longrightarrow> n \<noteq> i_name i \<Longrightarrow> get n w' = (look w n, w')"
  by (simp add: get_look put_look)

lemma get_after_del: "del n w = (Inr u, w') \<Longrightarrow> get n w' = (Inr None, w')"
  using del_look [of n w "Inr u" w'] by (simp add: get_look)

lemma put_put_look:
  assumes "storable i" and "storable j" and "i_name i = i_name j"
    and "put i w = (r, w1)" and "put j w1 = (s, w2)"
  shows "look w2 = (look w)(i_name j := Inr (Some j))"
  using assms put_look [of i w r w1] put_look [of j w1 s w2] by simp

end

section \<open>A store with a service that deploys\<close>

text \<open>
  \<open>deploy\<close> and \<open>status\<close> leave the records alone. \<open>deploy\<close> may fail at any point.
\<close>

locale deployer = instance_store put get del look storable
  for put :: "inst \<Rightarrow> ('w, pyerr, unit) prog"
    and get :: "string \<Rightarrow> ('w, pyerr, inst option) prog"
    and del :: "string \<Rightarrow> ('w, pyerr, unit) prog"
    and look :: "'w \<Rightarrow> string \<Rightarrow> pyerr + inst option"
    and storable :: "inst \<Rightarrow> bool" +
  fixes deploy :: "inst \<Rightarrow> ('w, pyerr, 'v) prog"
  assumes deploy_look: "keeps look (deploy i)"
begin

text \<open>Persist, then deploy: the record is the wanted one whatever happens to the deployment.\<close>

lemma persist_look:
  assumes "storable i" and "bindP (put i) (\<lambda>_. deploy i) w = (r, w')"
  shows "look w' = (look w)(i_name i := Inr (Some i))"
proof -
  obtain q w1 where p: "put i w = (q, w1)" by (cases "put i w")
  with assms have l: "look w1 = (look w)(i_name i := Inr (Some i))" by (intro put_look)
  show ?thesis
  proof (cases q)
    case (Inl e)
    with p l assms(2) show ?thesis by (simp add: run_bind)
  next
    case (Inr u)
    then have "deploy i w1 = (r, w')" using p assms(2) by (simp add: run_bind)
    then have "look w' = look w1" by (rule keepsD [OF deploy_look])
    with l show ?thesis by simp
  qed
qed

text \<open>A failed deployment is answered by persisting and deploying another instance of the name.\<close>

lemma fall_back_look:
  assumes "storable i" and "storable j" and "i_name i = i_name j"
    and "bindP (put j) (\<lambda>_. deploy j) w = (r, w1)"
    and "keeps look m" and "m w1 = (q, w2)"
    and "bindP (put i) (\<lambda>_. deploy i) w2 = (s, w3)"
  shows "look w3 = (look w)(i_name i := Inr (Some i))"
proof -
  have "look w1 = (look w)(i_name j := Inr (Some j))" using assms(2,4) by (rule persist_look)
  moreover have "look w2 = look w1" using assms(5,6) by (rule keepsD)
  moreover have "look w3 = (look w2)(i_name i := Inr (Some i))" using assms(1,7) by (rule persist_look)
  ultimately show ?thesis using assms(3) by simp
qed

end

end
