(* ===== verification/Store.thy ===== *)
theory Store
  imports Sim Contracts
begin

text \<open>
  \<open>store.py\<close>: the instances as YAML files of one directory, with git as the change log.

  A file of the directory is a name with a content; a YAML text is what \<open>x_dump\<close> makes of a value. The
  lemmas show that a record that was put is the record that is read, that other records stay as they
  are, which of the faults of a file are survived by \<open>list\<close> and by \<open>get\<close>, and that a change git did not
  take is reported.
\<close>

section \<open>Records as YAML values\<close>

definition str_or_none :: "string option \<Rightarrow> pyval" where
  "str_or_none o1 = (case o1 of None \<Rightarrow> PNone | Some s \<Rightarrow> PStr s)"

definition ssid_dump :: "ssid \<Rightarrow> pyval" where
  "ssid_dump s = PDict
     [(PStr ''name'', PStr (s_name s)),
      (PStr ''allowed_group'', PStr (s_allowed_group s)),
      (PStr ''vlan'', case s_vlan s of None \<Rightarrow> PNone | Some v \<Rightarrow> PInt v)]"

text \<open>\<open>inst.model_dump(exclude={"container_name"})\<close>.\<close>

definition model_dump :: "inst \<Rightarrow> pyval" where
  "model_dump i = PDict
     [(PStr ''name'', PStr (i_name i)),
      (PStr ''realm'', PStr (i_realm i)),
      (PStr ''workgroup'', PStr (i_workgroup i)),
      (PStr ''server_fqdn'', PStr (i_server_fqdn i)),
      (PStr ''ldap_server'', PStr (i_ldap_server i)),
      (PStr ''ldap_base_dn'', PStr (i_ldap_base_dn i)),
      (PStr ''ldap_bind_dn'', PStr (i_ldap_bind_dn i)),
      (PStr ''wifi_group'', PStr (i_wifi_group i)),
      (PStr ''client_subnets'', PList (map PStr (i_client_subnets i))),
      (PStr ''ssids'', PList (map ssid_dump (i_ssids i))),
      (PStr ''join_secret'', PStr (i_join_secret i)),
      (PStr ''ldap_bind_secret'', PStr (i_ldap_bind_secret i)),
      (PStr ''radius_secret'', PStr (i_radius_secret i)),
      (PStr ''image'', PStr (i_image i)),
      (PStr ''ldap_ca'', str_or_none (i_ldap_ca i))]"

text \<open>
  How a field of the declared type takes a value: \<open>None\<close> if it does not. A text field takes a text only,
  an optional one also \<open>None\<close>; a missing field has its default or is an error.
\<close>

definition str_field :: "string option \<Rightarrow> pyval option \<Rightarrow> string option" where
  "str_field dflt v = (case v of None \<Rightarrow> dflt | Some (PStr s) \<Rightarrow> Some s | _ \<Rightarrow> None)"

definition opt_str_field :: "pyval option \<Rightarrow> string option option" where
  "opt_str_field v =
     (case v of None \<Rightarrow> Some None | Some PNone \<Rightarrow> Some None | Some (PStr s) \<Rightarrow> Some (Some s) | _ \<Rightarrow> None)"

definition int_field :: "(pyval \<Rightarrow> int option) \<Rightarrow> pyval option \<Rightarrow> int option option" where
  "int_field lax v =
     (case v of
        None \<Rightarrow> Some None
      | Some PNone \<Rightarrow> Some None
      | Some (PInt n) \<Rightarrow> Some (Some n)
      | Some u \<Rightarrow> map_option Some (lax u))"

fun list_field :: "(pyval \<Rightarrow> 'a option) \<Rightarrow> pyval option \<Rightarrow> 'a list option" where
  "list_field f (Some (PList vs)) = those (map f vs)"
| "list_field f _ = None"

fun ssid_of_val :: "(pyval \<Rightarrow> int option) \<Rightarrow> pyval \<Rightarrow> ssid option" where
  "ssid_of_val lax (PDict d) =
     (case (str_field None (dget d ''name''), str_field None (dget d ''allowed_group''),
            int_field lax (dget d ''vlan'')) of
        (Some n, Some g, Some v) \<Rightarrow> Some \<lparr> s_name = n, s_allowed_group = g, s_vlan = v \<rparr>
      | _ \<Rightarrow> None)"
| "ssid_of_val lax _ = None"

fun str_val :: "pyval \<Rightarrow> string option" where
  "str_val (PStr s) = Some s"
| "str_val _ = None"

text \<open>The fields of \<open>Instance(**data)\<close>, before its validators run.\<close>

definition inst_fields :: "(pyval \<Rightarrow> int option) \<Rightarrow> (pyval \<times> pyval) list \<Rightarrow> inst option" where
  "inst_fields lax d =
     (case (str_field None (dget d ''name''), str_field None (dget d ''realm''),
            str_field None (dget d ''workgroup''), str_field None (dget d ''server_fqdn''),
            str_field None (dget d ''ldap_server''), str_field None (dget d ''ldap_base_dn''),
            str_field None (dget d ''ldap_bind_dn''), str_field (Some ''wifi'') (dget d ''wifi_group'')) of
        (Some nm, Some rl, Some wg, Some fq, Some ls, Some ba, Some bi, Some wi) \<Rightarrow>
          (case (list_field str_val (dget d ''client_subnets''), list_field (ssid_of_val lax) (dget d ''ssids''),
                 str_field None (dget d ''join_secret''), str_field None (dget d ''ldap_bind_secret''),
                 str_field None (dget d ''radius_secret''), str_field (Some DEFAULT_IMAGE) (dget d ''image''),
                 opt_str_field (dget d ''ldap_ca'')) of
             (Some cs, Some ss, Some js, Some lb, Some rs, Some im, Some ca) \<Rightarrow>
               Some \<lparr> i_name = nm, i_realm = rl, i_workgroup = wg, i_server_fqdn = fq, i_ldap_server = ls,
                      i_ldap_base_dn = ba, i_ldap_bind_dn = bi, i_wifi_group = wi, i_client_subnets = cs,
                      i_ssids = ss, i_join_secret = js, i_ldap_bind_secret = lb, i_radius_secret = rs,
                      i_image = im, i_ldap_ca = ca \<rparr>
           | _ \<Rightarrow> None)
      | _ \<Rightarrow> None)"

fun is_str :: "pyval \<Rightarrow> bool" where
  "is_str (PStr _) = True"
| "is_str _ = False"

text \<open>\<open>Instance(**data)\<close>: a key that is no text is a \<open>TypeError\<close> of the call.\<close>

definition inst_of_val :: "(pyval \<Rightarrow> int option) \<Rightarrow> (pyval \<times> pyval) list \<Rightarrow> pyerr + inst" where
  "inst_of_val lax d =
     (if \<not> list_all (is_str \<circ> fst) d then Inl OtherErr
      else
        (case inst_fields lax d of
           None \<Rightarrow> Inl ValidationErr
         | Some i \<Rightarrow> (case model_validate i of Inl _ \<Rightarrow> Inl ValidationErr | Inr j \<Rightarrow> Inr j)))"

lemma those_PStr [simp]: "those (map (str_val \<circ> PStr) xs) = Some xs"
  by (induction xs) auto

lemma ssid_of_dump [simp]: "ssid_of_val lax (ssid_dump s) = Some s"
  by (simp add: ssid_dump_def str_field_def int_field_def split: option.splits)

lemma those_ssids [simp]: "those (map (ssid_of_val lax \<circ> ssid_dump) ss) = Some ss"
  by (induction ss) auto

lemma opt_str_or_none [simp]: "opt_str_field (Some (str_or_none v)) = Some v"
  by (cases v) (auto simp: opt_str_field_def str_or_none_def)

lemma inst_of_dump:
  assumes "model_dump i = PDict d" and "inst_errors i = []"
  shows "inst_of_val lax d = Inr i"
  using assms
  by (cases i) (auto simp: model_dump_def inst_of_val_def inst_fields_def str_field_def model_validate_def)

section \<open>The operations\<close>

text \<open>\<open>_file\<close>: the file of a name, or \<open>ValueError\<close> for an unsafe one.\<close>

definition unsafe_name :: "string \<Rightarrow> bool" where
  "unsafe_name name =
     (name = [] \<or> CHR ''/'' \<in> set name \<or> CHR 0x5C \<in> set name \<or> sublist ''..'' name)"

definition store_file :: "string \<Rightarrow> pyerr + string" where
  "store_file name = (if unsafe_name name then Inl ValueErr else Inr (name @ ''.yaml''))"

definition GIT_IDENT :: "string list" where
  "GIT_IDENT = [''-c'', ''user.name=linuxmuster-radius'', ''-c'', ''user.email=lmnradius@localhost'']"

text \<open>\<open>subprocess.run(["git", ...])\<close> in the directory; git reads its files and changes none of them.\<close>

definition run_git :: "('g, 'd) ext \<Rightarrow> string list \<Rightarrow> ('g, 'd, (int \<times> string \<times> string) option) run" where
  "run_git x args = (\<lambda>w. case x_git x args (w_insts w) (w_git w) of
     (r, g) \<Rightarrow> (Inr r, w \<lparr> w_git := g, w_log := w_log w @ [CGit args (map_option fst r)] \<rparr>))"

lemma run_git_run [code]: "run_git x args w = (case x_git x args (w_insts w) (w_git w) of
     (r, g) \<Rightarrow> (Inr r, w \<lparr> w_git := g, w_log := w_log w @ [CGit args (map_option fst r)] \<rparr>))"
  by (simp add: run_git_def)

definition in_git_repo :: "('g, 'd) ext \<Rightarrow> ('g, 'd, bool) run" where
  "in_git_repo x = bindP (run_git x [''rev-parse'', ''--is-inside-work-tree'']) (\<lambda>r. returnP
     (case r of None \<Rightarrow> False | Some (code, out, err) \<Rightarrow> code = 0 \<and> strip out = ''true''))"

definition git_ok :: "('g, 'd) ext \<Rightarrow> string list \<Rightarrow> ('g, 'd, bool) run" where
  "git_ok x args = bindP (run_git x args) (\<lambda>r. returnP
     (case r of None \<Rightarrow> False | Some (code, out, err) \<Rightarrow> code = 0))"

definition git_cmd :: "('g, 'd) ext \<Rightarrow> string list \<Rightarrow> ('g, 'd, unit) run" where
  "git_cmd x args = bindP (in_git_repo x) (\<lambda>inside.
     if \<not> inside then returnP ()
     else bindP (run_git x (GIT_IDENT @ args)) (\<lambda>r.
       case r of
         None \<Rightarrow> raiseP StoreErr
       | Some (code, out, err) \<Rightarrow> if code \<noteq> 0 then raiseP StoreErr else returnP ()))"

definition git_commit :: "('g, 'd) ext \<Rightarrow> string \<Rightarrow> string \<Rightarrow> ('g, 'd, unit) run" where
  "git_commit x msg file = bindP (in_git_repo x) (\<lambda>inside.
     if \<not> inside then returnP ()
     else bindP (git_ok x [''diff'', ''--cached'', ''--quiet'', ''--'', file]) (\<lambda>unchanged.
       if unchanged then returnP ()
       else git_cmd x [''commit'', ''-q'', ''-m'', msg, ''--'', file]))"

definition write_inst_file :: "string \<Rightarrow> string \<Rightarrow> ('g, 'd, unit) run" where
  "write_inst_file file text = updP (\<lambda>w. w \<lparr> w_insts := AList.update file (Text text) (w_insts w) \<rparr>)"

definition unlink_inst_file :: "string \<Rightarrow> ('g, 'd, unit) run" where
  "unlink_inst_file file = updP (\<lambda>w. w \<lparr> w_insts := AList.delete file (w_insts w) \<rparr>)"

definition store_put :: "('g, 'd) ext \<Rightarrow> inst \<Rightarrow> ('g, 'd, unit) run" where
  "store_put x i = bindP (liftP (store_file (i_name i))) (\<lambda>file.
     bindP (write_inst_file file (x_dump x (model_dump i))) (\<lambda>_.
     bindP (git_cmd x [''add'', ''--'', file]) (\<lambda>_.
     git_commit x (''lmnradius: update '' @ i_name i) file)))"

definition store_delete :: "('g, 'd) ext \<Rightarrow> string \<Rightarrow> ('g, 'd, unit) run" where
  "store_delete x name = bindP (liftP (store_file name)) (\<lambda>file.
     bindP (unlink_inst_file (name @ ''.prev'')) (\<lambda>_.
     bindP (getP (\<lambda>w. map_of (w_insts w) file)) (\<lambda>present.
     if present = None then returnP ()
     else bindP (unlink_inst_file file) (\<lambda>_.
       bindP (git_cmd x [''rm'', ''-q'', ''--ignore-unmatch'', ''--'', file]) (\<lambda>_.
       git_commit x (''lmnradius: remove '' @ name) file)))))"

text \<open>
  Reading one file. \<open>Inr None\<close> is a file that is skipped with a warning: it cannot be read, is no YAML,
  or holds no mapping. An exception of another class is not caught.
\<close>

definition load_record :: "('g, 'd) ext \<Rightarrow> content \<Rightarrow> pyerr + (pyval \<times> pyval) list option" where
  "load_record x c =
     (let loaded = (case read_content c of Inl e \<Rightarrow> Inl e | Inr text \<Rightarrow> x_load x text) in
      case loaded of
        Inl e \<Rightarrow> if is_os_error e \<or> e = YamlErr then Inr None else Inl e
      | Inr (PDict d) \<Rightarrow> Inr (Some d)
      | Inr _ \<Rightarrow> Inr None)"

definition store_get :: "('g, 'd) ext \<Rightarrow> string \<Rightarrow> ('g, 'd, inst option) run" where
  "store_get x name = bindP (liftP (store_file name)) (\<lambda>file.
     bindP (getP (\<lambda>w. map_of (w_insts w) file)) (\<lambda>present.
     case present of
       None \<Rightarrow> returnP None
     | Some c \<Rightarrow> bindP (liftP (load_record x c)) (\<lambda>loaded.
         case loaded of
           None \<Rightarrow> returnP None
         | Some d \<Rightarrow> bindP (liftP (inst_of_val (x_int x) d)) (\<lambda>i. returnP (Some i)))))"

text \<open>\<open>sorted(self.path.glob("*.yaml"))\<close>.\<close>

definition yaml_files :: "(string \<times> content) list \<Rightarrow> string list" where
  "yaml_files d = sort (filter (suffix ''.yaml'') (remdups (map fst d)))"

definition list_one :: "('g, 'd) ext \<Rightarrow> string \<Rightarrow> ('g, 'd, inst list) run" where
  "list_one x file = bindP (getP (\<lambda>w. map_of (w_insts w) file)) (\<lambda>present.
     case present of
       None \<Rightarrow> returnP []
     | Some c \<Rightarrow> bindP (liftP (load_record x c)) (\<lambda>loaded.
         case loaded of
           None \<Rightarrow> returnP []
         | Some d \<Rightarrow> returnP (case inst_of_val (x_int x) d of Inl _ \<Rightarrow> [] | Inr i \<Rightarrow> [i])))"

definition store_list :: "('g, 'd) ext \<Rightarrow> ('g, 'd, inst list) run" where
  "store_list x = bindP (getP (\<lambda>w. yaml_files (w_insts w))) (\<lambda>files.
     bindP (mapP (list_one x) files) (\<lambda>found. returnP (concat found)))"

section \<open>What the operations keep\<close>

text \<open>Git sees the files and changes none; only \<open>StoreError\<close> comes out of it.\<close>

abbreviation all_but_git :: "('g, 'd) world \<Rightarrow> (string \<times> content) list \<times> fs \<times> 'd" where
  "all_but_git w \<equiv> (w_insts w, w_fs w, w_dk w)"

lemma keeps_run_git [keeps_intros]: "keeps all_but_git (run_git x args)"
  by (simp add: keeps_def run_git_def split: prod.split)

lemma keeps_in_git_repo [keeps_intros]: "keeps all_but_git (in_git_repo x)"
  unfolding in_git_repo_def by (intro keeps_intros)

lemma keeps_git_ok [keeps_intros]: "keeps all_but_git (git_ok x args)"
  unfolding git_ok_def by (intro keeps_intros)

lemma keeps_git_cmd [keeps_intros]: "keeps all_but_git (git_cmd x args)"
  unfolding git_cmd_def by (intro keeps_intros)

lemma keeps_git_commit [keeps_intros]: "keeps all_but_git (git_commit x msg file)"
  unfolding git_commit_def by (intro keeps_intros)

lemma run_git_Inr: "fst (run_git x args w) = Inl e \<longleftrightarrow> False"
  by (simp add: run_git_def split: prod.split)

lemma in_git_repo_ok: "in_git_repo x w \<noteq> (Inl e, w')" "git_ok x args w \<noteq> (Inl e, w')"
  by (simp_all add: in_git_repo_def git_ok_def run_git_def run_bind split: prod.split)

lemma git_cmd_raises: "git_cmd x args w = (Inl e, w') \<Longrightarrow> e = StoreErr"
  by (auto simp: git_cmd_def bind_Inl_iff in_git_repo_ok run_git_def split: if_splits option.splits prod.splits)

lemma git_commit_raises: "git_commit x msg file w = (Inl e, w') \<Longrightarrow> e = StoreErr"
  by (auto simp: git_commit_def bind_Inl_iff in_git_repo_ok split: if_splits dest: git_cmd_raises)

text \<open>Two git steps after a change of the directory leave that change as it is.\<close>

lemma git_steps:
  assumes "bindP (git_cmd x args) (\<lambda>_. git_commit x msg file) w = (r, w')"
  shows "all_but_git w' = all_but_git w" and "r \<in> {Inr (), Inl StoreErr}"
proof -
  have "keeps all_but_git (bindP (git_cmd x args) (\<lambda>_. git_commit x msg file))"
    by (intro keeps_intros)
  then show "all_but_git w' = all_but_git w" using assms by (rule keepsD)
  show "r \<in> {Inr (), Inl StoreErr}"
    using assms git_cmd_raises git_commit_raises
    by (cases r) (auto simp: bind_Inl_iff, blast)
qed

lemma put_unsafe: "unsafe_name (i_name i) \<Longrightarrow> store_put x i w = (Inl ValueErr, w)"
  by (simp add: store_put_def store_file_def run_bind)

lemma put_run:
  assumes "store_put x i w = (r, w')" and "\<not> unsafe_name (i_name i)"
  shows "w_insts w' = AList.update (i_name i @ ''.yaml'') (Text (x_dump x (model_dump i))) (w_insts w)"
    and "w_fs w' = w_fs w" and "w_dk w' = w_dk w" and "r \<in> {Inr (), Inl StoreErr}"
proof -
  let ?w = "w \<lparr> w_insts := AList.update (i_name i @ ''.yaml'') (Text (x_dump x (model_dump i))) (w_insts w) \<rparr>"
  have "bindP (git_cmd x [''add'', ''--'', i_name i @ ''.yaml''])
      (\<lambda>_. git_commit x (''lmnradius: update '' @ i_name i) (i_name i @ ''.yaml'')) ?w = (r, w')"
    using assms by (simp add: store_put_def store_file_def write_inst_file_def run_bind [of "liftP _"])
  from git_steps [OF this]
  show "w_insts w' = AList.update (i_name i @ ''.yaml'') (Text (x_dump x (model_dump i))) (w_insts w)"
    and "w_fs w' = w_fs w" and "w_dk w' = w_dk w" and "r \<in> {Inr (), Inl StoreErr}" by auto
qed

lemma delete_unsafe: "unsafe_name name \<Longrightarrow> store_delete x name w = (Inl ValueErr, w)"
  by (simp add: store_delete_def store_file_def run_bind)

lemma delete_run:
  assumes "store_delete x name w = (r, w')" and "\<not> unsafe_name name"
  shows "map_of (w_insts w') = (map_of (w_insts w)) (name @ ''.prev'' := None, name @ ''.yaml'' := None)"
    and "w_fs w' = w_fs w" and "w_dk w' = w_dk w" and "r \<in> {Inr (), Inl StoreErr}"
proof -
  let ?f = "name @ ''.yaml''"
  let ?w = "w \<lparr> w_insts := AList.delete (name @ ''.prev'') (w_insts w) \<rparr>"
  let ?v = "?w \<lparr> w_insts := AList.delete ?f (w_insts ?w) \<rparr>"
  have run: "(if map_of (w_insts ?w) ?f = None then returnP ()
      else bindP (unlink_inst_file ?f) (\<lambda>_. bindP (git_cmd x [''rm'', ''-q'', ''--ignore-unmatch'', ''--'', ?f])
        (\<lambda>_. git_commit x (''lmnradius: remove '' @ name) ?f))) ?w = (r, w')"
    using assms by (simp add: store_delete_def store_file_def unlink_inst_file_def run_bind [of "liftP _"])
  have "map_of (w_insts w') = (map_of (w_insts w)) (name @ ''.prev'' := None, ?f := None)
    \<and> w_fs w' = w_fs w \<and> w_dk w' = w_dk w \<and> r \<in> {Inr (), Inl StoreErr}"
  proof (cases "map_of (w_insts ?w) ?f = None")
    case True
    with run show ?thesis by (auto simp: delete_conv')
  next
    case False
    then obtain c where "map_of (w_insts ?w) ?f = Some c" by blast
    then have "bindP (git_cmd x [''rm'', ''-q'', ''--ignore-unmatch'', ''--'', ?f])
        (\<lambda>_. git_commit x (''lmnradius: remove '' @ name) ?f) ?v = (r, w')"
      using run by (simp add: unlink_inst_file_def)
    from git_steps [OF this] show ?thesis by (auto simp: delete_conv')
  qed
  then show "map_of (w_insts w') = (map_of (w_insts w)) (name @ ''.prev'' := None, name @ ''.yaml'' := None)"
    and "w_fs w' = w_fs w" and "w_dk w' = w_dk w" and "r \<in> {Inr (), Inl StoreErr}" by blast+
qed

section \<open>Reading as a function of the directory\<close>

definition read_record :: "('g, 'd) ext \<Rightarrow> content \<Rightarrow> pyerr + inst option" where
  "read_record x c =
     (case load_record x c of
        Inl e \<Rightarrow> Inl e
      | Inr None \<Rightarrow> Inr None
      | Inr (Some d) \<Rightarrow> map_sum id Some (inst_of_val (x_int x) d))"

definition look_inst :: "('g, 'd) ext \<Rightarrow> ('g, 'd) world \<Rightarrow> string \<Rightarrow> pyerr + inst option" where
  "look_inst x w name =
     (if unsafe_name name then Inl ValueErr
      else (case map_of (w_insts w) (name @ ''.yaml'') of None \<Rightarrow> Inr None | Some c \<Rightarrow> read_record x c))"

lemma store_get_run: "store_get x name w = (look_inst x w name, w)"
  by (auto simp: store_get_def look_inst_def read_record_def store_file_def run_bind
      split: option.split sum.split)

definition list_record :: "('g, 'd) ext \<Rightarrow> content \<Rightarrow> pyerr + inst list" where
  "list_record x c =
     (case load_record x c of
        Inl e \<Rightarrow> Inl e
      | Inr None \<Rightarrow> Inr []
      | Inr (Some d) \<Rightarrow> Inr (case inst_of_val (x_int x) d of Inl _ \<Rightarrow> [] | Inr i \<Rightarrow> [i]))"

lemma list_one_run:
  "list_one x f w = (case map_of (w_insts w) f of None \<Rightarrow> Inr [] | Some c \<Rightarrow> list_record x c, w)"
  by (auto simp: list_one_def list_record_def run_bind split: option.split sum.split)

lemma list_record_Inr:
  assumes "list_record x c = Inr is"
  shows "i \<in> set is \<longleftrightarrow> read_record x c = Inr (Some i)"
  using assms by (auto simp: list_record_def read_record_def split: sum.splits option.splits)

text \<open>A loop whose body reads and does not write collects the results, or stops at the first error.\<close>

lemma mapP_reads_Inr:
  assumes "\<And>f w. m f w = (g w f, w)"
  shows "mapP m fs w = (Inr rs, w') \<longleftrightarrow> w' = w \<and> list_all2 (\<lambda>f r. g w f = Inr r) fs rs"
proof (induction fs arbitrary: rs)
  case (Cons f fs)
  then show ?case by (cases rs) (auto simp: bind_Inr_iff assms)
qed auto

lemma mapP_reads_Inl:
  assumes "\<And>f w. m f w = (g w f, w)"
  shows "mapP m fs w = (Inl e, w') \<Longrightarrow> w' = w \<and> (\<exists>f \<in> set fs. g w f = Inl e)"
  by (induction fs) (auto simp: bind_Inl_iff assms)

lemma mapP_reads_total:
  assumes "\<And>f w. m f w = (g w f, w)" and "f \<in> set fs" and "g w f = Inl e"
  shows "\<exists>e'. mapP m fs w = (Inl e', w)"
  using assms(2,3)
proof (induction fs)
  case (Cons h fs)
  show ?case
  proof (cases "g w h")
    case (Inl e1)
    then show ?thesis by (auto simp: run_bind assms(1))
  next
    case (Inr r)
    with Cons obtain e' where "mapP m fs w = (Inl e', w)" by fastforce
    with Inr show ?thesis using assms(1) [of h w] by (simp add: run_bind)
  qed
qed simp

lemma store_list_run:
  assumes "store_list x w = (r, w')"
  shows "w' = w"
    and "r = Inr is \<Longrightarrow> \<exists>rs. is = concat rs \<and>
      list_all2 (\<lambda>f r. (case map_of (w_insts w) f of None \<Rightarrow> Inr [] | Some c \<Rightarrow> list_record x c) = Inr r)
        (yaml_files (w_insts w)) rs"
    and "r = Inl e \<Longrightarrow> \<exists>f \<in> set (yaml_files (w_insts w)). \<exists>c. map_of (w_insts w) f = Some c \<and> list_record x c = Inl e"
proof -
  let ?g = "\<lambda>w f. case map_of (w_insts w) f of None \<Rightarrow> Inr [] | Some c \<Rightarrow> list_record x c"
  note reads = mapP_reads_Inr [of "list_one x" ?g, OF list_one_run] mapP_reads_Inl [of "list_one x" ?g, OF list_one_run]
  show "w' = w"
    using assms reads by (cases r) (auto simp: store_list_def bind_Inr_iff bind_Inl_iff)
  show "\<exists>rs. is = concat rs \<and> list_all2 (\<lambda>f r. ?g w f = Inr r) (yaml_files (w_insts w)) rs" if "r = Inr is"
    using assms reads(1) that by (auto simp: store_list_def bind_Inr_iff)
  show "\<exists>f \<in> set (yaml_files (w_insts w)). \<exists>c. map_of (w_insts w) f = Some c \<and> list_record x c = Inl e" if "r = Inl e"
    using assms reads(2) that
    by (auto simp: store_list_def bind_Inl_iff split: option.splits) (metis (lifting) Inr_Inl_False not_Some_eq option.simps(4,5))
qed

section \<open>The store keeps its contract\<close>

text \<open>An instance is storable if it is valid and PyYAML reads its dump back.\<close>

definition storable :: "('g, 'd) ext \<Rightarrow> inst \<Rightarrow> bool" where
  "storable x i = (inst_errors i = [] \<and> x_load x (universal_newlines (x_dump x (model_dump i))) = Inr (model_dump i))"

lemma valid_name_safe:
  assumes "inst_errors i = []"
  shows "\<not> unsafe_name (i_name i)"
proof -
  have "re_test name_re (i_name i)" using assms by (simp add: inst_valid_iff)
  from name_no_sep [OF this] name_ne [OF this] show ?thesis
    by (auto simp: unsafe_name_def dest!: sublist_in)
qed

lemma read_dump:
  assumes "storable x i"
  shows "read_record x (Text (x_dump x (model_dump i))) = Inr (Some i)"
proof -
  obtain d where d: "model_dump i = PDict d" by (simp add: model_dump_def)
  with assms inst_of_dump [OF d] show ?thesis
    by (simp add: storable_def read_record_def load_record_def read_content_def)
qed

lemma put_look_inst:
  assumes "storable x i" and "store_put x i w = (r, w')"
  shows "look_inst x w' = (look_inst x w)(i_name i := Inr (Some i))"
proof -
  have safe: "\<not> unsafe_name (i_name i)" using assms(1) valid_name_safe by (simp add: storable_def)
  from put_run(1) [OF assms(2) safe] safe show ?thesis
    by (auto simp: look_inst_def update_conv' read_dump [OF assms(1)])
qed

lemma yaml_not_prev: "m @ ''.yaml'' \<noteq> n @ ''.prev''"
proof
  assume "m @ ''.yaml'' = n @ ''.prev''"
  then have "last (m @ ''.yaml'') = last (n @ ''.prev'')" by (rule arg_cong)
  then show False by simp
qed

lemma delete_look_inst:
  assumes "store_delete x n w = (r, w')" and "r \<noteq> Inl ValueErr"
  shows "look_inst x w' = (look_inst x w)(n := Inr None)"
proof -
  have safe: "\<not> unsafe_name n" using assms delete_unsafe [of n x w] by auto
  have "m @ ''.yaml'' \<noteq> n @ ''.prev''" for m using yaml_not_prev by blast
  with delete_run(1) [OF assms(1) safe] safe show ?thesis
    by (auto simp: look_inst_def)
qed

lemma store_put_raises:
  assumes "storable x i" and "store_put x i w = (Inl e, w')"
  shows "e = StoreErr"
  using put_run(4) [OF assms(2)] valid_name_safe assms(1) by (auto simp: storable_def)

lemma store_delete_raises:
  "store_delete x n w = (Inl e, w') \<Longrightarrow> e = StoreErr \<or> e = ValueErr \<and> w' = w"
  using delete_run(4) [of x n w "Inl e" w'] delete_unsafe [of n x w] by auto

interpretation yaml: instance_store "store_put x" "store_get x" "store_delete x" "look_inst x" "storable x"
  for x :: "('g, 'd) ext"
  by unfold_locales
    (fact store_get_run put_look_inst delete_look_inst store_put_raises store_delete_raises)+

section \<open>The change log is loud\<close>

text \<open>A git command that changes something carries the identity; it was taken if it exited with 0.\<close>

definition git_taken :: "call \<Rightarrow> bool" where
  "git_taken c = (case c of CGit args code \<Rightarrow> prefix GIT_IDENT args \<longrightarrow> code = Some 0 | _ \<Rightarrow> True)"

text \<open>A program that ends well exactly if git took every change it was given.\<close>

definition loud :: "('g, 'd, 'a) run \<Rightarrow> bool" where
  "loud m \<longleftrightarrow> (\<forall>w r w'. m w = (r, w') \<longrightarrow>
     (\<exists>cs. w_log w' = w_log w @ cs \<and> (isl r \<longleftrightarrow> \<not> list_all git_taken cs)))"

lemma loud_return: "loud (returnP a)"
  by (simp add: loud_def)

lemma loud_if: "loud m \<Longrightarrow> loud n \<Longrightarrow> loud (if b then m else n)"
  by simp

lemma loud_bind:
  assumes "loud m" and "\<And>a. loud (f a)"
  shows "loud (bindP m f)"
  unfolding loud_def
proof (intro allI impI)
  fix w r w'
  assume run: "bindP m f w = (r, w')"
  obtain q w1 where m: "m w = (q, w1)" by (cases "m w")
  then obtain cs where cs: "w_log w1 = w_log w @ cs" "isl q \<longleftrightarrow> \<not> list_all git_taken cs"
    using assms(1) unfolding loud_def by blast
  show "\<exists>cs. w_log w' = w_log w @ cs \<and> (isl r \<longleftrightarrow> \<not> list_all git_taken cs)"
  proof (cases q)
    case (Inl e)
    with run m cs show ?thesis by (auto simp: run_bind)
  next
    case (Inr a)
    then have "f a w1 = (r, w')" using run m by (simp add: run_bind)
    then obtain ds where "w_log w' = w_log w1 @ ds" "isl r \<longleftrightarrow> \<not> list_all git_taken ds"
      using assms(2) [of a] unfolding loud_def by blast
    with cs Inr show ?thesis by auto
  qed
qed

lemma loud_query:
  "\<not> prefix GIT_IDENT args \<Longrightarrow> loud (run_git x args)"
  by (auto simp: loud_def run_git_def git_taken_def split: prod.splits)

lemma loud_in_git_repo: "loud (in_git_repo x)"
  unfolding in_git_repo_def
  by (intro loud_bind loud_return loud_query) (simp add: GIT_IDENT_def)

lemma loud_change:
  "loud (bindP (run_git x (GIT_IDENT @ args)) (\<lambda>r. case r of
     None \<Rightarrow> raiseP StoreErr
   | Some (code, out, err) \<Rightarrow> if code \<noteq> 0 then raiseP StoreErr else returnP ()))"
  by (auto simp: loud_def run_bind run_git_def git_taken_def split: prod.splits option.splits if_splits)

lemma loud_git_cmd: "loud (git_cmd x args)"
  unfolding git_cmd_def by (intro loud_bind loud_in_git_repo loud_if loud_return loud_change)

lemma loud_git_commit: "loud (git_commit x msg file)"
proof -
  have "loud (git_ok x [''diff'', ''--cached'', ''--quiet'', ''--'', file])"
    unfolding git_ok_def by (intro loud_bind loud_return loud_query) (simp add: GIT_IDENT_def)
  then show ?thesis
    unfolding git_commit_def by (intro loud_bind loud_in_git_repo loud_if loud_return loud_git_cmd)
qed

lemma loud_upd: "(\<And>w. w_log (f w) = w_log w) \<Longrightarrow> loud (updP f)"
  by (simp add: loud_def)

lemma loud_put: "\<not> unsafe_name (i_name i) \<Longrightarrow> loud (store_put x i)"
  unfolding store_put_def store_file_def write_inst_file_def
  by (simp only: if_False bind_lift_Inr) (intro loud_bind loud_git_cmd loud_git_commit loud_upd, simp)

section \<open>Properties\<close>

text \<open>A directory with two records: \<open>a\<close> and \<open>a-b\<close>, both of the sample instance's contents.\<close>

definition inst_a :: inst where
  "inst_a = sample_inst \<lparr> i_name := ''a'' \<rparr>"

definition inst_ab :: inst where
  "inst_ab = sample_inst \<lparr> i_name := ''a-b'' \<rparr>"

definition store_book :: "string \<Rightarrow> pyval option" where
  "store_book s = find (\<lambda>v. name_of_val v = s) (map model_dump [sample_inst, inst_a, inst_ab])"

definition no_attrs :: "string \<Rightarrow> (pyval \<times> pyval) list" where
  "no_attrs img = []"

definition store_rules :: sim_rules where
  "store_rules = \<lparr> u_book = store_book, u_attrs = no_attrs, u_broken = [] \<rparr>"

abbreviation store_ext :: "(unit, sim) ext" where
  "store_ext \<equiv> sim_ext store_rules"

definition two_records :: "(unit, sim) world" where
  "two_records = \<lparr>
     w_insts = [(''a.yaml'', Text (name_of_val (model_dump inst_a))),
                (''a-b.yaml'', Text (name_of_val (model_dump inst_ab))),
                (''a.prev'', Text ''old'')],
     w_git = (), w_fs = [],
     w_dk = \<lparr> d_containers = [], d_volumes = [], d_clock = 0 \<rparr>, w_log = [] \<rparr>"

lemma sample_storable: "storable store_ext sample_inst"
  using sample_inst_valid
  by (simp add: storable_def) code_simp

text \<open>
  C7: What was put is what is read. After \<open>put\<close> of a valid instance, \<open>get\<close> of its name gives exactly
  that instance, \<open>get\<close> of any other name gives what it gave before, and neither the rest of the file
  system nor the engine changed. This holds even when \<open>put\<close> raised; and then it raised \<open>StoreError\<close>.
\<close>

theorem store_put_get:
  assumes "storable x i" and "store_put x i w = (r, w')"
  shows "fst (store_get x (i_name i) w') = Inr (Some i)
    \<and> (\<forall>n. n \<noteq> i_name i \<longrightarrow> fst (store_get x n w') = fst (store_get x n w))
    \<and> w_fs w' = w_fs w \<and> w_dk w' = w_dk w \<and> r \<in> {Inr (), Inl StoreErr}"
proof -
  have "\<not> unsafe_name (i_name i)" using assms(1) valid_name_safe by (simp add: storable_def)
  from put_run(2-4) [OF assms(2) this] show ?thesis
    using yaml.get_after_put [OF assms] yaml.get_other_after_put [OF assms] by (simp add: store_get_run)
qed

theorem store_put_get_witness:
  "\<exists>r w'. store_put store_ext sample_inst two_records = (r, w')
    \<and> fst (store_get store_ext ''default-school'' w') = Inr (Some sample_inst)
    \<and> fst (store_get store_ext ''a'' w') = fst (store_get store_ext ''a'' two_records)"
proof -
  obtain r w' where "store_put store_ext sample_inst two_records = (r, w')" by fastforce
  with store_put_get [OF sample_storable this] show ?thesis by (auto simp: sample_inst_def)
qed

text \<open>
  A deleted instance is gone. After a \<open>delete\<close> that did not refuse the name, \<open>get\<close> gives \<open>None\<close>, the
  record and the rollback pointer \<open>.prev\<close> of that name are no longer files, and every other file of the
  directory is as it was; even if git then refused the removal.
\<close>

theorem store_delete_gone:
  assumes "store_delete x n w = (r, w')" and "r \<noteq> Inl ValueErr"
  shows "fst (store_get x n w') = Inr None
    \<and> map_of (w_insts w') (n @ ''.yaml'') = None \<and> map_of (w_insts w') (n @ ''.prev'') = None
    \<and> (\<forall>f. f \<notin> {n @ ''.yaml'', n @ ''.prev''} \<longrightarrow> map_of (w_insts w') f = map_of (w_insts w) f)"
proof -
  have "\<not> unsafe_name n" using assms delete_unsafe [of n x w] by auto
  with delete_run(1) [OF assms(1) this] delete_look_inst [OF assms] show ?thesis
    by (auto simp: store_get_run)
qed

theorem store_delete_gone_witness:
  "\<exists>w'. store_delete store_ext ''a'' two_records = (Inr (), w')
    \<and> map_of (w_insts two_records) ''a.prev'' \<noteq> None \<and> map_of (w_insts w') ''a.prev'' = None
    \<and> map_of (w_insts w') ''a-b.yaml'' \<noteq> None"
proof -
  obtain w' where run: "store_delete store_ext ''a'' two_records = (Inr (), w')"
  proof -
    have "case store_delete store_ext ''a'' two_records of (r, _) \<Rightarrow> r = Inr ()" by code_simp
    with that show thesis by (auto split: prod.splits)
  qed
  from store_delete_gone [OF this] have "map_of (w_insts w') ''a.prev'' = None"
    and "map_of (w_insts w') ''a-b.yaml'' = map_of (w_insts two_records) ''a-b.yaml''" by simp_all
  with run show ?thesis by (simp add: two_records_def)
qed


text \<open>In the witness git refuses every commit, and \<open>put\<close> says so.\<close>

definition refusing_git :: "string list \<Rightarrow> (string \<times> content) list \<Rightarrow> unit \<Rightarrow> (int \<times> string \<times> string) option \<times> unit" where
  "refusing_git args files g =
     (if prefix (GIT_IDENT @ [''commit'']) args then Some (1, '''', ''refused'') else sim_git args, g)"

definition refusing_ext :: "(unit, sim) ext" where
  "refusing_ext = store_ext \<lparr> x_git := refusing_git \<rparr>"


lemma yaml_files_set: "f \<in> set (yaml_files d) \<longleftrightarrow> f \<in> fst ` set d \<and> suffix ''.yaml'' f"
  by (auto simp: yaml_files_def)

lemma yaml_files_map: "map_of d f = Some c \<Longrightarrow> suffix ''.yaml'' f \<Longrightarrow> f \<in> set (yaml_files d)"
  by (force simp: yaml_files_set dest: map_of_SomeD)

lemma inst_of_val_valid: "inst_of_val lax d = Inr i \<Longrightarrow> inst_errors i = []"
  by (auto simp: inst_of_val_def model_validate_def split: if_splits option.splits)

lemma read_record_valid: "read_record x c = Inr (Some i) \<Longrightarrow> inst_errors i = []"
  unfolding read_record_def using inst_of_val_valid
  by (cases "load_record x c") (auto split: option.splits simp: map_sum_def split: sum.splits)

lemma list_all2_concat_set:
  assumes "list_all2 (\<lambda>f r. g f = Inr r) fs rs"
  shows "i \<in> set (concat rs) \<longleftrightarrow> (\<exists>f \<in> set fs. \<exists>is. g f = Inr is \<and> i \<in> set is)"
  using assms by (induction rule: list_all2_induct) auto

lemma list_all2_each: "list_all2 (\<lambda>f r. g f = Inr r) fs rs \<Longrightarrow> f \<in> set fs \<Longrightarrow> \<exists>r. g f = Inr r"
  by (induction rule: list_all2_induct) auto

lemma list_in_iff:
  assumes "store_list x w = (Inr is, w')"
  shows "i \<in> set is \<longleftrightarrow>
    (\<exists>f c. suffix ''.yaml'' f \<and> map_of (w_insts w) f = Some c \<and> read_record x c = Inr (Some i))"
proof -
  let ?g = "\<lambda>f. case map_of (w_insts w) f of None \<Rightarrow> Inr [] | Some c \<Rightarrow> list_record x c"
  obtain rs where rs: "is = concat rs" "list_all2 (\<lambda>f r. ?g f = Inr r) (yaml_files (w_insts w)) rs"
    using store_list_run(2) [OF assms] by auto
  have mem: "i \<in> set is \<longleftrightarrow> (\<exists>f \<in> set (yaml_files (w_insts w)). \<exists>js. ?g f = Inr js \<and> i \<in> set js)"
    unfolding rs(1) by (rule list_all2_concat_set [OF rs(2)])
  have all: "\<exists>js. ?g f = Inr js" if "f \<in> set (yaml_files (w_insts w))" for f
    using list_all2_each [OF rs(2) that] .
  show ?thesis
  proof
    assume "i \<in> set is"
    then obtain f js where f: "f \<in> set (yaml_files (w_insts w))" "?g f = Inr js" "i \<in> set js"
      using mem by blast
    then obtain c where "map_of (w_insts w) f = Some c" "list_record x c = Inr js"
      by (auto split: option.splits)
    with f show "\<exists>f c. suffix ''.yaml'' f \<and> map_of (w_insts w) f = Some c \<and> read_record x c = Inr (Some i)"
      by (auto simp: yaml_files_set list_record_Inr)
  next
    assume "\<exists>f c. suffix ''.yaml'' f \<and> map_of (w_insts w) f = Some c \<and> read_record x c = Inr (Some i)"
    then obtain f c where f: "suffix ''.yaml'' f" "map_of (w_insts w) f = Some c" "read_record x c = Inr (Some i)"
      by blast
    then have y: "f \<in> set (yaml_files (w_insts w))" by (intro yaml_files_map)
    with all obtain js where js: "?g f = Inr js" by blast
    with f have "list_record x c = Inr js" by simp
    with f(3) have "i \<in> set js" by (simp add: list_record_Inr)
    with y js mem show "i \<in> set is" by blast
  qed
qed

text \<open>
  C38: \<open>list\<close> and \<open>get\<close> see the same instances. Where \<open>list\<close> answers, it changed nothing; a name whose
  record \<open>get\<close> reads is in the answer, and each instance of the answer is the content of one \<open>.yaml\<close> file
  and is valid.
\<close>

theorem store_list_get:
  assumes "store_list x w = (Inr is, w')"
  shows "w' = w
    \<and> (\<forall>n i. fst (store_get x n w) = Inr (Some i) \<longrightarrow> i \<in> set is)
    \<and> (\<forall>i \<in> set is. inst_errors i = [] \<and>
         (\<exists>f c. suffix ''.yaml'' f \<and> map_of (w_insts w) f = Some c \<and> read_record x c = Inr (Some i)))"
proof (intro conjI allI impI ballI)
  show "w' = w" by (rule store_list_run(1) [OF assms])
next
  fix n i
  assume "fst (store_get x n w) = Inr (Some i)"
  then obtain c where "map_of (w_insts w) (n @ ''.yaml'') = Some c" "read_record x c = Inr (Some i)"
    by (auto simp: store_get_run look_inst_def split: if_splits option.splits)
  then show "i \<in> set is" unfolding list_in_iff [OF assms] by (auto simp: suffix_def)
next
  fix i assume i: "i \<in> set is"
  then show "\<exists>f c. suffix ''.yaml'' f \<and> map_of (w_insts w) f = Some c \<and> read_record x c = Inr (Some i)"
    unfolding list_in_iff [OF assms] .
  then show "inst_errors i = []" using read_record_valid by blast
qed

theorem store_list_get_witness:
  "\<exists>is. store_list store_ext two_records = (Inr is, two_records) \<and> inst_a \<in> set is"
proof -
  have "case store_list store_ext two_records of (r, w) \<Rightarrow> r = Inr [inst_ab, inst_a]" by code_simp
  then obtain w where run: "store_list store_ext two_records = (Inr [inst_ab, inst_a], w)"
    by (auto split: prod.splits)
  with store_list_get [OF run] show ?thesis by auto
qed

text \<open>
  The answer of \<open>list\<close> is not sorted by name, as its docstring says, but by file name: a name that
  continues a shorter one with a hyphen comes before the shorter one.
\<close>

theorem store_list_not_by_name:
  "fst (store_list store_ext two_records) = Inr [inst_ab, inst_a]
   \<and> \<not> sorted (map i_name [inst_ab, inst_a])"
  by (intro conjI; code_simp)

text \<open>
  An invalid record (a mapping whose values are no valid instance) is skipped by \<open>list\<close>, but makes
  \<open>get\<close> raise the validation error. A record whose bytes are not UTF-8 makes \<open>list\<close> raise as well, so it
  hides every other instance.
\<close>

theorem store_bad_records:
  assumes "\<not> unsafe_name n" and "map_of (w_insts w) (n @ ''.yaml'') = Some c"
  shows "(load_record x c = Inr (Some d) \<and> inst_of_val (x_int x) d = Inl e \<longrightarrow>
            store_get x n w = (Inl e, w) \<and> list_one x (n @ ''.yaml'') w = (Inr [], w))
       \<and> (c = Undecodable \<longrightarrow> (\<exists>e'. store_list x w = (Inl e', w)))"
proof (intro conjI impI)
  assume "load_record x c = Inr (Some d) \<and> inst_of_val (x_int x) d = Inl e"
  with assms show "store_get x n w = (Inl e, w)" and "list_one x (n @ ''.yaml'') w = (Inr [], w)"
    by (simp_all add: store_get_run look_inst_def read_record_def list_one_run list_record_def)
next
  assume "c = Undecodable"
  let ?g = "\<lambda>w f. case map_of (w_insts w) f of None \<Rightarrow> Inr [] | Some c \<Rightarrow> list_record x c"
  have "?g w (n @ ''.yaml'') = Inl UnicodeErr"
    using assms \<open>c = Undecodable\<close>
    by (simp add: list_record_def load_record_def read_content_def is_os_error_def is_api_error_def)
  moreover have "n @ ''.yaml'' \<in> set (yaml_files (w_insts w))"
    using assms(2) by (rule yaml_files_map) (simp add: suffix_def)
  ultimately obtain e' where "mapP (list_one x) (yaml_files (w_insts w)) w = (Inl e', w)"
    using mapP_reads_total [of "list_one x" ?g, OF list_one_run] by blast
  then show "\<exists>e'. store_list x w = (Inl e', w)"
    by (simp add: store_list_def run_bind)
qed

definition bad_records :: "(unit, sim) world" where
  "bad_records = two_records \<lparr> w_insts := (''z.yaml'', Undecodable) # w_insts two_records \<rparr>"

theorem store_bad_records_witness:
  "fst (store_get store_ext ''a'' bad_records) = Inr (Some inst_a) \<and>
   (\<exists>e'. store_list store_ext bad_records = (Inl e', bad_records))"
proof
  show "fst (store_get store_ext ''a'' bad_records) = Inr (Some inst_a)" by code_simp
  have "\<not> unsafe_name ''z''" by code_simp
  moreover have "map_of (w_insts bad_records) (''z'' @ ''.yaml'') = Some Undecodable"
    by (simp add: bad_records_def)
  ultimately show "\<exists>e'. store_list store_ext bad_records = (Inl e', bad_records)"
    using store_bad_records by blast
qed

end
