(* ===== verification/FileSys.thy ===== *)
theory FileSys
  imports World
begin

text \<open>
  The file system calls \<open>docker_service.py\<close> and \<open>ca.py\<close> make, on the tree of \<open>w_fs\<close>: a path is the list of its
  components below the root. \<open>realpath\<close> follows \<open>posixpath._joinrealpath\<close> with \<open>strict=False\<close>, symbolic
  links and loops of links included. Permissions are recorded, not enforced, and the kernel's limit on
  the number of links followed is not modelled.
\<close>

section \<open>Paths\<close>

definition comps :: "string \<Rightarrow> path" where
  "comps s = split_on (CHR ''/'') s"

definition path_str :: "path \<Rightarrow> string" where
  "path_str p = CHR ''/'' # join ''/'' p"

definition links_of :: "fs \<Rightarrow> path list" where
  "links_of fs = map fst (filter (\<lambda>(p, n). case n of FLink _ \<Rightarrow> True | _ \<Rightarrow> False) fs)"

definition is_abs :: "string \<Rightarrow> bool" where
  "is_abs s = prefix ''/'' s"

text \<open>
  \<open>_joinrealpath\<close>: \<open>avail\<close> are the links that are not being followed right now (the others have a
  \<open>None\<close> in \<open>seen\<close>); the flag is false where a loop of links was met.
\<close>

function joinrealpath :: "fs \<Rightarrow> path list \<Rightarrow> path \<Rightarrow> path \<Rightarrow> path \<times> bool" where
  "joinrealpath fs avail p [] = (p, True)"
| "joinrealpath fs avail p (name # rest) =
     (if name = '''' \<or> name = ''.'' then joinrealpath fs avail p rest
      else if name = ''..'' then joinrealpath fs avail (butlast p) rest
      else
        (case map_of fs (p @ [name]) of
           Some (FLink target) \<Rightarrow>
             if p @ [name] \<notin> set avail then (p @ [name] @ rest, False)
             else (case joinrealpath fs (remove1 (p @ [name]) avail)
                          (if is_abs target then [] else p) (comps target) of
                     (q, False) \<Rightarrow> (q @ rest, False)
                   | (q, True) \<Rightarrow> joinrealpath fs avail q rest)
         | _ \<Rightarrow> joinrealpath fs avail (p @ [name]) rest))"
  by pat_completeness auto
termination
  by (relation "measures [\<lambda>(fs, avail, p, rest). length avail, \<lambda>(fs, avail, p, rest). length rest]")
    (auto simp: length_remove1 dest: length_pos_if_in_set)

declare joinrealpath.simps [simp del]

definition norm_step :: "path \<Rightarrow> string \<Rightarrow> path" where
  "norm_step acc c = (if c = '''' \<or> c = ''.'' then acc else if c = ''..'' then butlast acc else acc @ [c])"

definition normpath :: "path \<Rightarrow> path" where
  "normpath p = foldl norm_step [] p"

definition realpath :: "fs \<Rightarrow> path \<Rightarrow> path" where
  "realpath fs p = normpath (fst (joinrealpath fs (links_of fs) [] p))"

definition join_path :: "path \<Rightarrow> string \<Rightarrow> path" where
  "join_path p s = (if is_abs s then comps s else p @ comps s)"

section \<open>Files and directories\<close>

text \<open>Modes: the one of a new directory, \<open>0o700\<close>, \<open>0o600\<close> and \<open>0o644\<close>.\<close>

definition mode_dir :: nat where "mode_dir = 7 * 64 + 5 * 8 + 5"
definition mode_700 :: nat where "mode_700 = 7 * 64"
definition mode_600 :: nat where "mode_600 = 6 * 64"
definition mode_644 :: nat where "mode_644 = 6 * 64 + 4 * 8 + 4"

text \<open>What a path leads to, links followed.\<close>

definition stat :: "fs \<Rightarrow> path \<Rightarrow> node option" where
  "stat fs p = (case joinrealpath fs (links_of fs) [] p of
     (q, ok) \<Rightarrow> if \<not> ok then None else if q = [] then Some (FDir 0) else map_of fs q)"

definition isfile :: "fs \<Rightarrow> path \<Rightarrow> bool" where
  "isfile fs p = (case stat fs p of Some (FFile _ _) \<Rightarrow> True | _ \<Rightarrow> False)"

definition isdir :: "fs \<Rightarrow> path \<Rightarrow> bool" where
  "isdir fs p = (case stat fs p of Some (FDir _) \<Rightarrow> True | _ \<Rightarrow> False)"

definition read_file :: "fs \<Rightarrow> path \<Rightarrow> pyerr + string" where
  "read_file fs p =
     (case stat fs p of
        None \<Rightarrow> Inl FileNotFound
      | Some (FFile c _) \<Rightarrow> read_content c
      | Some _ \<Rightarrow> Inl OSErr)"

text \<open>\<open>os.makedirs(p, exist_ok=True)\<close> of a resolved path: each missing directory is made.\<close>

fun make_dirs :: "fs \<Rightarrow> path \<Rightarrow> path \<Rightarrow> pyerr + fs" where
  "make_dirs fs at [] = Inr fs"
| "make_dirs fs at (c # cs) =
     (case map_of fs (at @ [c]) of
        None \<Rightarrow> make_dirs (AList.update (at @ [c]) (FDir mode_dir) fs) (at @ [c]) cs
      | Some (FDir _) \<Rightarrow> make_dirs fs (at @ [c]) cs
      | Some _ \<Rightarrow> Inl OSErr)"

definition chmod :: "path \<Rightarrow> nat \<Rightarrow> fs \<Rightarrow> fs" where
  "chmod p mode fs =
     (case map_of fs p of
        Some (FFile c _) \<Rightarrow> AList.update p (FFile c mode) fs
      | Some (FDir _) \<Rightarrow> AList.update p (FDir mode) fs
      | _ \<Rightarrow> fs)"

text \<open>\<open>open(p, O_WRONLY | O_CREAT | O_TRUNC, mode)\<close>, a write, \<open>chmod(p, mode)\<close>, through links.\<close>

definition write_mode :: "fs \<Rightarrow> path \<Rightarrow> content \<Rightarrow> nat \<Rightarrow> pyerr + fs" where
  "write_mode fs p c mode =
     (case joinrealpath fs (links_of fs) [] p of
        (_, False) \<Rightarrow> Inl OSErr
      | (q, True) \<Rightarrow>
          if q = [] then Inl OSErr
          else (case map_of fs q of
             Some (FDir _) \<Rightarrow> Inl OSErr
           | _ \<Rightarrow> if isdir fs (butlast q) then Inr (AList.update q (FFile c mode) fs)
                  else Inl FileNotFound))"

definition write_file :: "fs \<Rightarrow> path \<Rightarrow> string \<Rightarrow> pyerr + fs" where
  "write_file fs p text = write_mode fs p (Text text) mode_600"

text \<open>\<open>os.chmod(p, mode)\<close>, through links.\<close>

definition chmod_at :: "path \<Rightarrow> nat \<Rightarrow> fs \<Rightarrow> pyerr + fs" where
  "chmod_at p mode fs =
     (case joinrealpath fs (links_of fs) [] p of
        (_, False) \<Rightarrow> Inl OSErr
      | (q, True) \<Rightarrow> if q \<noteq> [] \<and> map_of fs q = None then Inl FileNotFound else Inr (chmod q mode fs))"

text \<open>
  \<open>os.mkdir(p)\<close> and \<open>os.makedirs(p, exist_ok=True)\<close> of any path, given from its last component
  upwards, without empty components. A directory made on the way stays empty if a later step raises only
  if a link leads nowhere; then none was made.
\<close>

definition mkdir :: "path \<Rightarrow> string \<Rightarrow> fs \<Rightarrow> pyerr + fs" where
  "mkdir head name fs =
     (case joinrealpath fs (links_of fs) [] head of
        (_, False) \<Rightarrow> Inl OSErr
      | (q, True) \<Rightarrow>
          if q \<noteq> [] \<and> map_of fs q = None then Inl FileNotFound
          else if \<not> isdir fs q then Inl OSErr
          else if name = ''.'' \<or> name = ''..'' \<or> map_of fs (q @ [name]) \<noteq> None then Inl FileExists
          else Inr (AList.update (q @ [name]) (FDir mode_dir) fs))"

definition mkdir_if_missing :: "path \<Rightarrow> string \<Rightarrow> fs \<Rightarrow> pyerr + fs" where
  "mkdir_if_missing head name fs =
     (case mkdir head name fs of
        Inl e \<Rightarrow> if isdir fs (head @ [name]) then Inr fs else Inl e
      | Inr fs' \<Rightarrow> Inr fs')"

primrec makedirs_up :: "path \<Rightarrow> fs \<Rightarrow> pyerr + fs" where
  "makedirs_up [] fs = Inr fs"
| "makedirs_up (name # up) fs =
     (if stat fs (rev up) \<noteq> None then mkdir_if_missing (rev up) name fs
      else (case makedirs_up up fs of
         Inl e \<Rightarrow> if e = FileExists then mkdir_if_missing (rev up) name fs else Inl e
       | Inr fs' \<Rightarrow> if name = ''.'' then Inr fs' else mkdir_if_missing (rev up) name fs'))"

definition makedirs :: "path \<Rightarrow> fs \<Rightarrow> pyerr + fs" where
  "makedirs p fs = makedirs_up (filter (\<lambda>c. c \<noteq> []) (rev p)) fs"

text \<open>\<open>os.remove(p)\<close> and \<open>os.rmdir(p)\<close> of a path in a resolved directory.\<close>

definition remove_file :: "path \<Rightarrow> fs \<Rightarrow> fs" where
  "remove_file p fs = AList.delete p fs"

definition remove_dir :: "path \<Rightarrow> fs \<Rightarrow> fs" where
  "remove_dir p fs = (if \<exists>q \<in> fst ` set fs. strict_prefix p q then fs else AList.delete p fs)"

section \<open>Staying below a directory\<close>

definition resolve_under :: "fs \<Rightarrow> path \<Rightarrow> string \<Rightarrow> pyerr + path" where
  "resolve_under fs root child =
     (let root_real = realpath fs root;
          target = realpath fs (join_path root_real child)
      in if longest_common_prefix root_real target \<noteq> root_real then Inl ValueErr else Inr target)"

lemma longest_common_prefix_eq: "longest_common_prefix p q = p \<longleftrightarrow> prefix p q"
  by (induction p q rule: longest_common_prefix.induct) auto

lemma resolve_under_below:
  "resolve_under fs root child = Inr p \<Longrightarrow> prefix (realpath fs root) p"
  by (auto simp: resolve_under_def Let_def longest_common_prefix_eq split: if_splits)

lemma resolve_under_raises: "resolve_under fs root child = Inl e \<Longrightarrow> e = ValueErr"
  by (auto simp: resolve_under_def Let_def split: if_splits)

section \<open>Resolved paths\<close>

text \<open>Components that stand for themselves, and paths none of whose prefixes is a link.\<close>

definition plain :: "string \<Rightarrow> bool" where
  "plain s \<longleftrightarrow> s \<noteq> '''' \<and> s \<noteq> ''.'' \<and> s \<noteq> ''..''"

definition is_link :: "fs \<Rightarrow> path \<Rightarrow> bool" where
  "is_link fs p = (case map_of fs p of Some (FLink _) \<Rightarrow> True | _ \<Rightarrow> False)"

definition no_links :: "fs \<Rightarrow> path \<Rightarrow> bool" where
  "no_links fs p \<longleftrightarrow> (\<forall>q. prefix q p \<and> q \<noteq> [] \<longrightarrow> \<not> is_link fs q)"

lemma no_links_Nil [simp]: "no_links fs []"
  by (simp add: no_links_def)

lemma no_links_snoc: "no_links fs (p @ [n]) \<longleftrightarrow> no_links fs p \<and> \<not> is_link fs (p @ [n])"
  by (auto simp: no_links_def)

lemma no_links_prefix: "no_links fs p \<Longrightarrow> prefix q p \<Longrightarrow> no_links fs q"
  using prefix_order.trans by (auto simp: no_links_def)

lemma no_links_butlast: "no_links fs p \<Longrightarrow> no_links fs (butlast p)"
  using no_links_prefix prefixeq_butlast by blast

lemma joinrealpath_resolved:
  "joinrealpath fs avail p rest = (q, True) \<Longrightarrow> no_links fs p \<Longrightarrow> list_all plain p \<Longrightarrow>
     no_links fs q \<and> list_all plain q"
proof (induction fs avail p rest arbitrary: q rule: joinrealpath.induct)
  case (1 fs avail p)
  then show ?case by (simp add: joinrealpath.simps)
next
  case (2 fs avail p name rest)
  consider "name = '''' \<or> name = ''.''" | "\<not> (name = '''' \<or> name = ''.'')" "name = ''..''" | "plain name"
    by (auto simp: plain_def)
  then show ?case
  proof cases
    case 1
    then have "joinrealpath fs avail p rest = (q, True)"
      using "2.prems"(1) by (simp add: joinrealpath.simps)
    then show ?thesis using "2.IH"(1) [OF 1] "2.prems" by blast
  next
    case dots: 2
    have "list_all plain (butlast p)" using "2.prems"(3) by (auto simp: list_all_iff dest: in_set_butlastD)
    moreover have "joinrealpath fs avail (butlast p) rest = (q, True)"
      using "2.prems"(1) dots by (simp add: joinrealpath.simps)
    ultimately show ?thesis using "2.IH"(2) [OF dots] "2.prems"(2) no_links_butlast by blast
  next
    case 3
    then have n: "\<not> (name = '''' \<or> name = ''.'')" "name \<noteq> ''..''" by (auto simp: plain_def)
    show ?thesis
    proof (cases "\<exists>t. map_of fs (p @ [name]) = Some (FLink t)")
      case True
      then obtain t where t: "map_of fs (p @ [name]) = Some (FLink t)" by blast
      obtain u ok where u: "joinrealpath fs (remove1 (p @ [name]) avail) (if is_abs t then [] else p) (comps t) = (u, ok)"
        by fastforce
      have av: "\<not> p @ [name] \<notin> set avail" and "ok" and next_run: "joinrealpath fs avail u rest = (q, True)"
        using "2.prems"(1) n t u by (auto simp: joinrealpath.simps split: if_splits prod.splits bool.splits)
      have "no_links fs (if is_abs t then [] else p)" "list_all plain (if is_abs t then [] else p)"
        using "2.prems" by simp_all
      with "2.IH"(6) [OF n t refl av] u \<open>ok\<close> have "no_links fs u \<and> list_all plain u" by simp
      with "2.IH"(7) [OF n t refl av] u \<open>ok\<close> next_run show ?thesis by simp
    next
      case False
      then have run: "joinrealpath fs avail (p @ [name]) rest = (q, True)"
        using "2.prems"(1) n by (auto simp: joinrealpath.simps split: option.splits node.splits)
      have "no_links fs (p @ [name])" "list_all plain (p @ [name])"
        using "2.prems" False 3 by (auto simp: no_links_snoc is_link_def split: option.splits node.splits)
      note ext = run this
      show ?thesis
      proof (cases "map_of fs (p @ [name])")
        case None
        from "2.IH"(3) [OF n None ext] show ?thesis .
      next
        case (Some nd)
        show ?thesis
        proof (cases nd)
          case (FFile a b)
          from "2.IH"(4) [OF n Some FFile ext] show ?thesis .
        next
          case (FDir a)
          from "2.IH"(5) [OF n Some FDir ext] show ?thesis .
        next
          case (FLink t)
          with Some False show ?thesis by blast
        qed
      qed
    qed
  qed
qed

lemma joinrealpath_fixed:
  "no_links fs (p @ rest) \<Longrightarrow> list_all plain rest \<Longrightarrow> joinrealpath fs avail p rest = (p @ rest, True)"
proof (induction rest arbitrary: p)
  case Nil
  then show ?case by (simp add: joinrealpath.simps)
next
  case (Cons n rest)
  then have "\<not> is_link fs (p @ [n])" by (auto simp: no_links_def)
  moreover have "joinrealpath fs avail (p @ [n]) rest = (p @ n # rest, True)"
    using Cons.IH [of "p @ [n]"] Cons.prems by simp
  ultimately show ?case
    using Cons.prems by (auto simp: joinrealpath.simps plain_def is_link_def split: option.splits node.splits)
qed

lemma normpath_plain: "list_all plain q \<Longrightarrow> normpath q = q"
proof -
  have "list_all plain q \<Longrightarrow> foldl norm_step acc q = acc @ q" for acc
    by (induction q arbitrary: acc) (auto simp: norm_step_def plain_def)
  then show "list_all plain q \<Longrightarrow> normpath q = q" by (simp add: normpath_def)
qed

text \<open>A path whose links do not loop resolves to one without links, and that one to itself.\<close>

definition resolves :: "fs \<Rightarrow> path \<Rightarrow> bool" where
  "resolves fs p \<longleftrightarrow> snd (joinrealpath fs (links_of fs) [] p)"

lemma realpath_resolved:
  assumes "resolves fs p"
  shows "no_links fs (realpath fs p)" and "list_all plain (realpath fs p)"
    and "realpath fs (realpath fs p) = realpath fs p"
proof -
  obtain q where q: "joinrealpath fs (links_of fs) [] p = (q, True)"
    using assms unfolding resolves_def by (metis prod.collapse)
  from joinrealpath_resolved [OF this] have r: "no_links fs q" "list_all plain q" by simp_all
  with q have e: "realpath fs p = q" by (simp add: realpath_def normpath_plain)
  from r have "realpath fs q = q"
    using joinrealpath_fixed [of fs "[]" q] by (simp add: realpath_def normpath_plain)
  with e r show "no_links fs (realpath fs p)" "list_all plain (realpath fs p)"
    "realpath fs (realpath fs p) = realpath fs p" by simp_all
qed

end
