(* ===== verification/Diagnostics.thy ===== *)
theory Diagnostics
  imports World
begin

text \<open>
  \<open>diagnostics.py\<close> and the pure parts of \<open>docker_service.py\<close>: what the output of \<open>wbinfo\<close> and
  \<open>ntlm_auth\<close> means, the runtime view of a container's inspect data, and the choice of the log line that
  is shown to the operator.
\<close>

section \<open>Verdicts on winbind\<close>

text \<open>The dash of two messages is outside Latin-1; it stands here as its UTF-8 bytes.\<close>

abbreviation DASH :: string where
  "DASH \<equiv> [CHR 0xE2, CHR 0x80, CHR 0x94]"

record trust_verdict =
  tr_ok :: bool
  tr_detail :: string

definition interpret_trust :: "int \<Rightarrow> string \<Rightarrow> trust_verdict" where
  "interpret_trust exit_code out =
     (let ok = (exit_code = 0 \<and> sublist ''succeeded'' (lower out));
          detail =
            (if ok then ''winbind trust to the DC is up (RPC calls succeeded)''
             else if sublist ''not_available'' (lower out) \<or> sublist ''not available'' (lower out)
             then ''winbind is not answering '' @ DASH @
               '' the container may still be starting, or the trust is broken''
             else ''winbind trust check FAILED '' @ DASH @
               '' machine account or DC connection is broken; try 'lmnradius restart''  @ [CHR 0x27])
      in \<lparr> tr_ok = ok, tr_detail = strip detail \<rparr>)"

record ntlm_verdict =
  nt_ok :: bool
  nt_code :: string
  nt_detail :: string

definition interpret_ntlm :: "int \<Rightarrow> string \<Rightarrow> ntlm_verdict" where
  "interpret_ntlm exit_code out =
     (let up = upper out in
      if exit_code = 0 \<or> sublist ''NT_STATUS_OK'' up then
        \<lparr> nt_ok = True, nt_code = ''NT_STATUS_OK'',
          nt_detail = ''password correct and group membership satisfied'' \<rparr>
      else if sublist ''WRONG_PASSWORD'' up then
        \<lparr> nt_ok = False, nt_code = ''NT_STATUS_WRONG_PASSWORD'', nt_detail = ''wrong password'' \<rparr>
      else if sublist ''NO_SUCH_USER'' up then
        \<lparr> nt_ok = False, nt_code = ''NT_STATUS_NO_SUCH_USER'', nt_detail = ''no such user in the domain'' \<rparr>
      else if sublist ''LOGON_FAILURE'' up then
        \<lparr> nt_ok = False, nt_code = ''NT_STATUS_LOGON_FAILURE'',
          nt_detail = ''password correct but NOT a member of the required group (or bad credentials)'' \<rparr>
      else if sublist ''WINBIND_NOT_AVAILABLE'' up \<or> sublist ''COULD NOT OBTAIN WINBIND'' up then
        \<lparr> nt_ok = False, nt_code = ''WINBIND_UNAVAILABLE'',
          nt_detail = ''winbind not answering '' @ DASH @ '' check trust first'' \<rparr>
      else
        \<lparr> nt_ok = False, nt_code = ''ERROR'',
          nt_detail = take 200 (if strip out \<noteq> [] then splitlines (strip out) ! 0
                                else ''unknown ntlm_auth error'') \<rparr>)"

section \<open>The runtime view of a container\<close>

text \<open>
  \<open>int(s)\<close> of a text. A text of ASCII only is stripped of C white space; in another one every white
  space character first becomes a space. Underscores may stand between digits, of which at most 4300 are
  converted.
\<close>

definition c_space :: "char \<Rightarrow> bool" where
  "c_space c = (c \<in> {CHR 0x09, CHR 0x0A, CHR 0x0B, CHR 0x0C, CHR 0x0D, CHR 0x20})"

definition int_text :: "string \<Rightarrow> string" where
  "int_text s =
     (let t = (if list_all (\<lambda>c. c < CHR 0x80) s then s
               else map (\<lambda>c. if is_space c then CHR '' '' else c) s)
      in rstrip_by c_space (dropWhile c_space t))"

definition py_digits :: "string \<Rightarrow> int option" where
  "py_digits s =
     (let parts = split_on (CHR ''_'') s in
      if list_all (\<lambda>p. p \<noteq> [] \<and> list_all is_digit p) parts then Some (digits_val (concat parts)) else None)"

definition py_int :: "string \<Rightarrow> int option" where
  "py_int s =
     (case int_text s of
        [] \<Rightarrow> None
      | c # r \<Rightarrow> if c = CHR ''-'' then map_option uminus (py_digits r)
                else if c = CHR ''+'' then py_digits r else py_digits (c # r))"

record view =
  vw_running :: bool
  vw_health :: "string option"
  vw_restart_count :: int
  vw_crash_looping :: bool
  vw_exit_code :: "pyval option"

text \<open>\<open>int(v or 0)\<close>, with 0 in place of a \<open>TypeError\<close> or \<open>ValueError\<close>.\<close>

definition restart_count :: "pyval option \<Rightarrow> int" where
  "restart_count v =
     (case v of
        Some (PInt n) \<Rightarrow> n
      | Some (PBool b) \<Rightarrow> of_bool b
      | Some (PStr s) \<Rightarrow> (case py_int s of Some n \<Rightarrow> n | None \<Rightarrow> 0)
      | _ \<Rightarrow> 0)"

definition flag :: "(pyval \<times> pyval) list \<Rightarrow> string \<Rightarrow> bool" where
  "flag d k = (case dget d k of None \<Rightarrow> False | Some v \<Rightarrow> truthy v)"

text \<open>
  The exit code is what \<open>state.get("ExitCode")\<close> gives, \<open>PNone\<close> if it is missing, and there only if the
  container does not run. A \<open>State\<close> that is neither empty nor a mapping has no \<open>get\<close>.
\<close>

definition state_view :: "(pyval \<times> pyval) list \<Rightarrow> pyerr + view" where
  "state_view attrs =
     (let state = (case dget attrs ''State'' of
                     None \<Rightarrow> Inr []
                   | Some (PDict d) \<Rightarrow> Inr d
                   | Some v \<Rightarrow> if truthy v then Inl OtherErr else Inr [])
      in bindE state (\<lambda>st.
        let health = (case dget st ''Health'' of
                        Some (PDict h) \<Rightarrow> (case dget h ''Status'' of Some (PStr s) \<Rightarrow> Some s | _ \<Rightarrow> None)
                      | _ \<Rightarrow> None);
            restarting = flag st ''Restarting'';
            running = (flag st ''Running'' \<and> \<not> restarting);
            count = restart_count (dget attrs ''RestartCount'')
        in Inr \<lparr> vw_running = running, vw_health = health, vw_restart_count = count,
                 vw_crash_looping = (restarting \<or> count > 0 \<and> health \<noteq> Some ''healthy''),
                 vw_exit_code = (if running then None
                                 else Some (case dget st ''ExitCode'' of None \<Rightarrow> PNone | Some v \<Rightarrow> v)) \<rparr>))"

section \<open>Log lines\<close>

primrec pick_marked :: "string list \<Rightarrow> string list \<Rightarrow> string" where
  "pick_marked lines [] = strip (last (if lines = [] then [''(no log output)''] else lines))"
| "pick_marked lines (marker # ms) =
     (let hits = filter (sublist marker) lines in
      if hits \<noteq> [] then strip (last hits) else pick_marked lines ms)"

definition pick_error_line :: "string list \<Rightarrow> string" where
  "pick_error_line lines = pick_marked lines [''FATAL'', ''Error:'', ''LOG3['']"

text \<open>\<open>_tail\<close>: the last eight lines.\<close>

definition tail_lines :: "string \<Rightarrow> string" where
  "tail_lines data = (let ls = splitlines (strip data) in join [LF] (drop (length ls - 8) ls))"

section \<open>Facts about lines\<close>

lemma break_space: "is_line_break c \<Longrightarrow> is_space c"
  by (auto simp: is_line_break_def is_space_def in_range_def less_eq_char_def)

lemma lines_from_no_break:
  "list_all (\<lambda>c. \<not> is_line_break c) cur \<Longrightarrow> l \<in> set (lines_from cur s) \<Longrightarrow> list_all (\<lambda>c. \<not> is_line_break c) l"
proof (induction cur s arbitrary: l rule: lines_from.induct)
  case (3 cur c d s)
  show ?case
  proof (cases "c = CR \<and> d = LF")
    case True
    then show ?thesis using 3(1) [OF True, of l] "3.prems" by (auto simp: list_all_rev)
  next
    case False
    show ?thesis
    proof (cases "is_line_break c")
      case True
      then show ?thesis using 3(2) [OF False True, of l] "3.prems" False by (auto simp: list_all_rev)
    next
      case brk: False
      then show ?thesis using 3(3) [OF False brk, of l] "3.prems" False by simp
    qed
  qed
qed (auto simp: list_all_rev split: if_splits)

lemma lines_from_first: "cur \<noteq> [] \<Longrightarrow> lines_from cur s \<noteq> [] \<and> hd (lines_from cur s) \<noteq> []"
  by (induction cur s rule: lines_from.induct) auto

lemma splitlines_first:
  assumes "s \<noteq> []" and "\<not> is_line_break (hd s)"
  shows "splitlines s \<noteq> []" and "splitlines s ! 0 \<noteq> []"
proof -
  obtain c r where s: "s = c # r" using assms(1) by (cases s) auto
  with assms(2) have c: "\<not> is_line_break c" by simp
  have "splitlines s \<noteq> [] \<and> hd (splitlines s) \<noteq> []"
  proof (cases r)
    case Nil
    with s c show ?thesis by (simp add: splitlines_def)
  next
    case (Cons d t)
    have "CR \<noteq> c" using c by (auto simp: is_line_break_def in_range_def)
    with s c Cons lines_from_first [of "[c]" r] show ?thesis by (simp add: splitlines_def)
  qed
  then show "splitlines s \<noteq> []" and "splitlines s ! 0 \<noteq> []" by (auto simp: hd_conv_nth [symmetric])
qed

lemma strip_first:
  assumes "strip s \<noteq> []"
  shows "\<not> is_space (hd (strip s))"
proof -
  let ?t = "dropWhile is_space s"
  have "?t \<noteq> []" using assms by (metis rstrip_Nil strip_def)
  then obtain c r where t: "?t = c # r" by (cases ?t) auto
  then have "\<not> is_space c" by (simp add: dropWhile_eq_Cons_conv)
  then show ?thesis using rstrip_keep [of is_space c "[]" r] t by (simp add: strip_def)
qed

lemma first_line:
  assumes "strip s \<noteq> []"
  shows "splitlines (strip s) ! 0 \<noteq> []" and "list_all (\<lambda>c. \<not> is_line_break c) (splitlines (strip s) ! 0)"
proof -
  have h: "\<not> is_line_break (hd (strip s))" using strip_first [OF assms] break_space by blast
  show "splitlines (strip s) ! 0 \<noteq> []" by (rule splitlines_first(2) [OF assms h])
  have "splitlines (strip s) ! 0 \<in> set (splitlines (strip s))"
    using splitlines_first(1) [OF assms h] by (simp add: nth_mem)
  then show "list_all (\<lambda>c. \<not> is_line_break c) (splitlines (strip s) ! 0)"
    unfolding splitlines_def by (rule lines_from_no_break [rotated]) simp
qed

lemma last_split:
  "xs \<noteq> [] \<Longrightarrow> filter P xs \<noteq> [] \<Longrightarrow> \<exists>us vs. xs = us @ last (filter P xs) # vs \<and> P (last (filter P xs)) \<and> (\<forall>v \<in> set vs. \<not> P v)"
proof (induction xs rule: rev_induct)
  case (snoc x xs)
  show ?case
  proof (cases "P x")
    case True
    then show ?thesis by (intro exI [of _ xs] exI [of _ "[]"]) simp
  next
    case False
    with snoc obtain us vs where
      "xs = us @ last (filter P xs) # vs" "P (last (filter P xs))" "\<forall>v \<in> set vs. \<not> P v"
      by (cases "xs = []") auto
    with False show ?thesis by (intro exI [of _ us] exI [of _ "vs @ [x]"]) auto
  qed
qed simp

section \<open>Properties\<close>

text \<open>A text fit for one line of a terminal.\<close>

definition one_line :: "string \<Rightarrow> bool" where
  "one_line s = (s \<noteq> [] \<and> length s \<le> 200 \<and> list_all (\<lambda>c. \<not> is_line_break c) s)"

lemma one_line_take:
  assumes "s \<noteq> []" and "list_all (\<lambda>c. \<not> is_line_break c) s"
  shows "one_line (take 200 s)"
proof -
  have "list_all (\<lambda>c. \<not> is_line_break c) (take 200 s)"
    using assms(2) set_take_subset [of 200 s] unfolding list_all_iff by blast
  with assms(1) show ?thesis by (simp add: one_line_def)
qed

lemma one_line_details:
  "one_line ''password correct and group membership satisfied''" "one_line ''wrong password''"
  "one_line ''no such user in the domain''"
  "one_line ''password correct but NOT a member of the required group (or bad credentials)''"
  "one_line (''winbind not answering '' @ DASH @ '' check trust first'')"
  "one_line (take 200 ''unknown ntlm_auth error'')"
  by code_simp+

lemma if_prop: "(b \<Longrightarrow> P x) \<Longrightarrow> (\<not> b \<Longrightarrow> P y) \<Longrightarrow> P (if b then x else y)"
  by simp

lemma one_line_ntlm: "one_line (nt_detail (interpret_ntlm exit_code out))"
proof -
  have "one_line (take 200 (if strip out \<noteq> [] then splitlines (strip out) ! 0 else ''unknown ntlm_auth error''))"
    by (rule if_prop [where P = "\<lambda>l. one_line (take 200 l)"])
      (rule one_line_take, rule first_line, assumption, rule first_line, assumption, rule one_line_details)
  with one_line_details show ?thesis
    unfolding interpret_ntlm_def Let_def
    by (intro if_prop [where P = "\<lambda>v. one_line (nt_detail v)"]) (simp_all only: ntlm_verdict.select_convs)
qed

text \<open>
  The verdict on a login is one line fit for a terminal. Whatever \<open>ntlm_auth\<close> printed, nothing is
  raised (the index of the first line is in range), and the detail is not empty, holds no line break and
  has at most 200 characters. The login counts as good only if the tool exited with 0 or printed
  \<open>NT_STATUS_OK\<close>.
\<close>

theorem ntlm_verdict_line:
  "let v = interpret_ntlm exit_code out in
     nt_detail v \<noteq> [] \<and> length (nt_detail v) \<le> 200 \<and> list_all (\<lambda>c. \<not> is_line_break c) (nt_detail v)
     \<and> (strip out = [] \<or> 0 < length (splitlines (strip out)))
     \<and> nt_ok v = (exit_code = 0 \<or> sublist ''NT_STATUS_OK'' (upper out))"
proof -
  have "strip out = [] \<or> splitlines (strip out) \<noteq> []"
    using splitlines_first(1) [of "strip out"] strip_first [of out] break_space by blast
  moreover have "nt_ok (interpret_ntlm exit_code out) = (exit_code = 0 \<or> sublist ''NT_STATUS_OK'' (upper out))"
    by (simp add: interpret_ntlm_def Let_def)
  ultimately show ?thesis
    using one_line_ntlm [of exit_code out] unfolding one_line_def Let_def by blast
qed

text \<open>\<open>l\<close> is the last line that holds the marker.\<close>

definition last_with :: "string \<Rightarrow> string list \<Rightarrow> string \<Rightarrow> bool" where
  "last_with marker lines l \<longleftrightarrow>
     (\<exists>us vs. lines = us @ l # vs \<and> sublist marker l \<and> (\<forall>v \<in> set vs. \<not> sublist marker v))"

lemma last_with_filter:
  assumes "filter (sublist m) lines \<noteq> []"
  shows "last_with m lines (last (filter (sublist m) lines))"
proof -
  have "lines \<noteq> []" using assms by auto
  from last_split [OF this assms] show ?thesis unfolding last_with_def by blast
qed

text \<open>
  The log line shown for a crash loop. If a line holds \<open>FATAL\<close>, it is the last such line; otherwise
  the last with \<open>Error:\<close>; otherwise the last with \<open>LOG3[\<close>; otherwise the last line of all, stripped of white
  space in each case. An empty log gives the fixed text, so no case raises.
\<close>

theorem error_line_choice:
  "if \<exists>l \<in> set lines. sublist ''FATAL'' l
   then \<exists>l. last_with ''FATAL'' lines l \<and> pick_error_line lines = strip l
   else if \<exists>l \<in> set lines. sublist ''Error:'' l
   then \<exists>l. last_with ''Error:'' lines l \<and> pick_error_line lines = strip l
   else if \<exists>l \<in> set lines. sublist ''LOG3['' l
   then \<exists>l. last_with ''LOG3['' lines l \<and> pick_error_line lines = strip l
   else pick_error_line lines = (if lines = [] then ''(no log output)'' else strip (last lines))"
proof -
  have some: "(\<exists>l \<in> set lines. sublist m l) \<longleftrightarrow> filter (sublist m) lines \<noteq> []" for m
    by (simp add: filter_empty_conv)
  have none: "strip ''(no log output)'' = ''(no log output)''" by code_simp
  show ?thesis
    unfolding some pick_error_line_def
    using last_with_filter [of _ lines] by (auto simp: Let_def none simp del: filter_empty_conv)
qed

text \<open>
  The runtime view is honest and never raises on what the engine can report. For any inspect data
  whose \<open>State\<close> is a mapping, null or missing, with any restart count (garbage counts as 0): a container
  that Docker is restarting is never running, always crash looping; one that was restarted and is not
  healthy is crash looping; a healthy one that is not being restarted is not; and the exit code is given
  exactly for a container that does not run.
\<close>

theorem state_view_honest:
  assumes "dget attrs ''State'' = None \<or> dget attrs ''State'' = Some PNone \<or> dget attrs ''State'' = Some (PDict st)"
    and "dget attrs ''State'' \<noteq> Some (PDict st) \<longrightarrow> st = []"
  shows "\<exists>v. state_view attrs = Inr v
    \<and> (flag st ''Restarting'' \<longrightarrow> \<not> vw_running v \<and> vw_crash_looping v)
    \<and> (0 < vw_restart_count v \<and> vw_health v \<noteq> Some ''healthy'' \<longrightarrow> vw_crash_looping v)
    \<and> (vw_health v = Some ''healthy'' \<and> \<not> flag st ''Restarting'' \<longrightarrow> \<not> vw_crash_looping v)
    \<and> (vw_exit_code v = None \<longleftrightarrow> vw_running v)"
  using assms
  by (cases "flag st ''Restarting''"; cases "flag st ''Running''") (auto simp: state_view_def Let_def)

definition looping_attrs :: "(pyval \<times> pyval) list" where
  "looping_attrs =
     [(PStr ''RestartCount'', PStr ''4''),
      (PStr ''State'', PDict [(PStr ''Running'', PBool True), (PStr ''ExitCode'', PInt 0),
         (PStr ''Health'', PDict [(PStr ''Status'', PStr ''starting'')])])]"

theorem state_view_honest_witness:
  "\<exists>v. state_view looping_attrs = Inr v \<and> vw_running v \<and> vw_restart_count v = 4 \<and> vw_crash_looping v"
proof -
  let ?st = "[(PStr ''Running'', PBool True), (PStr ''ExitCode'', PInt 0),
         (PStr ''Health'', PDict [(PStr ''Status'', PStr ''starting'')])]"
  have "\<exists>v. state_view looping_attrs = Inr v
    \<and> (flag ?st ''Restarting'' \<longrightarrow> \<not> vw_running v \<and> vw_crash_looping v)
    \<and> (0 < vw_restart_count v \<and> vw_health v \<noteq> Some ''healthy'' \<longrightarrow> vw_crash_looping v)
    \<and> (vw_health v = Some ''healthy'' \<and> \<not> flag ?st ''Restarting'' \<longrightarrow> \<not> vw_crash_looping v)
    \<and> (vw_exit_code v = None \<longleftrightarrow> vw_running v)"
    by (rule state_view_honest) (simp_all add: looping_attrs_def)
  moreover have "case state_view looping_attrs of Inl _ \<Rightarrow> False
      | Inr v \<Rightarrow> vw_running v \<and> vw_restart_count v = 4 \<and> vw_health v = Some ''starting''"
    by code_simp
  ultimately show ?thesis by (auto split: sum.splits)
qed

end
