(* ===== verification/Render.thy ===== *)
theory Render
  imports Models Errors
begin

text \<open>
  \<open>render.py\<close>: the two configuration files of an instance. Texts are the bytes written (UTF-8), so
  the dash in the headers is three characters.

  The readers \<open>read_policy\<close> and \<open>read_clients\<close> are the specification side: they take a rendered text
  apart line by line, with FreeRADIUS' rule for backslashes in double quotes, and the lemmas show
  that they recover exactly the branches and clients the instance asks for.
\<close>

definition CLIENTS_HEADER :: string where
  "CLIENTS_HEADER =
     ''# Generated by lmnradius '' @ [CHR 0xE2, CHR 0x80, CHR 0x94] @
     '' one client{} per AP-management subnet.'' @ [LF] @
     ''# The container entrypoint appends the loopback healthcheck client itself.'' @ [LF] @
     ''# Do not edit by hand; it is overwritten on every reconcile.'' @ [LF]"

definition SSID_POLICY_HEADER :: string where
  "SSID_POLICY_HEADER =
     ''# Generated by lmnradius '' @ [CHR 0xE2, CHR 0x80, CHR 0x94] @
     '' per-SSID group gate + optional dynamic VLAN.'' @ [LF] @
     ''# Included into sites/inner-tunnel post-auth via $-INCLUDE.'' @ [LF] @
     ''# Do not edit by hand; it is overwritten on every reconcile.'' @ [LF]"

definition escape_config_string :: "string \<Rightarrow> string" where
  "escape_config_string s = replace_char QUOTE [BSL, QUOTE] (replace_char BSL [BSL, BSL] s)"

definition client_block :: "string \<Rightarrow> nat \<times> string \<Rightarrow> string" where
  "client_block radius_secret = (\<lambda>(index, cidr).
     let shortname = ''ap-'' @ str_int (int index) in
     ''client '' @ shortname @ '' {'' @ [LF] @
     ''    ipaddr = '' @ cidr @ [LF] @
     ''    secret = '' @ radius_secret @ [LF] @
     ''    proto = udp'' @ [LF] @
     ''    require_message_authenticator = yes'' @ [LF] @
     ''    shortname = '' @ shortname @ [LF] @
     ''}'' @ [LF])"

definition render_clients_conf :: "inst \<Rightarrow> string \<Rightarrow> pyerr + string" where
  "render_clients_conf i radius_secret =
     (if radius_secret = [] \<or> LF \<in> set radius_secret \<or> CR \<in> set radius_secret then Inl ValueErr
      else Inr (CLIENTS_HEADER @ [LF] @
                join [LF] (map (client_block radius_secret) (enumerate 1 (i_client_subnets i)))))"

definition ssid_cond :: "nat \<Rightarrow> string \<Rightarrow> string" where
  "ssid_cond index name =
     (if index = 0 then ''if'' else ''elsif'') @ '' (&Called-Station-SSID == '' @ [QUOTE] @ name @
     [QUOTE] @ '') {''"

definition group_cond :: "string \<Rightarrow> string" where
  "group_cond grp = ''    if (&LDAP-Group == '' @ [QUOTE] @ grp @ [QUOTE] @ '') {''"

definition vlan_lines :: "int option \<Rightarrow> string list" where
  "vlan_lines vlan =
     (case vlan of
        Some v \<Rightarrow>
          [''        update reply {'',
           ''            &Tunnel-Type := VLAN'',
           ''            &Tunnel-Medium-Type := IEEE-802'',
           ''            &Tunnel-Private-Group-Id := '' @ [QUOTE] @ str_int v @ [QUOTE],
           ''        }'']
      | None \<Rightarrow> [''        noop''])"

definition branch_end :: "string list" where
  "branch_end = [''    }'', ''    else {'', ''        reject'', ''    }'', ''}'']"

definition policy_end :: "string list" where
  "policy_end = [''else {'', ''    reject'', ''}'']"

definition ssid_lines :: "nat \<times> ssid \<Rightarrow> string list" where
  "ssid_lines = (\<lambda>(index, s).
     [ssid_cond index (escape_config_string (s_name s)),
      group_cond (escape_config_string (s_allowed_group s))]
     @ vlan_lines (s_vlan s) @ branch_end)"

definition render_ssid_policy :: "inst \<Rightarrow> string" where
  "render_ssid_policy i =
     SSID_POLICY_HEADER @
     join [LF] (concat (map ssid_lines (enumerate 0 (i_ssids i))) @ policy_end) @ [LF]"

section \<open>Double-quoted texts\<close>

text \<open>Reads up to the closing quote; a backslash stands for the character behind it.\<close>

fun read_quoted :: "string \<Rightarrow> (string \<times> string) option" where
  "read_quoted [] = None"
| "read_quoted (c # s) =
     (if c = QUOTE then Some ([], s)
      else if c = BSL then
        (case s of [] \<Rightarrow> None | d # t \<Rightarrow> map_option (apfst ((#) d)) (read_quoted t))
      else map_option (apfst ((#) c)) (read_quoted s))"

lemma escape_Nil [simp]: "escape_config_string [] = []"
  by (simp add: escape_config_string_def)

lemma escape_Cons [simp]:
  "escape_config_string (c # s) =
     (if c = BSL then [BSL, BSL] else if c = QUOTE then [BSL, QUOTE] else [c]) @ escape_config_string s"
  by (simp add: escape_config_string_def)

lemma read_quoted_escape: "read_quoted (escape_config_string s @ QUOTE # t) = Some (s, t)"
  by (induction s) auto

lemma set_escape: "c \<in> set (escape_config_string s) \<Longrightarrow> c = BSL \<or> c \<in> set s"
  by (induction s) (auto split: if_splits)

section \<open>Reading a policy back\<close>

text \<open>
  \<open>read_branches kw ls\<close> reads a chain of branches whose next keyword is \<open>kw\<close>: the name compared with
  \<open>Called-Station-SSID\<close>, the group, and the VLAN of each, up to the final \<open>else { reject }\<close>.
\<close>

definition strip_prefix :: "string \<Rightarrow> string \<Rightarrow> string option" where
  "strip_prefix p s = (if prefix p s then Some (drop (length p) s) else None)"

definition read_cond :: "string \<Rightarrow> string \<Rightarrow> string option" where
  "read_cond before line =
     (case strip_prefix (before @ [QUOTE]) line of
        None \<Rightarrow> None
      | Some r \<Rightarrow>
          (case read_quoted r of
             None \<Rightarrow> None
           | Some (v, after) \<Rightarrow> if after = '') {'' then Some v else None))"

definition read_vlan :: "string \<Rightarrow> int option" where
  "read_vlan line =
     (case strip_prefix (''            &Tunnel-Private-Group-Id := '' @ [QUOTE]) line of
        None \<Rightarrow> None
      | Some r \<Rightarrow>
          (case read_quoted r of
             None \<Rightarrow> None
           | Some (v, after) \<Rightarrow>
               if after = [] \<and> v \<noteq> [] \<and> list_all is_digit v then Some (digits_val v) else None))"

definition read_body :: "string list \<Rightarrow> (int option \<times> string list) option" where
  "read_body ls =
     (if prefix (vlan_lines None @ branch_end) ls then Some (None, drop 6 ls)
      else
        (case (take 3 ls, drop 3 ls) of
           ([a, b, c], d # ls') \<Rightarrow>
             (if [a, b, c] = take 3 (vlan_lines (Some 0)) \<and> prefix (''        }'' # branch_end) ls'
              then map_option (\<lambda>v. (Some v, drop 6 ls')) (read_vlan d) else None)
         | _ \<Rightarrow> None))"

lemma read_body_shrinks: "read_body ls = Some (v, rest) \<Longrightarrow> length rest \<le> length ls"
  by (auto simp: read_body_def split: if_splits list.splits dest!: arg_cong [where f = length])

function read_branches :: "string \<Rightarrow> string list \<Rightarrow> (string \<times> string \<times> int option) list option" where
  "read_branches kw ls =
     (if ls = policy_end @ [[]] then Some []
      else
        (case ls of
           l1 # l2 # ls' \<Rightarrow>
             (case (read_cond (kw @ '' (&Called-Station-SSID == '') l1,
                    read_cond ''    if (&LDAP-Group == '' l2, read_body ls') of
                (Some name, Some grp, Some (vlan, rest)) \<Rightarrow>
                  map_option ((#) (name, grp, vlan)) (read_branches ''elsif'' rest)
              | _ \<Rightarrow> None)
         | _ \<Rightarrow> None))"
  by pat_completeness auto
termination
  by (relation "measure (length \<circ> snd)") (auto dest!: read_body_shrinks [OF sym])

declare read_branches.simps [simp del]

definition read_policy :: "string \<Rightarrow> (string \<times> string \<times> int option) list option" where
  "read_policy text = read_branches ''if'' (dropWhile (prefix ''#'') (split_on LF text))"

lemma strip_prefix_app [simp]: "strip_prefix p (p @ r) = Some r"
  by (simp add: strip_prefix_def)

lemma read_cond_escape:
  "read_cond before (before @ [QUOTE] @ escape_config_string v @ [QUOTE] @ '') {'') = Some v"
proof -
  have "strip_prefix (before @ [QUOTE]) (before @ [QUOTE] @ escape_config_string v @ [QUOTE] @ '') {'')
      = Some (escape_config_string v @ QUOTE # '') {'')"
    using strip_prefix_app [of "before @ [QUOTE]"] by simp
  then show ?thesis by (simp add: read_cond_def read_quoted_escape)
qed

lemma read_ssid_cond:
  "read_cond ((if k = 0 then ''if'' else ''elsif'') @ '' (&Called-Station-SSID == '')
     (ssid_cond k (escape_config_string n)) = Some n"
  using read_cond_escape [of "(if k = 0 then ''if'' else ''elsif'') @ '' (&Called-Station-SSID == ''" n]
  by (simp only: ssid_cond_def append_assoc)

lemma read_group_cond: "read_cond ''    if (&LDAP-Group == '' (group_cond (escape_config_string g)) = Some g"
  unfolding group_cond_def by (rule read_cond_escape)

lemma escape_digits: "list_all is_digit ds \<Longrightarrow> escape_config_string ds = ds"
  by (induction ds) (auto simp: is_digit_def in_range_def)

lemma read_vlan_line:
  assumes "0 \<le> v"
  shows "read_vlan (vlan_lines (Some v) ! 3) = Some v"
proof -
  have d: "list_all is_digit (dec_digits v)" using assms by (rule all_digits_dec)
  have "vlan_lines (Some v) ! 3
      = (''            &Tunnel-Private-Group-Id := '' @ [QUOTE]) @ escape_config_string (dec_digits v) @ QUOTE # []"
    using assms escape_digits [OF d] by (simp add: vlan_lines_def str_int_def)
  then show ?thesis
    using assms d digits_val_dec by (simp only: read_vlan_def strip_prefix_app option.case read_quoted_escape prod.case) simp
qed

lemma read_body_lines:
  assumes "\<And>v. vlan = Some v \<Longrightarrow> 0 \<le> v"
  shows "read_body (vlan_lines vlan @ branch_end @ rest) = Some (vlan, rest)"
proof (cases vlan)
  case None
  then show ?thesis by (simp add: read_body_def vlan_lines_def branch_end_def)
next
  case (Some v)
  then have "read_vlan (vlan_lines (Some v) ! 3) = Some v" using assms read_vlan_line by blast
  then show ?thesis by (simp add: Some read_body_def vlan_lines_def branch_end_def)
qed

abbreviation branch_of :: "ssid \<Rightarrow> string \<times> string \<times> int option" where
  "branch_of s \<equiv> (s_name s, s_allowed_group s, s_vlan s)"

lemma read_branches_lines:
  assumes "\<And>s v. s \<in> set ss \<Longrightarrow> s_vlan s = Some v \<Longrightarrow> 0 \<le> v"
  shows "read_branches (if k = 0 then ''if'' else ''elsif'')
           (concat (map ssid_lines (enumerate k ss)) @ policy_end @ [[]]) = Some (map branch_of ss)"
  using assms
proof (induction ss arbitrary: k)
  case Nil
  then show ?case by (subst read_branches.simps) simp
next
  case (Cons s ss)
  let ?rest = "concat (map ssid_lines (enumerate (Suc k) ss)) @ policy_end @ [[]]"
  have rest: "read_branches ''elsif'' ?rest = Some (map branch_of ss)"
    using Cons.IH [of "Suc k"] Cons.prems by fastforce
  have body: "read_body (vlan_lines (s_vlan s) @ branch_end @ ?rest) = Some (s_vlan s, ?rest)"
    using Cons.prems by (intro read_body_lines) auto
  have ls: "concat (map ssid_lines (enumerate k (s # ss))) @ policy_end @ [[]]
      = ssid_cond k (escape_config_string (s_name s)) # group_cond (escape_config_string (s_allowed_group s))
        # vlan_lines (s_vlan s) @ branch_end @ ?rest"
    by (simp add: ssid_lines_def)
  have ne: "ssid_cond k n # ls' \<noteq> policy_end @ [[]]" for n ls'
    by (simp add: ssid_cond_def policy_end_def)
  show ?case
    unfolding ls by (subst read_branches.simps) (simp add: ne read_ssid_cond read_group_cond body rest)
qed

lemma split_on_lines:
  "ps \<noteq> [] \<Longrightarrow> (\<And>p. p \<in> set ps \<Longrightarrow> c \<notin> set p) \<Longrightarrow> split_on c (join [c] ps @ [c]) = ps @ [[]]"
proof -
  assume "ps \<noteq> []" and ps: "\<And>p. p \<in> set ps \<Longrightarrow> c \<notin> set p"
  then have "join [c] ps @ [c] = join [c] (ps @ [[]])"
    by (induction "[c]" ps rule: join.induct) auto
  moreover have "c \<notin> set p" if "p \<in> set (ps @ [[]])" for p using that ps by auto
  ultimately show ?thesis using split_on_join [of "ps @ [[]]" c] by (metis Nil_is_append_conv not_Cons_self2)
qed

definition POLICY_HEADER_LINES :: "string list" where
  "POLICY_HEADER_LINES = butlast (split_on LF SSID_POLICY_HEADER)"

lemma split_on_policy_header:
  "split_on LF (SSID_POLICY_HEADER @ s) = POLICY_HEADER_LINES @ split_on LF s"
proof -
  have "split_on c (p @ c # q @ c # r @ [c] @ s) = p # q # r # split_on c s"
    if "c \<notin> set p" "c \<notin> set q" "c \<notin> set r" for c and p q r s :: string
    using that by (simp add: split_on_append)
  then show ?thesis
    by (simp add: SSID_POLICY_HEADER_def POLICY_HEADER_LINES_def)
qed

lemma policy_header_comments: "dropWhile (prefix ''#'') (POLICY_HEADER_LINES @ ls) = dropWhile (prefix ''#'') ls"
  by (simp add: POLICY_HEADER_LINES_def SSID_POLICY_HEADER_def)

lemma dec_digits_set: "0 \<le> v \<Longrightarrow> c \<in> set (dec_digits v) \<Longrightarrow> is_digit c"
  using all_digits_dec [of v] by (simp add: list_all_iff)

lemma str_int_line: "LF \<notin> set (str_int v)"
proof -
  have "LF \<notin> set (dec_digits w)" if "0 \<le> w" for w
    using dec_digits_set [OF that, of LF] by (auto simp: is_digit_def in_range_def)
  then show ?thesis by (simp add: str_int_def)
qed

lemma ssid_lines_line:
  assumes "LF \<notin> set (s_name s)" and "LF \<notin> set (s_allowed_group s)" and "l \<in> set (ssid_lines (k, s))"
  shows "LF \<notin> set l"
proof -
  have "LF \<notin> set (escape_config_string (s_name s))" "LF \<notin> set (escape_config_string (s_allowed_group s))"
    using assms(1,2) set_escape by auto
  moreover have "LF \<noteq> QUOTE" by simp
  ultimately show ?thesis using assms(3) str_int_line
    by (auto simp: ssid_lines_def ssid_cond_def group_cond_def vlan_lines_def branch_end_def
        split: option.splits if_splits)
qed

lemma read_policy_render:
  assumes "\<And>s. s \<in> set (i_ssids i) \<Longrightarrow> LF \<notin> set (s_name s) \<and> LF \<notin> set (s_allowed_group s)"
    and "\<And>s v. s \<in> set (i_ssids i) \<Longrightarrow> s_vlan s = Some v \<Longrightarrow> 0 \<le> v"
  shows "read_policy (render_ssid_policy i) = Some (map branch_of (i_ssids i))"
proof -
  let ?ls = "concat (map ssid_lines (enumerate 0 (i_ssids i))) @ policy_end"
  have "LF \<notin> set l" if "l \<in> set ?ls" for l
  proof (cases "l \<in> set policy_end")
    case True
    then show ?thesis by (auto simp: policy_end_def)
  next
    case False
    with that obtain k s where "(k, s) \<in> set (enumerate 0 (i_ssids i))" "l \<in> set (ssid_lines (k, s))"
      by auto
    moreover from this have "s \<in> set (i_ssids i)" by (auto simp: in_set_enumerate_eq)
    ultimately show ?thesis using assms(1) ssid_lines_line by blast
  qed
  then have "split_on LF (join [LF] ?ls @ [LF]) = ?ls @ [[]]"
    by (intro split_on_lines) (auto simp: policy_end_def)
  moreover have "dropWhile (prefix ''#'') (?ls @ [[]]) = ?ls @ [[]]"
    by (cases "i_ssids i") (auto simp: policy_end_def ssid_lines_def ssid_cond_def)
  ultimately have "read_policy (render_ssid_policy i) = read_branches ''if'' (?ls @ [[]])"
    by (simp only: read_policy_def render_ssid_policy_def split_on_policy_header policy_header_comments)
  also have "\<dots> = Some (map branch_of (i_ssids i))"
    using read_branches_lines [of "i_ssids i" 0] assms(2) by simp
  finally show ?thesis .
qed

section \<open>Reading clients back\<close>

definition client_line :: "string \<Rightarrow> string \<Rightarrow> string option" where
  "client_line key line = strip_prefix (''    '' @ key @ '' = '') line"

text \<open>
  A client block is seven lines behind an empty one. Its shortname must be its name, and it must
  require a message authenticator; read are the name, the address and the secret.
\<close>

fun read_clients :: "string list \<Rightarrow> (string \<times> string \<times> string) list option" where
  "read_clients ([] # l1 # l2 # l3 # l4 # l5 # l6 # l7 # ls) =
     (case (strip_prefix ''client '' l1, client_line ''ipaddr'' l2, client_line ''secret'' l3,
            client_line ''shortname'' l6) of
        (Some n, Some a, Some k, Some m) \<Rightarrow>
          if n = m @ '' {'' \<and> l4 = ''    proto = udp'' \<and> l7 = ''}''
             \<and> l5 = ''    require_message_authenticator = yes''
          then map_option ((#) (m, a, k)) (read_clients ls) else None
      | _ \<Rightarrow> None)"
| "read_clients [[]] = Some []"
| "read_clients _ = None"

definition read_clients_conf :: "string \<Rightarrow> (string \<times> string \<times> string) list option" where
  "read_clients_conf text = read_clients (dropWhile (prefix ''#'') (split_on LF text))"

definition client_lines :: "string \<Rightarrow> nat \<times> string \<Rightarrow> string list" where
  "client_lines secret = (\<lambda>(k, a).
     [[], ''client ap-'' @ str_int (int k) @ '' {'', ''    ipaddr = '' @ a, ''    secret = '' @ secret,
      ''    proto = udp'', ''    require_message_authenticator = yes'',
      ''    shortname = ap-'' @ str_int (int k), ''}''])"

lemma split_client_block:
  assumes "LF \<notin> set a" and "LF \<notin> set secret"
  shows "split_on LF (LF # client_block secret (k, a) @ s) = client_lines secret (k, a) @ split_on LF s"
proof -
  let ?n = "''ap-'' @ str_int (int k)"
  have n: "LF \<notin> set (str_int (int k))" by (rule str_int_line)
  have "split_on LF ((''client '' @ ?n @ '' {'') @ LF # (''    ipaddr = '' @ a) @ LF #
      (''    secret = '' @ secret) @ LF # ''    proto = udp'' @ LF #
      ''    require_message_authenticator = yes'' @ LF # (''    shortname = '' @ ?n) @ LF # ''}'' @ LF # s)
    = (''client '' @ ?n @ '' {'') # (''    ipaddr = '' @ a) # (''    secret = '' @ secret) # ''    proto = udp'' #
      ''    require_message_authenticator = yes'' # (''    shortname = '' @ ?n) # ''}'' # split_on LF s"
    using assms n by (subst split_on_append, simp)+ simp
  then show ?thesis by (simp add: client_block_def client_lines_def Let_def)
qed

lemma read_client_lines:
  "read_clients (client_lines secret (k, a) @ ls)
     = map_option ((#) (''ap-'' @ str_int (int k), a, secret)) (read_clients ls)"
proof -
  have "strip_prefix ''client '' (''client ap-'' @ x) = Some (''ap-'' @ x)" for x
    using strip_prefix_app [of "''client ''" "''ap-'' @ x"] by simp
  moreover have "client_line ''ipaddr'' (''    ipaddr = '' @ x) = Some x" for x
    using strip_prefix_app [of "''    ipaddr = ''" x] by (simp add: client_line_def)
  moreover have "client_line ''secret'' (''    secret = '' @ x) = Some x" for x
    using strip_prefix_app [of "''    secret = ''" x] by (simp add: client_line_def)
  moreover have "client_line ''shortname'' (''    shortname = ap-'' @ x) = Some (''ap-'' @ x)" for x
    using strip_prefix_app [of "''    shortname = ''" "''ap-'' @ x"] by (simp add: client_line_def)
  ultimately show ?thesis
    by (simp only: client_lines_def prod.case append_Cons append_Nil read_clients.simps option.case) simp
qed

lemma read_clients_blocks:
  assumes "as \<noteq> []" and "\<And>a. a \<in> set as \<Longrightarrow> LF \<notin> set a" and "LF \<notin> set secret"
  shows "read_clients (split_on LF (LF # join [LF] (map (client_block secret) (enumerate k as))))
     = Some (map (\<lambda>(j, a). (''ap-'' @ str_int (int j), a, secret)) (enumerate k as))"
  using assms
proof (induction as arbitrary: k rule: list_nonempty_induct)
  case (single a)
  then show ?case
    using split_client_block [of a secret k "[]"] read_client_lines [of secret k a "[[]]"] by simp
next
  case (cons a as)
  let ?bs = "map (client_block secret) (enumerate (Suc k) as)"
  have ne: "?bs \<noteq> []" using cons.hyps by (cases as) auto
  have "split_on LF (LF # client_block secret (k, a) @ LF # join [LF] ?bs)
      = client_lines secret (k, a) @ split_on LF (LF # join [LF] ?bs)"
    using cons.prems by (intro split_client_block) auto
  moreover have "read_clients (split_on LF (LF # join [LF] ?bs))
      = Some (map (\<lambda>(j, a). (''ap-'' @ str_int (int j), a, secret)) (enumerate (Suc k) as))"
    using cons by simp
  ultimately show ?case by (simp add: join_Cons [OF ne] read_client_lines)
qed

definition CLIENTS_HEADER_LINES :: "string list" where
  "CLIENTS_HEADER_LINES = butlast (split_on LF CLIENTS_HEADER)"

lemma split_on_clients_header:
  "split_on LF (CLIENTS_HEADER @ s) = CLIENTS_HEADER_LINES @ split_on LF s"
  by (simp add: CLIENTS_HEADER_def CLIENTS_HEADER_LINES_def split_on_append)

lemma clients_header_comments: "dropWhile (prefix ''#'') (CLIENTS_HEADER_LINES @ ls) = dropWhile (prefix ''#'') ls"
  by (simp add: CLIENTS_HEADER_LINES_def CLIENTS_HEADER_def)

section \<open>Properties\<close>

datatype verdict = Reject | Accept "int option"

text \<open>What a chain of branches answers for an SSID and the groups a user is in.\<close>

fun gate_verdict :: "(string \<times> string \<times> int option) list \<Rightarrow> string \<Rightarrow> (string \<Rightarrow> bool) \<Rightarrow> verdict" where
  "gate_verdict [] ssid member = Reject"
| "gate_verdict ((name, grp, vlan) # bs) ssid member =
     (if name = ssid then if member grp then Accept vlan else Reject else gate_verdict bs ssid member)"

lemma verdict_find:
  "gate_verdict (map branch_of ss) ssid member =
     (case find (\<lambda>s. s_name s = ssid) ss of
        None \<Rightarrow> Reject
      | Some s \<Rightarrow> if member (s_allowed_group s) then Accept (s_vlan s) else Reject)"
  by (induction ss) auto


definition quoted_inst :: inst where
  "quoted_inst = sample_inst \<lparr> i_ssids :=
     [\<lparr> s_name = ''W-LAN '' @ [QUOTE], s_allowed_group = ''teachers'' @ [BSL], s_vlan = Some 20 \<rparr>,
      \<lparr> s_name = ''Guests'', s_allowed_group = ''all'', s_vlan = None \<rparr>] \<rparr>"




definition scope_inst :: inst where
  "scope_inst = sample_inst \<lparr> i_client_subnets :=
     [''fe80::%x'' @ [LF] @ ''}'' @ [LF] @ ''client evil {'' @ [LF] @ ''ipaddr = 192.0.2.1'' @ [LF] @
      ''secret = known'' @ [LF] @ ''}'' @ [LF] @ ''#/64''] \<rparr>"


end
