(* ===== verification/Docker.thy ===== *)
theory Docker
  imports Store FileSys Diagnostics Render
begin

text \<open>
  \<open>docker_service.py\<close>: one container per instance. The engine, the clock and the sockets are calls of
  \<open>ext\<close>; the files are those of \<open>w_fs\<close>. Times are milliseconds. A log line that goes to the service's own
  logger is no effect of the model.
\<close>

definition INSTANCE_D_MOUNT :: string where "INSTANCE_D_MOUNT = ''/etc/lmnradius/instance.d''"
definition SECRETS_MOUNT :: string where "SECRETS_MOUNT = ''/run/secrets''"
definition CERTS_MOUNT :: string where "CERTS_MOUNT = ''/run/secrets/eap''"
definition LDAP_CA_MOUNT :: string where "LDAP_CA_MOUNT = ''/run/secrets/ldap/ca.pem''"
definition SAMBA_STATE :: string where "SAMBA_STATE = ''/var/lib/samba''"
definition CA_FILE :: string where "CA_FILE = ''ca.pem''"
definition CERT_FILE :: string where "CERT_FILE = ''server.pem''"
definition KEY_FILE :: string where "KEY_FILE = ''server.key''"
definition CLIENTS_FILE :: string where "CLIENTS_FILE = ''clients.conf''"
definition SSID_POLICY_FILE :: string where "SSID_POLICY_FILE = ''ssid-policy''"
definition AUTH_PORT :: int where "AUTH_PORT = 1812"
definition ACCT_PORT :: int where "ACCT_PORT = 1813"
definition SETTLE_TIMEOUT :: int where "SETTLE_TIMEOUT = 45000"
definition SETTLE_POLL :: int where "SETTLE_POLL = 1000"

text \<open>
  The attributes of a \<open>DockerService\<close>; \<open>c_fuel\<close> bounds the rounds of a polling loop of the model.
\<close>

record conf =
  c_secrets_dir :: string
  c_certs_dir :: string
  c_render_dir :: string
  c_bind_ip :: string
  c_log_max_size :: string
  c_log_max_file :: int
  c_host_ip :: "string option"
  c_settle_timeout :: int
  c_fuel :: nat

definition default_conf :: conf where
  "default_conf = \<lparr> c_secrets_dir = ''/etc/linuxmuster-radius/secrets'',
     c_certs_dir = ''/etc/linuxmuster-radius/certs'',
     c_render_dir = ''/var/lib/linuxmuster-radius/instance.d'',
     c_bind_ip = ''0.0.0.0'', c_log_max_size = ''20m'', c_log_max_file = 5, c_host_ip = None,
     c_settle_timeout = SETTLE_TIMEOUT, c_fuel = 46 \<rparr>"

section \<open>The address of this host\<close>

definition is_loopback :: "string \<Rightarrow> bool option" where
  "is_loopback s =
     (case v4_int s of
        Some a \<Rightarrow> Some (a div 2 ^ 24 = 127)
      | None \<Rightarrow> map_option (\<lambda>a. a = 1) (v6_addr s))"

text \<open>The interface of the first default route; a row of \<open>/proc/net/route\<close> is its words.\<close>

definition default_ifname :: "string list \<Rightarrow> string option" where
  "default_ifname ls =
     map_option (\<lambda>row. row ! 0)
       (find (\<lambda>row. length row > 1 \<and> row ! 1 = ''00000000'') (map words (tl ls)))"

definition ip_by_interface :: "('g, 'd) ext \<Rightarrow> 'd \<Rightarrow> pyerr + string option" where
  "ip_by_interface x d =
     (let r = bindE (x_routes x d) (\<lambda>ls.
                case default_ifname ls of
                  None \<Rightarrow> Inr None
                | Some n \<Rightarrow>
                    if list_all (\<lambda>c. c < CHR 0x80) (take 15 n)
                    then bindE (x_ifaddr x (take 15 n) d) (\<lambda>a. Inr (Some a)) else Inl UnicodeErr)
      in case r of Inl e \<Rightarrow> if is_os_error e \<or> is_value_error e then Inr None else Inl e | Inr a \<Rightarrow> Inr a)"

definition detect_host_ip :: "('g, 'd) ext \<Rightarrow> string \<Rightarrow> 'd \<Rightarrow> pyerr + string option" where
  "detect_host_ip x host d =
     (case x_route x host d of
        Inr candidate \<Rightarrow>
          (case is_loopback candidate of
             Some False \<Rightarrow> Inr (Some candidate)
           | _ \<Rightarrow> ip_by_interface x d)
      | Inl e \<Rightarrow> if is_os_error e \<or> is_value_error e then ip_by_interface x d else Inl e)"

section \<open>Pulling an image\<close>

definition samba_volume :: "string \<Rightarrow> string" where
  "samba_volume name = ''lmnradius-samba-'' @ name"

definition docker_name :: "string \<Rightarrow> string" where
  "docker_name name = ''lmnradius-'' @ name"

text \<open>The repository and tag \<open>_pull\<close> passes to \<open>images.pull\<close>.\<close>

definition pull_args :: "string \<Rightarrow> string \<times> string option" where
  "pull_args img =
     (if CHR ''@'' \<in> set img then
        (case partition_on (CHR ''@'') img of (repo, digest) \<Rightarrow> (repo, digest))
      else
        (let last_segment = (case rpartition_on (CHR ''/'') img of None \<Rightarrow> img | Some (_, s) \<Rightarrow> s) in
         if CHR '':'' \<in> set last_segment then
           (case rpartition_on (CHR '':'') img of Some (repo, tag) \<Rightarrow> (repo, Some tag) | None \<Rightarrow> (img, None))
         else (img, None)))"

definition pull :: "('g, 'd) ext \<Rightarrow> string \<Rightarrow> ('g, 'd, unit) run" where
  "pull x img = (case pull_args img of (repo, tag) \<Rightarrow> engine (CPull repo tag) (x_pull x repo tag))"

text \<open>\<open>_get\<close>: the container, \<open>None\<close> if the engine has none of that name.\<close>

definition get_container :: "('g, 'd) ext \<Rightarrow> string \<Rightarrow> ('g, 'd, string option) run" where
  "get_container x name =
     tryP (bindP (engine (CGet (docker_name name)) (x_get x (docker_name name))) (\<lambda>c. returnP (Some c)))
       (\<lambda>e. if is_not_found e then returnP None else raiseP e)"

section \<open>Environment\<close>

definition env_for :: "('g, 'd) ext \<Rightarrow> conf \<Rightarrow> inst \<Rightarrow> ('g, 'd, (string \<times> string) list) run" where
  "env_for x c i =
     (let env = [(''INSTANCE'', i_name i),
                 (''REALM'', i_realm i),
                 (''WORKGROUP'', i_workgroup i),
                 (''SERVER_FQDN'', i_server_fqdn i),
                 (''LDAP_SERVER'', i_ldap_server i),
                 (''LDAP_BASE_DN'', i_ldap_base_dn i),
                 (''LDAP_BIND_DN'', i_ldap_bind_dn i),
                 (''WIFI_GROUP'', i_wifi_group i),
                 (''LDAP_BIND_SECRET'', SECRETS_MOUNT @ ''/'' @ i_ldap_bind_secret i),
                 (''JOIN_SECRET'', SECRETS_MOUNT @ ''/'' @ i_join_secret i),
                 (''EAP_CA'', CERTS_MOUNT @ ''/'' @ CA_FILE),
                 (''EAP_CERT'', CERTS_MOUNT @ ''/'' @ CERT_FILE),
                 (''EAP_KEY'', CERTS_MOUNT @ ''/'' @ KEY_FILE)]
                @ (if i_ldap_ca i \<noteq> None then [(''LDAP_CA'', LDAP_CA_MOUNT)] else [])
      in bindP (if c_host_ip c \<noteq> None \<and> c_host_ip c \<noteq> Some [] then returnP (c_host_ip c)
                else (case ldap_url_parts (i_ldap_server i) of
                        None \<Rightarrow> raiseP ValueErr
                      | Some (_, host, _) \<Rightarrow>
                          bindP (getP (\<lambda>w. detect_host_ip x host (w_dk w))) liftP))
           (\<lambda>host_ip. returnP
             (case host_ip of
                Some (h # hs) \<Rightarrow> env @ [(''HOST_IP'', h # hs)]
              | _ \<Rightarrow> env)))"

section \<open>Rendering\<close>

text \<open>A step on the files that may raise.\<close>

definition on_fs :: "(fs \<Rightarrow> pyerr + fs) \<Rightarrow> ('g, 'd, unit) run" where
  "on_fs f = (\<lambda>w. case f (w_fs w) of Inl e \<Rightarrow> (Inl e, w) | Inr fs \<Rightarrow> (Inr (), w \<lparr> w_fs := fs \<rparr>))"

lemma on_fs_run [code]:
  "on_fs f w = (case f (w_fs w) of Inl e \<Rightarrow> (Inl e, w) | Inr fs \<Rightarrow> (Inr (), w \<lparr> w_fs := fs \<rparr>))"
  by (simp add: on_fs_def)

definition from_fs :: "(fs \<Rightarrow> pyerr + 'a) \<Rightarrow> ('g, 'd, 'a) run" where
  "from_fs f = bindP (getP (\<lambda>w. f (w_fs w))) liftP"

definition is_crlf :: "char \<Rightarrow> bool" where
  "is_crlf c = (c = CR \<or> c = LF)"

definition render_instance :: "conf \<Rightarrow> inst \<Rightarrow> ('g, 'd, path) run" where
  "render_instance c i =
     bindP (from_fs (\<lambda>fs. resolve_under fs (comps (c_secrets_dir c)) (i_radius_secret i))) (\<lambda>secret_path.
     bindP (from_fs (\<lambda>fs. if isfile fs secret_path then read_file fs secret_path else Inl FileNotFound)) (\<lambda>text.
     bindP (returnP (rstrip_by is_crlf text)) (\<lambda>radius_secret.
     bindP (from_fs (\<lambda>fs. resolve_under fs (comps (c_render_dir c)) (i_name i))) (\<lambda>inst_dir.
     bindP (on_fs (\<lambda>fs. make_dirs fs [] inst_dir)) (\<lambda>_.
     bindP (on_fs (\<lambda>fs. Inr (chmod inst_dir mode_700 fs))) (\<lambda>_.
     bindP (liftP (render_clients_conf i radius_secret)) (\<lambda>clients.
     bindP (on_fs (\<lambda>fs. write_file fs (inst_dir @ [CLIENTS_FILE]) clients)) (\<lambda>_.
     bindP (on_fs (\<lambda>fs. write_file fs (inst_dir @ [SSID_POLICY_FILE]) (render_ssid_policy i))) (\<lambda>_.
     returnP inst_dir)))))))))"

section \<open>Mounts\<close>

type_synonym volumes = "(string \<times> string \<times> string) list"

definition env_at :: "(string \<times> string) list \<Rightarrow> string \<Rightarrow> pyerr + string" where
  "env_at env k = (case map_of env k of None \<Rightarrow> Inl (KeyErr k) | Some v \<Rightarrow> Inr v)"

definition must_be_file :: "fs \<Rightarrow> path \<Rightarrow> pyerr + unit" where
  "must_be_file fs p = (if isfile fs p then Inr () else Inl FileNotFound)"

text \<open>The loop over the EAP files; \<open>vols\<close> are the volumes so far.\<close>

primrec eap_mounts ::
  "fs \<Rightarrow> path \<Rightarrow> (string \<times> string) list \<Rightarrow> bool \<Rightarrow> (string \<times> string) list \<Rightarrow> volumes \<Rightarrow> pyerr + volumes" where
  "eap_mounts fs cert_dir env require_eap [] vols = Inr vols"
| "eap_mounts fs cert_dir env require_eap (fk # fks) vols =
     (if isfile fs (cert_dir @ [fst fk]) then
        bindE (env_at env (snd fk)) (\<lambda>target.
          eap_mounts fs cert_dir env require_eap fks
            (AList.update (path_str (cert_dir @ [fst fk])) (target, ''ro'') vols))
      else if require_eap then Inl FileNotFound
      else eap_mounts fs cert_dir env require_eap fks vols)"

definition EAP_FILES :: "(string \<times> string) list" where
  "EAP_FILES = [(CA_FILE, ''EAP_CA''), (CERT_FILE, ''EAP_CERT''), (KEY_FILE, ''EAP_KEY'')]"

text \<open>The secrets and the state volume; equal sources are one entry, as in a dict literal.\<close>

definition first_volumes :: "string \<Rightarrow> path \<Rightarrow> string \<Rightarrow> path \<Rightarrow> string \<Rightarrow> volumes" where
  "first_volumes name join_host join_target bind_host bind_target =
     AList.update (samba_volume name) (SAMBA_STATE, ''rw'')
       (AList.update (path_str bind_host) (bind_target, ''ro'')
         (AList.update (path_str join_host) (join_target, ''ro'') []))"

definition mounts :: "conf \<Rightarrow> fs \<Rightarrow> inst \<Rightarrow> (string \<times> string) list \<Rightarrow> bool \<Rightarrow> pyerr + volumes" where
  "mounts c fs i env require_eap =
     bindE (resolve_under fs (comps (c_secrets_dir c)) (i_join_secret i)) (\<lambda>join_host.
     bindE (resolve_under fs (comps (c_secrets_dir c)) (i_ldap_bind_secret i)) (\<lambda>bind_host.
     bindE (must_be_file fs join_host) (\<lambda>_.
     bindE (must_be_file fs bind_host) (\<lambda>_.
     bindE (env_at env ''JOIN_SECRET'') (\<lambda>join_target.
     bindE (env_at env ''LDAP_BIND_SECRET'') (\<lambda>bind_target.
     bindE (resolve_under fs (comps (c_certs_dir c)) (i_name i)) (\<lambda>cert_dir.
     bindE (eap_mounts fs cert_dir env require_eap EAP_FILES
              (first_volumes (i_name i) join_host join_target bind_host bind_target)) (\<lambda>vols.
     case i_ldap_ca i of
       None \<Rightarrow> Inr vols
     | Some ca \<Rightarrow>
         bindE (resolve_under fs cert_dir ca) (\<lambda>ca_host.
         bindE (must_be_file fs ca_host) (\<lambda>_.
         bindE (env_at env ''LDAP_CA'') (\<lambda>target.
         Inr (AList.update (path_str ca_host) (target, ''ro'') vols))))))))))))"

definition hardened :: "conf \<Rightarrow> hardening" where
  "hardened c = \<lparr>
     h_read_only = True,
     h_tmpfs = [(''/run'', ''''), (''/tmp'', '''')],
     h_cap_drop = [''ALL''],
     h_cap_add = [''SETUID'', ''SETGID'', ''DAC_OVERRIDE'', ''CHOWN''],
     h_security_opt = [''no-new-privileges:true''],
     h_log_type = ''json-file'',
     h_log_config = [(''max-size'', c_log_max_size c), (''max-file'', str_int (c_log_max_file c))] \<rparr>"

section \<open>Status\<close>

record status =
  st_name :: string
  st_exists :: bool
  st_running :: bool
  st_health :: "string option"
  st_restart_count :: "int option"
  st_crash_looping :: bool
  st_exit_code :: "pyval option"
  st_image :: "string option"
  st_last_error :: "string option"

definition no_container :: "string \<Rightarrow> status" where
  "no_container name = \<lparr> st_name = name, st_exists = False, st_running = False, st_health = None,
     st_restart_count = None, st_crash_looping = False, st_exit_code = None, st_image = None,
     st_last_error = None \<rparr>"

definition last_error :: "('g, 'd) ext \<Rightarrow> string \<Rightarrow> ('g, 'd, string) run" where
  "last_error x c =
     bindP (tryP (bindP (engine (CLogs c 600 None None) (x_logs x c 600 None None))
                   (\<lambda>text. returnP (splitlines text)))
             (\<lambda>e. if is_api_error e then returnP [] else raiseP e))
       (\<lambda>lines. returnP (pick_error_line lines))"

definition status :: "('g, 'd) ext \<Rightarrow> string \<Rightarrow> ('g, 'd, status) run" where
  "status x name = bindP (get_container x name) (\<lambda>found.
     case found of
       None \<Rightarrow> returnP (no_container name)
     | Some c \<Rightarrow>
         bindP (engine (CReload c) (x_reload x c)) (\<lambda>attrs.
         bindP (liftP (state_view attrs)) (\<lambda>v.
         bindP (engine (CImage c) (x_image x c)) (\<lambda>tags.
         bindP (if vw_crash_looping v then bindP (last_error x c) (\<lambda>l. returnP (Some l)) else returnP None)
           (\<lambda>err. returnP \<lparr> st_name = name, st_exists = True, st_running = vw_running v,
              st_health = vw_health v, st_restart_count = Some (vw_restart_count v),
              st_crash_looping = vw_crash_looping v, st_exit_code = vw_exit_code v,
              st_image = (case tags of Some (t # ts) \<Rightarrow> Some t | _ \<Rightarrow> None),
              st_last_error = err \<rparr>)))))"

text \<open>The clock: \<open>time.monotonic()\<close> and \<open>time.sleep\<close>.\<close>

definition now :: "('g, 'd) ext \<Rightarrow> ('g, 'd, int) run" where
  "now x = getP (\<lambda>w. x_now x (w_dk w))"

definition sleep :: "('g, 'd) ext \<Rightarrow> int \<Rightarrow> ('g, 'd, unit) run" where
  "sleep x ms = updP (\<lambda>w. w \<lparr> w_dk := x_sleep x ms (w_dk w) \<rparr>)"

text \<open>
  The loop of \<open>_wait_settled\<close>. The clock is read only if no other condition ends the loop, as \<open>or\<close>
  does.
\<close>

definition settled :: "status \<Rightarrow> bool" where
  "settled st = (st_health st \<in> {Some ''healthy'', Some ''unhealthy''} \<or> st_crash_looping st \<or> \<not> st_running st)"

primrec settle_loop :: "('g, 'd) ext \<Rightarrow> string \<Rightarrow> int \<Rightarrow> nat \<Rightarrow> ('g, 'd, status) run" where
  "settle_loop x name deadline 0 = raiseP NoFuel"
| "settle_loop x name deadline (Suc fuel) =
     bindP (status x name) (\<lambda>st.
     if settled st then returnP st
     else bindP (now x) (\<lambda>t.
       if deadline \<le> t then returnP st
       else bindP (sleep x SETTLE_POLL) (\<lambda>_. settle_loop x name deadline fuel)))"

definition wait_settled :: "('g, 'd) ext \<Rightarrow> conf \<Rightarrow> string \<Rightarrow> ('g, 'd, status) run" where
  "wait_settled x c name =
     bindP (now x) (\<lambda>t. settle_loop x name (t + c_settle_timeout c) (c_fuel c))"

section \<open>Starting an instance\<close>

definition run_spec_of :: "conf \<Rightarrow> inst \<Rightarrow> (string \<times> string) list \<Rightarrow> volumes \<Rightarrow> run_spec" where
  "run_spec_of c i env vols = \<lparr>
     rs_image = i_image i, rs_command = None, rs_name = Some (container_name i),
     rs_hostname = i_server_fqdn i, rs_env = env, rs_volumes = vols,
     rs_ports = [(str_int AUTH_PORT @ ''/udp'', c_bind_ip c, AUTH_PORT),
                 (str_int ACCT_PORT @ ''/udp'', c_bind_ip c, ACCT_PORT)],
     rs_detach = True, rs_remove = False, rs_restart = Some ''unless-stopped'', rs_healthcheck = None,
     rs_hardening = hardened c \<rparr>"

text \<open>What \<open>ensure_running\<close> does before it touches the container: the last value it needs is the volumes.\<close>

definition prepare :: "('g, 'd) ext \<Rightarrow> conf \<Rightarrow> inst \<Rightarrow> ('g, 'd, (string \<times> string) list \<times> volumes) run" where
  "prepare x c i =
     bindP (render_instance c i) (\<lambda>render_host.
     bindP (env_for x c i) (\<lambda>env.
     bindP (from_fs (\<lambda>fs. mounts c fs i env True)) (\<lambda>vols.
     returnP (env, AList.update (path_str render_host) (INSTANCE_D_MOUNT, ''ro'') vols))))"

definition replace_container ::
  "('g, 'd) ext \<Rightarrow> conf \<Rightarrow> inst \<Rightarrow> (string \<times> string) list \<Rightarrow> volumes \<Rightarrow> ('g, 'd, unit) run" where
  "replace_container x c i env vols =
     bindP (get_container x (i_name i)) (\<lambda>existing.
     bindP (case existing of None \<Rightarrow> returnP () | Some old \<Rightarrow> engine (CRemove old) (x_remove x old)) (\<lambda>_.
     bindP (engine (CRun (run_spec_of c i env vols)) (x_run x (run_spec_of c i env vols))) (\<lambda>_.
     returnP ())))"

definition ensure_running :: "('g, 'd) ext \<Rightarrow> conf \<Rightarrow> inst \<Rightarrow> ('g, 'd, status) run" where
  "ensure_running x c i =
     bindP (tryP (pull x (i_image i)) (\<lambda>e. if is_api_error e then returnP () else raiseP e)) (\<lambda>_.
     bindP (prepare x c i) (\<lambda>(env, vols).
     bindP (replace_container x c i env vols) (\<lambda>_.
     wait_settled x c (i_name i))))"

definition start :: "('g, 'd) ext \<Rightarrow> string \<Rightarrow> ('g, 'd, status) run" where
  "start x name = bindP (get_container x name) (\<lambda>found.
     bindP (case found of None \<Rightarrow> returnP () | Some c \<Rightarrow> engine (CStart c) (x_start x c)) (\<lambda>_. status x name))"

definition stop :: "('g, 'd) ext \<Rightarrow> string \<Rightarrow> ('g, 'd, status) run" where
  "stop x name = bindP (get_container x name) (\<lambda>found.
     bindP (case found of None \<Rightarrow> returnP () | Some c \<Rightarrow> engine (CStop c) (x_stop x c)) (\<lambda>_. status x name))"

definition restart :: "('g, 'd) ext \<Rightarrow> string \<Rightarrow> ('g, 'd, status) run" where
  "restart x name = bindP (get_container x name) (\<lambda>found.
     bindP (case found of None \<Rightarrow> returnP () | Some c \<Rightarrow> engine (CRestart c) (x_restart x c)) (\<lambda>_. status x name))"

section \<open>Removing an instance\<close>

text \<open>The \<open>detail\<close> of the result is the text \<open>lv_detail\<close>, followed by \<open>str(exc)\<close> of \<open>lv_cause\<close>.\<close>

record leave_result =
  lv_ok :: bool
  lv_attempted :: bool
  lv_detail :: string
  lv_cause :: "pyerr option"

definition leave_spec :: "conf \<Rightarrow> inst \<Rightarrow> (string \<times> string) list \<Rightarrow> volumes \<Rightarrow> run_spec" where
  "leave_spec c i env vols = \<lparr>
     rs_image = i_image i, rs_command = Some [''leave''], rs_name = None,
     rs_hostname = i_server_fqdn i, rs_env = env, rs_volumes = vols, rs_ports = [],
     rs_detach = False, rs_remove = True, rs_restart = None, rs_healthcheck = Some [''NONE''],
     rs_hardening = hardened c \<rparr>"

definition run_leave ::
  "('g, 'd) ext \<Rightarrow> conf \<Rightarrow> inst \<Rightarrow> (string \<times> string) list \<Rightarrow> volumes \<Rightarrow> ('g, 'd, leave_result) run" where
  "run_leave x c i env vols =
     tryP (bindP (engine (CRun (leave_spec c i env vols)) (x_run x (leave_spec c i env vols)))
             (\<lambda>out. returnP \<lparr> lv_ok = True, lv_attempted = True, lv_detail = tail_lines out, lv_cause = None \<rparr>))
       (\<lambda>e. case e of
          DockerErr (ContainerError err) \<Rightarrow>
            returnP \<lparr> lv_ok = False, lv_attempted = True, lv_detail = tail_lines err, lv_cause = None \<rparr>
        | _ \<Rightarrow> if is_api_error e
              then returnP \<lparr> lv_ok = False, lv_attempted = True, lv_detail = '''', lv_cause = Some e \<rparr>
              else raiseP e)"

definition has_volume :: "('g, 'd) ext \<Rightarrow> string \<Rightarrow> ('g, 'd, bool) run" where
  "has_volume x v =
     tryP (bindP (engine (CVolGet v) (x_vol_get x v)) (\<lambda>_. returnP True))
       (\<lambda>e. if is_not_found e then returnP False else raiseP e)"

definition leave_domain :: "('g, 'd) ext \<Rightarrow> conf \<Rightarrow> inst \<Rightarrow> ('g, 'd, leave_result) run" where
  "leave_domain x c i =
     bindP (has_volume x (samba_volume (i_name i))) (\<lambda>joined.
     if \<not> joined
     then returnP \<lparr> lv_ok = True, lv_attempted = False, lv_detail = ''never joined (no state volume)'',
      lv_cause = None \<rparr>
     else
       bindP (tryP (bindP (env_for x c i) (\<lambda>env.
                    bindP (from_fs (\<lambda>fs. mounts c fs i env False)) (\<lambda>vols. returnP (Inr (env, vols)))))
                (\<lambda>e. if e = FileNotFound \<or> is_value_error e then returnP (Inl e) else raiseP e))
         (\<lambda>prepared. case prepared of
            Inl e \<Rightarrow> returnP \<lparr> lv_ok = False, lv_attempted = False, lv_detail = ''cannot run the leave: '',
              lv_cause = Some e \<rparr>
          | Inr (env, vols) \<Rightarrow> run_leave x c i env vols))"

definition drop_rendered :: "conf \<Rightarrow> string \<Rightarrow> fs \<Rightarrow> fs" where
  "drop_rendered c name fs =
     (case resolve_under fs (comps (c_render_dir c)) name of
        Inl _ \<Rightarrow> fs
      | Inr inst_dir \<Rightarrow>
          if \<not> isdir fs inst_dir then fs
          else
            (let fs1 = (if isfile fs (inst_dir @ [CLIENTS_FILE])
                        then remove_file (inst_dir @ [CLIENTS_FILE]) fs else fs);
                 fs2 = (if isfile fs1 (inst_dir @ [SSID_POLICY_FILE])
                        then remove_file (inst_dir @ [SSID_POLICY_FILE]) fs1 else fs1)
             in remove_dir inst_dir fs2))"

definition remove :: "('g, 'd) ext \<Rightarrow> conf \<Rightarrow> inst \<Rightarrow> ('g, 'd, leave_result) run" where
  "remove x c i =
     bindP (get_container x (i_name i)) (\<lambda>found.
     bindP (case found of
              None \<Rightarrow> returnP ()
            | Some k \<Rightarrow> tryP (engine (CStop k) (x_stop x k))
                (\<lambda>e. if is_api_error e then returnP () else raiseP e)) (\<lambda>_.
     bindP (leave_domain x c i) (\<lambda>leave.
     bindP (get_container x (i_name i)) (\<lambda>found.
     bindP (case found of None \<Rightarrow> returnP () | Some k \<Rightarrow> engine (CRemove k) (x_remove x k)) (\<lambda>_.
     bindP (tryP (bindP (engine (CVolGet (samba_volume (i_name i))) (x_vol_get x (samba_volume (i_name i))))
                    (\<lambda>_. engine (CVolRemove (samba_volume (i_name i))) (x_vol_remove x (samba_volume (i_name i)))))
              (\<lambda>e. if is_not_found e then returnP () else raiseP e)) (\<lambda>_.
     bindP (updP (\<lambda>w. w \<lparr> w_fs := drop_rendered c (i_name i) (w_fs w) \<rparr>)) (\<lambda>_.
     returnP leave)))))))"

section \<open>Logs and diagnostics\<close>

definition logs_of ::
  "('g, 'd) ext \<Rightarrow> string \<Rightarrow> int \<Rightarrow> int option \<Rightarrow> int option \<Rightarrow> string option \<Rightarrow> ('g, 'd, string) run" where
  "logs_of x name tail since until grep = bindP (get_container x name) (\<lambda>found.
     case found of
       None \<Rightarrow> returnP ''''
     | Some c \<Rightarrow>
         bindP (engine (CLogs c tail since until) (x_logs x c tail since until)) (\<lambda>text. returnP
           (case grep of
              Some (g # gs) \<Rightarrow> join [LF] (filter (sublist (g # gs)) (splitlines text))
            | _ \<Rightarrow> text)))"

definition exec_in :: "('g, 'd) ext \<Rightarrow> string \<Rightarrow> string list \<Rightarrow> ('g, 'd, int \<times> string) run" where
  "exec_in x c argv = engine (CExec c argv) (x_exec x c argv)"

record gate_row =
  gr_ssid :: string
  gr_group :: string
  gr_vlan :: "int option"
  gr_member :: bool

record test_result =
  te_instance :: string
  te_running :: bool
  te_detail :: "string option"
  te_trust :: "trust_verdict option"
  te_login :: "ntlm_verdict option"
  te_gates :: "gate_row list option"

definition ntlm_argv :: "inst \<Rightarrow> string \<Rightarrow> string \<Rightarrow> string \<Rightarrow> string list" where
  "ntlm_argv i user password grp =
     [''ntlm_auth'', ''--request-nt-key'', ''--allow-mschapv2'', ''--domain='' @ i_workgroup i,
      ''--username='' @ user, ''--password='' @ password,
      ''--require-membership-of='' @ i_workgroup i @ [BSL] @ grp]"

text \<open>Formatting a password that is \<open>None\<close> gives the text \<open>None\<close>.\<close>

definition password_text :: "string option \<Rightarrow> string" where
  "password_text p = (case p of None \<Rightarrow> ''None'' | Some s \<Rightarrow> s)"

definition gate_of :: "('g, 'd) ext \<Rightarrow> string \<Rightarrow> inst \<Rightarrow> string \<Rightarrow> string \<Rightarrow> ssid \<Rightarrow> ('g, 'd, gate_row) run" where
  "gate_of x k i user password s =
     bindP (exec_in x k (ntlm_argv i user password (s_allowed_group s))) (\<lambda>(code, out). returnP
       \<lparr> gr_ssid = s_name s, gr_group = s_allowed_group s, gr_vlan = s_vlan s,
         gr_member = nt_ok (interpret_ntlm code out) \<rparr>)"

definition test :: "('g, 'd) ext \<Rightarrow> inst \<Rightarrow> string option \<Rightarrow> string option \<Rightarrow> ('g, 'd, test_result) run" where
  "test x i user password =
     bindP (get_container x (i_name i)) (\<lambda>found.
     let res = \<lparr> te_instance = i_name i, te_running = False, te_detail = None, te_trust = None,
                 te_login = None, te_gates = None \<rparr> in
     case found of
       None \<Rightarrow> returnP (res \<lparr> te_detail := Some (''container does not exist '' @ DASH @
                 '' run 'lmnradius reconcile'' @ [CHR 0x27] @ '' first'') \<rparr>)
     | Some k \<Rightarrow>
         bindP (engine (CReload k) (x_reload x k)) (\<lambda>attrs.
         bindP (liftP (case dget attrs ''State'' of
                         None \<Rightarrow> Inr []
                       | Some (PDict d) \<Rightarrow> Inr d
                       | Some v \<Rightarrow> if truthy v then Inl OtherErr else Inr [])) (\<lambda>st.
         if \<not> flag st ''Running'' then
           returnP (res \<lparr> te_detail := Some (''container is not running '' @ DASH @ '' check 'lmnradius status''
             @ [CHR 0x27] @ '' / 'lmnradius logs'' @ [CHR 0x27]) \<rparr>)
         else
           bindP (exec_in x k [''wbinfo'', ''-t'']) (\<lambda>(code, out).
           let res = res \<lparr> te_running := True, te_trust := Some (interpret_trust code out) \<rparr> in
           case user of
             None \<Rightarrow> returnP res
           | Some u \<Rightarrow>
               bindP (exec_in x k (ntlm_argv i u (password_text password) (i_wifi_group i))) (\<lambda>(code, out).
               let login = interpret_ntlm code out in
               bindP (if nt_ok login \<or> nt_code login = ''NT_STATUS_LOGON_FAILURE''
                      then mapP (gate_of x k i u (password_text password)) (i_ssids i)
                      else returnP []) (\<lambda>gates.
               returnP (res \<lparr> te_login := Some login, te_gates := Some gates \<rparr>)))))))"

end
