(* ===== verification/DockerFacts.thy ===== *)
theory DockerFacts
  imports Docker
begin

text \<open>
  Facts on the Docker service: what its operations leave alone, which calls they make, how a run of
  \<open>ensure_running\<close> splits, and what the mounts consist of. The service keeps the contract of a deployer.
\<close>

section \<open>What the service leaves alone\<close>

text \<open>No operation of the service writes the instances directory or runs git.\<close>

abbreviation records :: "('g, 'd) world \<Rightarrow> (string \<times> content) list \<times> 'g" where
  "records w \<equiv> (w_insts w, w_git w)"

lemma keeps_on_fs [keeps_intros]: "(\<And>w fs. v (w \<lparr> w_fs := fs \<rparr>) = v w) \<Longrightarrow> keeps v (on_fs f)"
  by (simp add: keeps_def on_fs_def split: sum.split)

lemma keeps_from_fs [keeps_intros]: "keeps v (from_fs f)"
  unfolding from_fs_def by (intro keeps_intros)

lemma keeps_sleep [keeps_intros]: "(\<And>w d. v (w \<lparr> w_dk := d \<rparr>) = v w) \<Longrightarrow> keeps v (sleep x ms)"
  by (simp add: keeps_def sleep_def)

lemma keeps_now [keeps_intros]: "keeps v (now x)"
  unfolding now_def by (intro keeps_intros)

lemma keeps_split [keeps_intros]: "(\<And>a b. keeps v (f a b)) \<Longrightarrow> keeps v (case p of (a, b) \<Rightarrow> f a b)"
  by (cases p) auto

text \<open>A view of the state that calls of the engine and the clock do not change.\<close>

definition apart :: "(('g, 'd) world \<Rightarrow> 'v) \<Rightarrow> bool" where
  "apart v \<longleftrightarrow> (\<forall>w d l. v (w \<lparr> w_dk := d, w_log := l \<rparr>) = v w)"

lemma apart_engine [keeps_intros]: "apart v \<Longrightarrow> keeps v (engine c f)"
  by (intro keeps_engine) (simp add: apart_def)

lemma apart_dk: "apart v \<Longrightarrow> v (w \<lparr> w_dk := d \<rparr>) = v w"
proof -
  assume "apart v"
  moreover have "w \<lparr> w_dk := d \<rparr> = w \<lparr> w_dk := d, w_log := w_log w \<rparr>" by simp
  ultimately show ?thesis unfolding apart_def by metis
qed

lemma apart_sleep [keeps_intros]: "apart v \<Longrightarrow> keeps v (sleep x ms)"
  by (intro keeps_sleep apart_dk)

lemma apart_views [simp]: "apart w_insts" "apart w_git" "apart w_fs" "apart records" "apart (look_inst x)"
  by (auto simp: apart_def look_inst_def fun_eq_iff)

lemma keeps_pull [keeps_intros]: "apart v \<Longrightarrow> keeps v (pull x img)"
  unfolding pull_def by (cases "pull_args img") (simp add: apart_engine)

lemma keeps_get_container [keeps_intros]: "apart v \<Longrightarrow> keeps v (get_container x n)"
  unfolding get_container_def by (intro keeps_intros)

lemma keeps_env_for [keeps_intros]: "keeps v (env_for x c i)"
  unfolding env_for_def Let_def by (intro keeps_intros)

lemma keeps_last_error [keeps_intros]: "apart v \<Longrightarrow> keeps v (last_error x c)"
  unfolding last_error_def by (intro keeps_intros)

lemma keeps_status [keeps_intros]: "apart v \<Longrightarrow> keeps v (status x n)"
  unfolding status_def by (intro keeps_intros)

lemma keeps_settle_loop [keeps_intros]: "apart v \<Longrightarrow> keeps v (settle_loop x n t k)"
  by (induction k) (auto intro!: keeps_intros)

lemma keeps_wait_settled [keeps_intros]: "apart v \<Longrightarrow> keeps v (wait_settled x c n)"
  unfolding wait_settled_def by (intro keeps_intros)

lemma keeps_replace [keeps_intros]: "apart v \<Longrightarrow> keeps v (replace_container x c i env vols)"
  unfolding replace_container_def by (intro keeps_intros)

text \<open>Rendering only changes files.\<close>

lemma keeps_render [keeps_intros]:
  "(\<And>w fs. v (w \<lparr> w_fs := fs \<rparr>) = v w) \<Longrightarrow> keeps v (render_instance c i)"
  unfolding render_instance_def by (intro keeps_intros)

lemma keeps_prepare [keeps_intros]:
  "(\<And>w fs. v (w \<lparr> w_fs := fs \<rparr>) = v w) \<Longrightarrow> keeps v (prepare x c i)"
  unfolding prepare_def by (intro keeps_intros)

lemma keeps_ensure [keeps_intros]:
  "apart v \<Longrightarrow> (\<And>w fs. v (w \<lparr> w_fs := fs \<rparr>) = v w) \<Longrightarrow> keeps v (ensure_running x c i)"
  unfolding ensure_running_def by (intro keeps_intros)

interpretation dock: deployer "store_put x" "store_get x" "store_delete x" "look_inst x" "storable x"
    "ensure_running x c"
  for x :: "('g, 'd) ext" and c :: conf
proof
  fix i
  show "keeps (look_inst x) (ensure_running x c i)"
    by (intro keeps_ensure) (auto simp: look_inst_def fun_eq_iff)
qed

section \<open>Failing closed\<close>

text \<open>Every file the container needs is there: secrets, EAP material, and the pinned CA if there is one.\<close>

definition sources_ok :: "conf \<Rightarrow> fs \<Rightarrow> inst \<Rightarrow> bool" where
  "sources_ok c fs i \<longleftrightarrow>
     (\<exists>join_host bind_host cert_dir.
        resolve_under fs (comps (c_secrets_dir c)) (i_join_secret i) = Inr join_host \<and> isfile fs join_host
      \<and> resolve_under fs (comps (c_secrets_dir c)) (i_ldap_bind_secret i) = Inr bind_host \<and> isfile fs bind_host
      \<and> resolve_under fs (comps (c_certs_dir c)) (i_name i) = Inr cert_dir
      \<and> (\<forall>f \<in> {CA_FILE, CERT_FILE, KEY_FILE}. isfile fs (cert_dir @ [f]))
      \<and> (case i_ldap_ca i of None \<Rightarrow> True
         | Some ca \<Rightarrow> (case resolve_under fs cert_dir ca of Inl _ \<Rightarrow> False | Inr p \<Rightarrow> isfile fs p)))"

lemma eap_mounts_files:
  "eap_mounts fs d env True fks vols = Inr vols' \<Longrightarrow> fk \<in> set fks \<Longrightarrow> isfile fs (d @ [fst fk])"
  by (induction fks arbitrary: vols) (auto simp: bindE_Inr_iff split: if_splits)

lemma must_be_file_Inr [simp]: "must_be_file fs p = Inr u \<longleftrightarrow> isfile fs p"
  by (simp add: must_be_file_def)

lemma mounts_Inr:
  "mounts c fs i env req = Inr vols \<longleftrightarrow>
     (\<exists>join_host bind_host jt bt cert_dir vols1.
        resolve_under fs (comps (c_secrets_dir c)) (i_join_secret i) = Inr join_host \<and> isfile fs join_host
      \<and> resolve_under fs (comps (c_secrets_dir c)) (i_ldap_bind_secret i) = Inr bind_host \<and> isfile fs bind_host
      \<and> env_at env ''JOIN_SECRET'' = Inr jt \<and> env_at env ''LDAP_BIND_SECRET'' = Inr bt
      \<and> resolve_under fs (comps (c_certs_dir c)) (i_name i) = Inr cert_dir
      \<and> eap_mounts fs cert_dir env req EAP_FILES (first_volumes (i_name i) join_host jt bind_host bt) = Inr vols1
      \<and> (case i_ldap_ca i of
           None \<Rightarrow> vols = vols1
         | Some ca \<Rightarrow> \<exists>p t. resolve_under fs cert_dir ca = Inr p \<and> isfile fs p
             \<and> env_at env ''LDAP_CA'' = Inr t \<and> vols = AList.update (path_str p) (t, ''ro'') vols1))"
  unfolding mounts_def
  by (cases "i_ldap_ca i") (simp_all only: bindE_Inr_iff must_be_file_Inr option.case sum.inject, blast+)

lemma eap_mounts_all:
  assumes "eap_mounts fs d env True EAP_FILES vols = Inr vols'"
  shows "\<forall>f \<in> {CA_FILE, CERT_FILE, KEY_FILE}. isfile fs (d @ [f])"
  using eap_mounts_files [OF assms, of "(CA_FILE, ''EAP_CA'')"] eap_mounts_files [OF assms, of "(CERT_FILE, ''EAP_CERT'')"]
    eap_mounts_files [OF assms, of "(KEY_FILE, ''EAP_KEY'')"] by (simp add: EAP_FILES_def)

lemma mounts_sources:
  assumes "mounts c fs i env True = Inr vols"
  shows "sources_ok c fs i"
proof -
  obtain join_host bind_host cert_dir vols0 vols1 where
    j: "resolve_under fs (comps (c_secrets_dir c)) (i_join_secret i) = Inr join_host" "isfile fs join_host"
    and b: "resolve_under fs (comps (c_secrets_dir c)) (i_ldap_bind_secret i) = Inr bind_host" "isfile fs bind_host"
    and d: "resolve_under fs (comps (c_certs_dir c)) (i_name i) = Inr cert_dir"
    and eap: "eap_mounts fs cert_dir env True EAP_FILES vols0 = Inr vols1"
    and ca: "case i_ldap_ca i of None \<Rightarrow> vols = vols1
         | Some ca \<Rightarrow> \<exists>p t. resolve_under fs cert_dir ca = Inr p \<and> isfile fs p
             \<and> env_at env ''LDAP_CA'' = Inr t \<and> vols = AList.update (path_str p) (t, ''ro'') vols1"
    using assms unfolding mounts_Inr by blast
  have "case i_ldap_ca i of None \<Rightarrow> True
     | Some ca \<Rightarrow> (case resolve_under fs cert_dir ca of Inl _ \<Rightarrow> False | Inr p \<Rightarrow> isfile fs p)"
    using ca by (cases "i_ldap_ca i") auto
  with j b d eap_mounts_all [OF eap] show ?thesis unfolding sources_ok_def by blast
qed

lemma run_engine: "engine k f w = (fst (f (w_dk w)), w \<lparr> w_dk := snd (f (w_dk w)), w_log := w_log w @ [k] \<rparr>)"
  by (simp add: engine_def split: prod.split)

lemma prepare_Inr:
  assumes "prepare x c i w = (Inr (env, vols), w')"
  obtains p w1 w2 vols0 where "render_instance c i w = (Inr p, w1)" and "env_for x c i w1 = (Inr env, w2)"
    and "w' = w2" and "mounts c (w_fs w2) i env True = Inr vols0"
    and "vols = AList.update (path_str p) (INSTANCE_D_MOUNT, ''ro'') vols0"
  using assms unfolding prepare_def by (auto simp: bind_Inr_iff from_fs_def)

lemma logs_pull [logs_intros]: "(\<And>r t. P (CPull r t)) \<Longrightarrow> logs P (pull x img)"
  unfolding pull_def by (cases "pull_args img") (simp add: logs_engine)

lemma logs_on_fs [logs_intros]: "logs P (on_fs f)"
  by (simp add: logs_def on_fs_def split: sum.split)

lemma logs_from_fs [logs_intros]: "logs P (from_fs f)"
  unfolding from_fs_def by (intro logs_intros)

lemma logs_now [logs_intros]: "logs P (now x)"
  unfolding now_def by (intro logs_intros)

lemma logs_sleep [logs_intros]: "logs P (sleep x ms)"
  by (simp add: logs_def sleep_def)

lemma logs_split [logs_intros]: "(\<And>a b. logs P (f a b)) \<Longrightarrow> logs P (case p of (a, b) \<Rightarrow> f a b)"
  by (cases p) auto

lemma logs_get_container [logs_intros]: "P (CGet (docker_name n)) \<Longrightarrow> logs P (get_container x n)"
  unfolding get_container_def by (intro logs_intros) auto

lemma logs_env_for [logs_intros]: "logs P (env_for x c i)"
  unfolding env_for_def Let_def by (intro logs_intros)

lemma logs_render [logs_intros]: "logs P (render_instance c i)"
  unfolding render_instance_def by (intro logs_intros)

lemma logs_prepare [logs_intros]: "logs P (prepare x c i)"
  unfolding prepare_def by (intro logs_intros)

text \<open>The calls of a status: they look, they change nothing.\<close>

definition looks :: "call \<Rightarrow> bool" where
  "looks k = (case k of CGet _ \<Rightarrow> True | CReload _ \<Rightarrow> True | CImage _ \<Rightarrow> True | CLogs _ _ _ _ \<Rightarrow> True | _ \<Rightarrow> False)"

lemma logs_status [logs_intros]: "(\<And>k. looks k \<Longrightarrow> P k) \<Longrightarrow> logs P (status x n)"
  unfolding status_def last_error_def by (intro logs_intros) (simp_all add: looks_def)

lemma logs_settle_loop [logs_intros]: "(\<And>k. looks k \<Longrightarrow> P k) \<Longrightarrow> logs P (settle_loop x n t fuel)"
  by (induction fuel) (auto intro!: logs_intros)

lemma logs_wait_settled [logs_intros]: "(\<And>k. looks k \<Longrightarrow> P k) \<Longrightarrow> logs P (wait_settled x c n)"
  unfolding wait_settled_def by (intro logs_intros)

lemma prepare_frame:
  assumes "prepare x c i w = (r, w')"
  shows "w_dk w' = w_dk w" and "w_log w' = w_log w" and "records w' = records w"
  by (rule keepsD [where m = "prepare x c i", OF keeps_prepare assms], simp)+

lemma pull_run:
  assumes "pull_args img = (repo, tag)"
  shows "pull x img w = (fst (x_pull x repo tag (w_dk w)),
    w \<lparr> w_dk := snd (x_pull x repo tag (w_dk w)), w_log := w_log w @ [CPull repo tag] \<rparr>)"
  by (simp add: pull_def assms run_engine)

lemma get_container_run:
  "\<exists>q. get_container x n w = (q, w \<lparr> w_dk := snd (x_get x (docker_name n) (w_dk w)),
     w_log := w_log w @ [CGet (docker_name n)] \<rparr>)"
  by (cases "fst (x_get x (docker_name n) (w_dk w))")
    (auto simp: get_container_def run_try run_bind run_engine)

text \<open>Replacing the container first asks for it, whatever comes then.\<close>

lemma replace_then_first:
  assumes "bindP (replace_container x c i env vols) f w = (r, w')" and "\<And>u. logs (\<lambda>_. True) (f u)"
  shows "\<exists>cs. w_log w' = w_log w @ CGet (docker_name (i_name i)) # cs"
proof -
  let ?n = "docker_name (i_name i)"
  let ?w = "w \<lparr> w_dk := snd (x_get x ?n (w_dk w)), w_log := w_log w @ [CGet ?n] \<rparr>"
  define rest where "rest existing = bindP
      (case existing of None \<Rightarrow> returnP () | Some old \<Rightarrow> engine (CRemove old) (x_remove x old)) (\<lambda>_.
     bindP (engine (CRun (run_spec_of c i env vols)) (x_run x (run_spec_of c i env vols))) (\<lambda>_. f ()))" for existing
  have all: "logs (\<lambda>_. True) (rest existing)" for existing
    unfolding rest_def using assms(2) by (intro logs_intros) auto
  have "bindP (get_container x (i_name i)) rest w = (r, w')"
    using assms(1) by (simp add: replace_container_def bind_assoc rest_def [abs_def])
  moreover obtain q where get: "get_container x (i_name i) w = (q, ?w)"
    using get_container_run by blast
  ultimately have run: "(case q of Inl e \<Rightarrow> (Inl e, ?w) | Inr a \<Rightarrow> rest a ?w) = (r, w')"
    by (simp add: run_bind split: sum.splits)
  have "\<exists>cs. w_log w' = w_log ?w @ cs"
  proof (cases q)
    case (Inl e)
    with run have "w' = ?w" by simp
    then show ?thesis by simp
  next
    case (Inr a)
    with run have "rest a ?w = (r, w')" by simp
    from logsD [OF all this] show ?thesis by blast
  qed
  then show ?thesis by auto
qed

text \<open>
  How a run of \<open>ensure_running\<close> splits: it stops with an exception before the teardown, or the
  preparation succeeds and the container is replaced.
\<close>

lemma ensure_running_split:
  assumes "ensure_running x c i w = (r, w')" and "pull_args (i_image i) = (repo, tag)"
    and "w1 = w \<lparr> w_dk := snd (x_pull x repo tag (w_dk w)), w_log := w_log w @ [CPull repo tag] \<rparr>"
  shows "isl r \<and> w_dk w' = w_dk w1 \<and> w_log w' = w_log w1
    \<or> (\<exists>env vols w2. prepare x c i w1 = (Inr (env, vols), w2)
       \<and> bindP (replace_container x c i env vols) (\<lambda>_. wait_settled x c (i_name i)) w2 = (r, w'))"
proof -
  define m where "m = bindP (prepare x c i) (\<lambda>(env, vols).
     bindP (replace_container x c i env vols) (\<lambda>_. wait_settled x c (i_name i)))"
  have run: "(case fst (x_pull x repo tag (w_dk w)) of
      Inl e \<Rightarrow> if is_api_error e then m w1 else (Inl e, w1) | Inr u \<Rightarrow> m w1) = (r, w')"
    using assms(1) pull_run [OF assms(2), of x w] unfolding assms(3)
    by (auto simp: ensure_running_def m_def run_bind [of "tryP _ _"] run_try split: sum.splits)
  then consider "isl r" "w' = w1" | "m w1 = (r, w')"
    by (auto split: sum.splits if_splits)
  then show ?thesis
  proof cases
    case 1
    then show ?thesis by simp
  next
    case 2
    obtain q w2 where p: "prepare x c i w1 = (q, w2)" by fastforce
    show ?thesis
    proof (cases q)
      case (Inl e)
      with 2 p have "r = Inl e" "w' = w2" by (simp_all add: m_def run_bind)
      with prepare_frame [OF p] show ?thesis by simp
    next
      case (Inr ev)
      obtain env vols where "ev = (env, vols)" by (cases ev)
      with 2 p Inr show ?thesis by (auto simp: m_def run_bind)
    qed
  qed
qed

lemma replace_keeps_fs:
  "bindP (replace_container x c i env vols) (\<lambda>_. wait_settled x c (i_name i)) w = (r, w') \<Longrightarrow> w_fs w' = w_fs w"
  by (rule keepsD [where m = "bindP (replace_container x c i env vols) (\<lambda>_. wait_settled x c (i_name i))"],
      intro keeps_intros) simp_all

text \<open>All containers \<open>ensure_running\<close> starts have the prepared environment and volumes.\<close>

lemma ensure_running_runs:
  assumes "ensure_running x c i w = (r, w')"
  shows "\<exists>cs. w_log w' = w_log w @ cs \<and> (\<forall>s. CRun s \<in> set cs \<longrightarrow>
    (\<exists>w1 w2 env vols. w_fs w1 = w_fs w \<and> w_fs w2 = w_fs w' \<and> prepare x c i w1 = (Inr (env, vols), w2)
       \<and> s = run_spec_of c i env vols))"
proof -
  obtain repo tag where pa: "pull_args (i_image i) = (repo, tag)" by fastforce
  define w1 where "w1 = w \<lparr> w_dk := snd (x_pull x repo tag (w_dk w)), w_log := w_log w @ [CPull repo tag] \<rparr>"
  from ensure_running_split [OF assms pa w1_def] show ?thesis
  proof (elim disjE exE conjE)
    assume "w_log w' = w_log w1"
    then show ?thesis by (intro exI [of _ "[CPull repo tag]"]) (simp add: w1_def)
  next
    fix env vols w2
    assume p: "prepare x c i w1 = (Inr (env, vols), w2)"
      and n: "bindP (replace_container x c i env vols) (\<lambda>_. wait_settled x c (i_name i)) w2 = (r, w')"
    let ?P = "\<lambda>k. \<forall>s. k = CRun s \<longrightarrow> s = run_spec_of c i env vols"
    have "logs ?P (bindP (replace_container x c i env vols) (\<lambda>_. wait_settled x c (i_name i)))"
      unfolding replace_container_def by (intro logs_intros) (auto simp: looks_def)
    from logsD [OF this n] obtain ds where ds: "w_log w' = w_log w2 @ ds" "list_all ?P ds" by blast
    have "w_fs w1 = w_fs w" by (simp add: w1_def)
    have "\<exists>w1 w2 env vols. w_fs w1 = w_fs w \<and> w_fs w2 = w_fs w' \<and> prepare x c i w1 = (Inr (env, vols), w2)
       \<and> s = run_spec_of c i env vols" if "CRun s \<in> set (CPull repo tag # ds)" for s
    proof -
      have "s = run_spec_of c i env vols" using that ds(2) by (auto simp: list_all_iff)
      with \<open>w_fs w1 = w_fs w\<close> replace_keeps_fs [OF n] p show ?thesis
        by (intro exI [of _ w1] exI [of _ w2] exI [of _ env] exI [of _ vols]) simp
    qed
    moreover have "w_log w' = w_log w @ CPull repo tag # ds"
      using ds(1) prepare_frame(2) [OF p] by (simp add: w1_def)
    ultimately show ?thesis by blast
  qed
qed

end
