(* ===== verification/DockerExample.thy ===== *)
theory DockerExample
  imports DockerFacts
begin

text \<open>
  An instance with its files, records and engine, on which the theorems about the services are run.
\<close>

section \<open>An example\<close>

definition sample_conf :: conf where
  "sample_conf = default_conf \<lparr> c_secrets_dir := ''/s'', c_certs_dir := ''/c'', c_render_dir := ''/r'' \<rparr>"

definition dock_inst :: inst where
  "dock_inst = sample_inst \<lparr> i_name := ''a'', i_join_secret := ''j'', i_ldap_bind_secret := ''b'',
     i_radius_secret := ''r'', i_image := ''i:1'', i_ldap_ca := Some ''l'' \<rparr>"

definition sample_fs :: fs where
  "sample_fs =
     [([''s''], FDir mode_700), ([''c''], FDir mode_dir), ([''r''], FDir mode_dir), ([''c'', ''a''], FDir mode_700),
      ([''s'', ''j''], FFile (Text ''join'') mode_600),
      ([''s'', ''b''], FFile (Text ''bind'') mode_600),
      ([''s'', ''r''], FFile (Text (''s3cret'' @ [LF])) mode_600),
      ([''c'', ''a'', ''ca.pem''], FFile (Text ''ca'') mode_600),
      ([''c'', ''a'', ''server.pem''], FFile (Text ''cert'') mode_600),
      ([''c'', ''a'', ''server.key''], FFile (Text ''key'') mode_600),
      ([''c'', ''a'', ''l''], FFile (Text ''dc'') mode_600)]"

definition healthy_attrs :: "(pyval \<times> pyval) list" where
  "healthy_attrs =
     [(PStr ''RestartCount'', PInt 0),
      (PStr ''State'', PDict [(PStr ''Running'', PBool True),
         (PStr ''Health'', PDict [(PStr ''Status'', PStr ''healthy'')])])]"

definition starting_attrs :: "(pyval \<times> pyval) list" where
  "starting_attrs =
     [(PStr ''RestartCount'', PInt 0),
      (PStr ''State'', PDict [(PStr ''Running'', PBool True),
         (PStr ''Health'', PDict [(PStr ''Status'', PStr ''starting'')])])]"

text \<open>The image \<open>i:1\<close> is healthy, the image \<open>s:1\<close> stays starting, \<open>x:1\<close> cannot be run.\<close>

definition dock_book :: "string \<Rightarrow> pyval option" where
  "dock_book s =
     find (\<lambda>v. name_of_val v = s) (map (\<lambda>img. model_dump (dock_inst \<lparr> i_image := img \<rparr>)) [''i:1'', ''s:1'', ''x:1''])"

definition dock_attrs :: "string \<Rightarrow> (pyval \<times> pyval) list" where
  "dock_attrs img = (if img = ''i:1'' then healthy_attrs else starting_attrs)"

definition docker_rules :: sim_rules where
  "docker_rules = \<lparr> u_book = dock_book, u_attrs = dock_attrs, u_broken = [''x:1''] \<rparr>"

abbreviation dock_ext :: "(unit, sim) ext" where
  "dock_ext \<equiv> sim_ext docker_rules"

definition dock_world :: "(unit, sim) world" where
  "dock_world = \<lparr>
     w_insts = [(''a.yaml'', Text (name_of_val (model_dump dock_inst)))],
     w_git = (), w_fs = sample_fs,
     w_dk = \<lparr> d_containers = [(''lmnradius-a'', ''i:1'')], d_volumes = [''lmnradius-samba-a''], d_clock = 0 \<rparr>,
     w_log = [] \<rparr>"

lemma dock_inst_valid: "inst_errors dock_inst = []"
  by code_simp

end
