(* ===== verification/Polling.thy ===== *)
theory Polling
  imports DockerExample
begin

text \<open>
  Polling loops: what is assumed of the clock, and that a loop which sleeps between its rounds and gives
  up at a deadline ends, with enough fuel for the rounds that fit before the deadline.
\<close>

section \<open>The clock\<close>

text \<open>
  What is assumed of the services: \<open>sleep\<close> lets at least its time pass, the clock never goes back, and
  \<open>NoFuel\<close>, which is no exception of Python, is not raised by them.
\<close>

definition clock_ok :: "('g, 'd) ext \<Rightarrow> bool" where
  "clock_ok x \<longleftrightarrow>
     (\<forall>ms d. x_now x d + ms \<le> x_now x (x_sleep x ms d))
   \<and> (\<forall>n d. x_now x d \<le> x_now x (snd (x_get x n d)) \<and> fst (x_get x n d) \<noteq> Inl NoFuel)
   \<and> (\<forall>k d. x_now x d \<le> x_now x (snd (x_reload x k d)) \<and> fst (x_reload x k d) \<noteq> Inl NoFuel)
   \<and> (\<forall>k d. x_now x d \<le> x_now x (snd (x_image x k d)) \<and> fst (x_image x k d) \<noteq> Inl NoFuel)
   \<and> (\<forall>k a b c d. x_now x d \<le> x_now x (snd (x_logs x k a b c d)) \<and> fst (x_logs x k a b c d) \<noteq> Inl NoFuel)"

lemma sim_clock: "clock_ok (sim_ext u)"
  by (auto simp: clock_ok_def sim_defs split: option.splits)

text \<open>\<open>timely x m\<close>: \<open>m\<close> does not set the clock back and does not run out of fuel.\<close>

definition timely :: "('g, 'd) ext \<Rightarrow> ('g, 'd, 'a) run \<Rightarrow> bool" where
  "timely x m \<longleftrightarrow> (\<forall>w. x_now x (w_dk w) \<le> x_now x (w_dk (snd (m w))) \<and> fst (m w) \<noteq> Inl NoFuel)"

named_theorems timely_intros "programs that do not set the clock back"

lemma timelyD: "timely x m \<Longrightarrow> m w = (r, w') \<Longrightarrow> x_now x (w_dk w) \<le> x_now x (w_dk w') \<and> r \<noteq> Inl NoFuel"
  unfolding timely_def by (metis fst_conv snd_conv)

lemma timely_return [timely_intros]: "timely x (returnP a)"
  by (simp add: timely_def)

lemma timely_raise [timely_intros]: "e \<noteq> NoFuel \<Longrightarrow> timely x (raiseP e)"
  by (simp add: timely_def)

lemma timely_get [timely_intros]: "timely x (getP f)"
  by (simp add: timely_def)

lemma timely_lift [timely_intros]: "r \<noteq> Inl NoFuel \<Longrightarrow> timely x (liftP r)"
  by (simp add: timely_def)

lemma timely_bind [timely_intros]:
  assumes "timely x m" and "\<And>a. timely x (f a)"
  shows "timely x (bindP m f)"
  unfolding timely_def
proof
  fix w
  obtain r w1 where m: "m w = (r, w1)" by (cases "m w")
  note t = timelyD [OF assms(1) m]
  show "x_now x (w_dk w) \<le> x_now x (w_dk (snd (bindP m f w))) \<and> fst (bindP m f w) \<noteq> Inl NoFuel"
  proof (cases r)
    case (Inl e)
    with m t show ?thesis by (simp add: run_bind)
  next
    case (Inr a)
    have "x_now x (w_dk w1) \<le> x_now x (w_dk (snd (f a w1))) \<and> fst (f a w1) \<noteq> Inl NoFuel"
      using assms(2) [of a] by (simp add: timely_def)
    with m t Inr show ?thesis by (simp add: run_bind)
  qed
qed

lemma timely_try [timely_intros]:
  assumes "timely x m" and "\<And>e. e \<noteq> NoFuel \<Longrightarrow> timely x (h e)"
  shows "timely x (tryP m h)"
  unfolding timely_def
proof
  fix w
  obtain r w1 where m: "m w = (r, w1)" by (cases "m w")
  note t = timelyD [OF assms(1) m]
  show "x_now x (w_dk w) \<le> x_now x (w_dk (snd (tryP m h w))) \<and> fst (tryP m h w) \<noteq> Inl NoFuel"
  proof (cases r)
    case (Inl e)
    have "x_now x (w_dk w1) \<le> x_now x (w_dk (snd (h e w1))) \<and> fst (h e w1) \<noteq> Inl NoFuel"
      using assms(2) [of e] t Inl by (simp add: timely_def)
    with m t Inl show ?thesis by (simp add: run_try)
  next
    case (Inr a)
    with m t show ?thesis by (simp add: run_try)
  qed
qed

lemma timely_if [timely_intros]: "timely x m \<Longrightarrow> timely x n \<Longrightarrow> timely x (if b then m else n)"
  by simp

lemma timely_option [timely_intros]:
  "timely x m \<Longrightarrow> (\<And>y. timely x (f y)) \<Longrightarrow> timely x (case v of None \<Rightarrow> m | Some y \<Rightarrow> f y)"
  by (cases v) auto

lemma timely_engine:
  assumes "\<And>d. x_now x d \<le> x_now x (snd (f d)) \<and> fst (f d) \<noteq> Inl NoFuel"
  shows "timely x (engine k f)"
  using assms by (simp add: timely_def run_engine)

lemma state_view_fuel: "state_view attrs \<noteq> Inl NoFuel"
  by (auto simp: state_view_def Let_def bindE_Inl_iff split: option.splits pyval.splits if_splits)

lemma timely_status:
  assumes "clock_ok x"
  shows "timely x (status x n)"
  unfolding status_def get_container_def last_error_def
  by (intro timely_intros timely_engine state_view_fuel) (use assms in \<open>simp_all add: clock_ok_def\<close>)

section \<open>A loop with a deadline\<close>

text \<open>
  Each round runs \<open>m\<close>; \<open>halt\<close> of its result ends the loop, so does the deadline; else the loop sleeps. Both
  polling loops of the code are of this form.
\<close>

primrec poll :: "('g, 'd) ext \<Rightarrow> ('g, 'd, 's) run \<Rightarrow> ('s \<Rightarrow> 'a option) \<Rightarrow> ('s \<Rightarrow> 'a) \<Rightarrow> int \<Rightarrow> int \<Rightarrow> nat \<Rightarrow> ('g, 'd, 'a) run" where
  "poll x m halt late pause deadline 0 = raiseP NoFuel"
| "poll x m halt late pause deadline (Suc fuel) =
     bindP m (\<lambda>st.
       case halt st of
         Some a \<Rightarrow> returnP a
       | None \<Rightarrow> bindP (now x) (\<lambda>t.
           if deadline \<le> t then returnP (late st)
           else bindP (sleep x pause) (\<lambda>_. poll x m halt late pause deadline fuel)))"

lemma poll_ends:
  assumes "clock_ok x" and "timely x m" and "0 < pause"
    and "deadline - x_now x (w_dk w) \<le> int k * pause"
    and "poll x m halt late pause deadline (Suc k) w = (r, w')"
  shows "r \<noteq> Inl NoFuel
    \<and> (\<forall>a. r = Inr a \<longrightarrow> (\<exists>st. halt st = Some a) \<or> (\<exists>st. a = late st \<and> halt st = None) \<and> deadline \<le> x_now x (w_dk w'))"
  using assms(4,5)
proof (induction k arbitrary: w)
  case 0
  obtain q w1 where m: "m w = (q, w1)" by (cases "m w")
  note t = timelyD [OF assms(2) m]
  show ?case
  proof (cases q)
    case (Inl e)
    with m t 0 show ?thesis by (auto simp: run_bind)
  next
    case (Inr st)
    have "deadline \<le> x_now x (w_dk w1)" using 0(1) t by simp
    with m Inr 0(2) show ?thesis by (cases "halt st") (auto simp: run_bind now_def)
  qed
next
  case (Suc k)
  obtain q w1 where m: "m w = (q, w1)" by (cases "m w")
  note t = timelyD [OF assms(2) m]
  show ?case
  proof (cases q)
    case (Inl e)
    with m t Suc show ?thesis by (auto simp: run_bind)
  next
    case (Inr st)
    show ?thesis
    proof (cases "halt st = None \<and> \<not> deadline \<le> x_now x (w_dk w1)")
      case False
      with m Inr Suc(3) show ?thesis by (cases "halt st") (auto simp: run_bind now_def)
    next
      case True
      let ?w2 = "w1 \<lparr> w_dk := x_sleep x pause (w_dk w1) \<rparr>"
      have run: "poll x m halt late pause deadline (Suc k) ?w2 = (r, w')"
        using m Inr Suc(3) True unfolding poll.simps(2) [of _ _ _ _ _ _ "Suc k"]
        by (simp add: run_bind [of m] now_def sleep_def del: poll.simps)
      have "x_now x (w_dk w1) + pause \<le> x_now x (w_dk ?w2)" using assms(1) by (simp add: clock_ok_def)
      with t Suc.prems(1) have "deadline - x_now x (w_dk ?w2) \<le> int k * pause" by (simp add: algebra_simps)
      from Suc.IH [OF this run] show ?thesis .
    qed
  qed
qed

text \<open>How a run of the loop ended: the last thing done was a round.\<close>

lemma poll_last:
  assumes "poll x m halt late pause deadline k w = (Inr a, w')"
  shows "\<exists>w1 st. m w1 = (Inr st, w') \<and>
    (halt st = Some a \<or> halt st = None \<and> a = late st \<and> deadline \<le> x_now x (w_dk w'))"
  using assms
proof (induction k arbitrary: w)
  case (Suc k)
  obtain q w1 where m: "m w = (q, w1)" by (cases "m w")
  with Suc.prems obtain st where q: "q = Inr st" by (cases q) (auto simp: run_bind)
  show ?case
  proof (cases "halt st = None \<and> \<not> deadline \<le> x_now x (w_dk w1)")
    case True
    then have "poll x m halt late pause deadline k (w1 \<lparr> w_dk := x_sleep x pause (w_dk w1) \<rparr>) = (Inr a, w')"
      using m q Suc.prems by (simp add: run_bind [of m] now_def sleep_def)
    then show ?thesis by (rule Suc.IH)
  next
    case False
    with m q Suc.prems have "w' = w1"
      "halt st = Some a \<or> halt st = None \<and> a = late st \<and> deadline \<le> x_now x (w_dk w1)"
      by (cases "halt st"; auto simp: run_bind now_def)+
    with m q show ?thesis by blast
  qed
qed simp

lemma settle_loop_poll:
  "settle_loop x n deadline k
     = poll x (status x n) (\<lambda>st. if settled st then Some st else None) (\<lambda>st. st) SETTLE_POLL deadline k"
  by (induction k) (auto simp: fun_eq_iff run_bind split: sum.splits prod.splits intro!: arg_cong2 [where f = bindP])

end
