(* ===== verification/DockerProps.thy ===== *)
theory DockerProps
  imports Polling DockerExample
begin

text \<open>
  The properties of the Docker service.
\<close>

section \<open>Failing closed\<close>


text \<open>In the witness the EAP key is missing; the running container stays.\<close>

definition keyless_world :: "(unit, sim) world" where
  "keyless_world = dock_world \<lparr> w_fs :=
     AList.delete [''c'', ''a'', ''server.key''] sample_fs \<rparr>"


section \<open>Mounts stay below the configured directories\<close>

definition confined :: "fs \<Rightarrow> path list \<Rightarrow> string \<times> string \<times> string \<Rightarrow> bool" where
  "confined fs roots v \<longleftrightarrow>
     (\<exists>root \<in> set roots. \<exists>p. fst v = path_str p \<and> prefix (realpath fs root) p) \<and> snd (snd v) = ''ro''"

lemma update_in: "v \<in> set (AList.update k e vols) \<Longrightarrow> v = (k, e) \<or> v \<in> set vols"
  by (induction vols) (auto split: if_splits)

lemma eap_mounts_in:
  "eap_mounts fs d env req fks vols = Inr vols' \<Longrightarrow> v \<in> set vols' \<Longrightarrow>
     v \<in> set vols \<or> (\<exists>f t. v = (path_str (d @ [f]), t, ''ro''))"
  by (induction fks arbitrary: vols) (fastforce simp: bindE_Inr_iff dest: update_in split: if_splits)+

lemma mounts_confined:
  assumes "mounts c fs i env req = Inr vols" and "v \<in> set vols"
    and "resolves fs (join_path (realpath fs (comps (c_certs_dir c))) (i_name i))"
  shows "v = (samba_volume (i_name i), SAMBA_STATE, ''rw'')
    \<or> confined fs [comps (c_secrets_dir c), comps (c_certs_dir c)] v"
proof -
  let ?roots = "[comps (c_secrets_dir c), comps (c_certs_dir c)]"
  let ?P = "\<lambda>v. v = (samba_volume (i_name i), SAMBA_STATE, ''rw'') \<or> confined fs ?roots v"
  obtain join_host bind_host jt bt cert_dir vols1 where
    j: "resolve_under fs (comps (c_secrets_dir c)) (i_join_secret i) = Inr join_host"
    and b: "resolve_under fs (comps (c_secrets_dir c)) (i_ldap_bind_secret i) = Inr bind_host"
    and d: "resolve_under fs (comps (c_certs_dir c)) (i_name i) = Inr cert_dir"
    and eap: "eap_mounts fs cert_dir env req EAP_FILES (first_volumes (i_name i) join_host jt bind_host bt) = Inr vols1"
    and ca: "case i_ldap_ca i of None \<Rightarrow> vols = vols1
         | Some ca \<Rightarrow> \<exists>p t. resolve_under fs cert_dir ca = Inr p \<and> isfile fs p
             \<and> env_at env ''LDAP_CA'' = Inr t \<and> vols = AList.update (path_str p) (t, ''ro'') vols1"
    using assms(1) unfolding mounts_Inr by blast
  have cert: "cert_dir = realpath fs (join_path (realpath fs (comps (c_certs_dir c))) (i_name i))"
    using d by (auto simp: resolve_under_def Let_def split: if_splits)
  have below: "prefix (realpath fs (comps (c_certs_dir c))) cert_dir" by (rule resolve_under_below [OF d])
  have first: "\<forall>v \<in> set (first_volumes (i_name i) join_host jt bind_host bt). ?P v"
    using resolve_under_below [OF j] resolve_under_below [OF b]
    unfolding first_volumes_def by (auto simp: confined_def split: if_splits)
  have eapP: "?P (path_str (cert_dir @ [f]), t, ''ro'')" for f t
  proof -
    have "prefix (realpath fs (comps (c_certs_dir c))) (cert_dir @ [f])" using below by (simp add: prefix_prefix)
    then show ?thesis by (auto simp: confined_def)
  qed
  have one: "\<forall>v \<in> set vols1. ?P v"
  proof
    fix v assume "v \<in> set vols1"
    from eap_mounts_in [OF eap this] first eapP show "?P v" by blast
  qed
  show ?thesis
  proof (cases "i_ldap_ca i")
    case None
    with ca one assms(2) show ?thesis by auto
  next
    case (Some f)
    with ca obtain p t where p: "resolve_under fs cert_dir f = Inr p" "vols = AList.update (path_str p) (t, ''ro'') vols1"
      by auto
    have "realpath fs cert_dir = cert_dir" unfolding cert by (rule realpath_resolved(3) [OF assms(3)])
    with resolve_under_below [OF p(1)] below have "prefix (realpath fs (comps (c_certs_dir c))) p"
      using prefix_order.trans by metis
    then have "?P (path_str p, t, ''ro'')" by (auto simp: confined_def)
    with update_in [of v "path_str p" "(t, ''ro'')" vols1] one p(2) assms(2) show ?thesis by blast
  qed
qed

text \<open>The volumes that \<open>prepare\<close> puts together.\<close>

lemma prepared_volumes:
  assumes "prepare x c i w1 = (Inr (env, vols), w2)"
    and "resolves (w_fs w2) (join_path (realpath (w_fs w2) (comps (c_certs_dir c))) (i_name i))" and "v \<in> set vols"
  shows "v = (samba_volume (i_name i), SAMBA_STATE, ''rw'')
    \<or> confined (w_fs w2) [comps (c_secrets_dir c), comps (c_certs_dir c)] v
    \<or> confined (w_fs w1) [comps (c_render_dir c)] v"
proof -
  obtain p vols0 u where p: "render_instance c i w1 = (Inr p, u)" and m: "mounts c (w_fs w2) i env True = Inr vols0"
    and v: "vols = AList.update (path_str p) (INSTANCE_D_MOUNT, ''ro'') vols0"
    using assms(1) by (auto elim: prepare_Inr)
  have "\<exists>fs. resolve_under fs (comps (c_render_dir c)) (i_name i) = Inr p \<and> fs = w_fs w1"
    using p unfolding render_instance_def by (auto simp: bind_Inr_iff from_fs_def)
  then have "prefix (realpath (w_fs w1) (comps (c_render_dir c))) p" using resolve_under_below by blast
  then have render: "confined (w_fs w1) [comps (c_render_dir c)] (path_str p, INSTANCE_D_MOUNT, ''ro'')"
    by (auto simp: confined_def)
  have "v = (path_str p, INSTANCE_D_MOUNT, ''ro'') \<or> v \<in> set vols0"
    using assms(3) unfolding v by (rule update_in)
  moreover have "\<forall>v \<in> set vols0. v = (samba_volume (i_name i), SAMBA_STATE, ''rw'')
      \<or> confined (w_fs w2) [comps (c_secrets_dir c), comps (c_certs_dir c)] v"
    using mounts_confined [OF m] assms(2) by auto
  ultimately show ?thesis using render by blast
qed


text \<open>One run of the example, evaluated once.\<close>

lemma dock_run:
  "case ensure_running dock_ext sample_conf dock_inst dock_world of (r, w') \<Rightarrow>
     (case r of Inl _ \<Rightarrow> False | Inr st \<Rightarrow> st_health st = Some ''healthy'')
   \<and> resolves (w_fs w') (join_path (realpath (w_fs w') (comps (c_certs_dir sample_conf))) (i_name dock_inst))
   \<and> length (w_log w') = 7"
  by code_simp

lemma dock_run_obtain:
  obtains st w' where "ensure_running dock_ext sample_conf dock_inst dock_world = (Inr st, w')"
    and "st_health st = Some ''healthy''" and "length (w_log w') = 7"
    and "resolves (w_fs w') (join_path (realpath (w_fs w') (comps (c_certs_dir sample_conf))) (i_name dock_inst))"
  using dock_run by (auto split: prod.splits sum.splits)


text \<open>
  C31: Watching a fresh container ends. If the clock behaves and the fuel covers the rounds that fit into
  the timeout (46 rounds for the 45 s and 1 s of the code), \<open>_wait_settled\<close> is not cut off; what it
  returns is a status that is final (healthy, unhealthy, crash looping or not running), or the timeout
  has passed.
\<close>

theorem wait_settled_ends:
  assumes "clock_ok x" and "c_settle_timeout c \<le> (int (c_fuel c) - 1) * SETTLE_POLL" and "0 < c_fuel c"
    and "wait_settled x c n w = (r, w')"
  shows "r \<noteq> Inl NoFuel \<and> (case r of
      Inl _ \<Rightarrow> True
    | Inr st \<Rightarrow> st_health st \<in> {Some ''healthy'', Some ''unhealthy''} \<or> st_crash_looping st \<or> \<not> st_running st
        \<or> x_now x (w_dk w) + c_settle_timeout c \<le> x_now x (w_dk w'))"
proof -
  let ?deadline = "x_now x (w_dk w) + c_settle_timeout c"
  obtain k where k: "c_fuel c = Suc k" using assms(3) by (cases "c_fuel c") auto
  have "poll x (status x n) (\<lambda>st. if settled st then Some st else None) (\<lambda>st. st) SETTLE_POLL ?deadline (Suc k) w = (r, w')"
    using assms(4) by (simp add: wait_settled_def now_def settle_loop_poll k del: poll.simps)
  moreover have "?deadline - x_now x (w_dk w) \<le> int k * SETTLE_POLL" using assms(2) k by simp
  moreover have "0 < SETTLE_POLL" by (simp add: SETTLE_POLL_def)
  ultimately have "r \<noteq> Inl NoFuel" and fin: "\<And>a. r = Inr a \<Longrightarrow> (\<exists>st. (if settled st then Some st else None) = Some a)
      \<or> (\<exists>st. a = st \<and> (if settled st then Some st else None) = None) \<and> ?deadline \<le> x_now x (w_dk w')"
    using poll_ends [OF assms(1) timely_status [OF assms(1)]] by blast+
  moreover have "settled a \<or> ?deadline \<le> x_now x (w_dk w')" if "r = Inr a" for a
    using fin [OF that] by (auto split: if_splits)
  ultimately show ?thesis by (cases r) (auto simp: settled_def)
qed

theorem wait_settled_ends_witness:
  "\<exists>r w'. wait_settled dock_ext default_conf ''a'' dock_world = (r, w') \<and> r \<noteq> Inl NoFuel"
proof -
  obtain r w' where run: "wait_settled dock_ext default_conf ''a'' dock_world = (r, w')" by fastforce
  have "r \<noteq> Inl NoFuel"
    using wait_settled_ends [OF sim_clock _ _ run]
    by (simp add: default_conf_def SETTLE_TIMEOUT_def SETTLE_POLL_def)
  with run show ?thesis by blast
qed

end
