(* ===== verification/Reconciler.thy ===== *)
theory Reconciler
  imports DockerFacts DockerExample
begin

text \<open>
  \<open>reconciler.py\<close>: the bridge between the store and the Docker service. The lemmas follow from the
  contract of a store with a deployer, which the model's store and service keep.
\<close>

definition apply_inst :: "('g, 'd) ext \<Rightarrow> conf \<Rightarrow> inst \<Rightarrow> ('g, 'd, status) run" where
  "apply_inst x c i = bindP (store_put x i) (\<lambda>_. ensure_running x c i)"

definition recon_remove :: "('g, 'd) ext \<Rightarrow> conf \<Rightarrow> string \<Rightarrow> ('g, 'd, leave_result) run" where
  "recon_remove x c name =
     bindP (store_get x name) (\<lambda>found.
     bindP (case found of
              None \<Rightarrow> returnP \<lparr> lv_ok = True, lv_attempted = False, lv_detail = ''no instance record'', lv_cause = None \<rparr>
            | Some i \<Rightarrow> remove x c i) (\<lambda>leave.
     bindP (store_delete x name) (\<lambda>_. returnP leave)))"

definition reconcile_all :: "('g, 'd) ext \<Rightarrow> conf \<Rightarrow> ('g, 'd, status list) run" where
  "reconcile_all x c = bindP (store_list x) (\<lambda>is. mapP (ensure_running x c) is)"

section \<open>What they leave alone\<close>

lemma keeps_leave [keeps_intros]: "apart v \<Longrightarrow> keeps v (leave_domain x c i)"
  unfolding leave_domain_def run_leave_def has_volume_def
  by (intro keeps_intros) (auto split: pyerr.split derr.split intro!: keeps_intros)

lemma keeps_remove [keeps_intros]:
  "apart v \<Longrightarrow> (\<And>w fs. v (w \<lparr> w_fs := fs \<rparr>) = v w) \<Longrightarrow> keeps v (remove x c i)"
  unfolding remove_def by (intro keeps_intros keeps_upd)

lemma look_fs [simp]: "look_inst x (w \<lparr> w_fs := fs \<rparr>) = look_inst x w"
  by (simp add: look_inst_def fun_eq_iff)

lemma remove_look: "keeps (look_inst x) (remove x c i)"
  by (intro keeps_intros) simp_all

lemma logs_store_put: "logs (\<lambda>k. case k of CGit _ _ \<Rightarrow> True | _ \<Rightarrow> False) (store_put x i)"
proof -
  let ?P = "\<lambda>k. case k of CGit _ _ \<Rightarrow> True | _ \<Rightarrow> False"
  have g: "logs ?P (run_git x args)" for args
    by (auto simp: logs_def run_git_def split: prod.split)
  have r: "logs ?P (in_git_repo x)" unfolding in_git_repo_def by (intro logs_intros g)
  have m: "logs ?P (git_cmd x args)" for args unfolding git_cmd_def by (intro logs_intros g r)
  have k: "logs ?P (git_commit x msg f)" for msg f
    unfolding git_commit_def git_ok_def by (intro logs_intros g r m)
  show ?thesis unfolding store_put_def write_inst_file_def by (intro logs_intros g r m k logs_upd) simp
qed

section \<open>Properties\<close>

text \<open>
  C32: \<open>apply\<close> persists first. Whatever becomes of the deployment, the record of the instance reads back
  as the wanted one and every other record as before; and if the store refused the change, neither
  Docker nor the rest of the file system was touched.
\<close>

theorem apply_persists_first:
  assumes "storable x i" and "apply_inst x c i w = (r, w')"
  shows "look_inst x w' = (look_inst x w)(i_name i := Inr (Some i)) \<and>
    (case fst (store_put x i w) of
       Inr _ \<Rightarrow> True
     | Inl _ \<Rightarrow> r = Inl StoreErr \<and> w_dk w' = w_dk w \<and> w_fs w' = w_fs w \<and>
         (\<exists>cs. w_log w' = w_log w @ cs \<and> list_all (\<lambda>k. case k of CGit _ _ \<Rightarrow> True | _ \<Rightarrow> False) cs))"
proof -
  have safe: "\<not> unsafe_name (i_name i)" using assms(1) valid_name_safe by (simp add: storable_def)
  obtain q w1 where p: "store_put x i w = (q, w1)" by fastforce
  note run = put_run(2-4) [OF p safe] logsD [OF logs_store_put p]
  have "look_inst x w' = (look_inst x w)(i_name i := Inr (Some i))"
    using dock.persist_look [OF assms(1)] assms(2) by (simp add: apply_inst_def)
  moreover have "r = Inl StoreErr \<and> w' = w1" if "q = Inl StoreErr"
    using assms(2) p that by (simp add: apply_inst_def run_bind)
  ultimately show ?thesis using p run by (cases q) auto
qed

theorem apply_persists_first_witness:
  "\<exists>r w'. apply_inst dock_ext sample_conf dock_inst dock_world = (r, w')
    \<and> look_inst dock_ext w' ''a'' = Inr (Some dock_inst)"
proof -
  obtain r w' where run: "apply_inst dock_ext sample_conf dock_inst dock_world = (r, w')" by fastforce
  have "storable dock_ext dock_inst"
    using dock_inst_valid by (simp add: storable_def) code_simp
  from apply_persists_first [OF this run] have "look_inst dock_ext w' (i_name dock_inst) = Inr (Some dock_inst)"
    by simp
  moreover have "i_name dock_inst = ''a''" by (simp add: dock_inst_def)
  ultimately show ?thesis using run by metis
qed



lemma mapP_ends:
  "mapP f xs w = (r, w') \<Longrightarrow>
     (case r of Inr ys \<Rightarrow> length ys = length xs
      | Inl e \<Rightarrow> \<exists>us z vs w1. xs = us @ z # vs \<and> f z w1 = (Inl e, w'))"
proof (induction xs arbitrary: w r w')
  case Nil
  then show ?case by auto
next
  case (Cons z xs)
  obtain q w1 where f: "f z w = (q, w1)" by fastforce
  show ?case
  proof (cases q)
    case (Inl e)
    with f Cons.prems have "r = Inl e" "w' = w1" by (auto simp: run_bind)
    moreover have "z # xs = [] @ z # xs" by simp
    ultimately show ?thesis using f Inl by (simp only: sum.case) blast
  next
    case (Inr y)
    obtain s w2 where m: "mapP f xs w1 = (s, w2)" by fastforce
    from Cons.IH [OF m] have ih: "case s of Inr ys \<Rightarrow> length ys = length xs
      | Inl e \<Rightarrow> \<exists>us z vs w1. xs = us @ z # vs \<and> f z w1 = (Inl e, w2)" .
    show ?thesis
    proof (cases s)
      case (Inl e)
      with f Inr m Cons.prems have "r = Inl e" "w' = w2" by (auto simp: run_bind)
      moreover from ih Inl obtain us y vs w1 where "xs = us @ y # vs" "f y w1 = (Inl e, w2)" by auto
      ultimately show ?thesis by (auto intro!: exI [of _ "z # us"])
    next
      case (Inr ys)
      with f \<open>q = Inr y\<close> m Cons.prems ih show ?thesis by (auto simp: run_bind)
    qed
  qed
qed

text \<open>
  \<open>reconcile_all\<close> is not robust against one bad instance, unlike \<open>update_all\<close>. If it answers, there is
  one status for each listed instance. If deploying one raises, the exception ends the whole call in the
  state that deployment left: the instances listed behind it are not reconciled. No record changes.
\<close>

theorem reconcile_all_stops:
  assumes "store_list x w = (Inr is, w)" and "reconcile_all x c w = (r, w')"
  shows "look_inst x w' = look_inst x w \<and>
    (case r of
       Inr sts \<Rightarrow> length sts = length is
     | Inl e \<Rightarrow> \<exists>us i vs w1. is = us @ i # vs \<and> ensure_running x c i w1 = (Inl e, w'))"
proof -
  have run: "mapP (ensure_running x c) is w = (r, w')"
    using assms by (simp add: reconcile_all_def run_bind)
  have "keeps (look_inst x) (mapP (ensure_running x c) is)"
    by (intro keeps_map dock.deploy_look)
  then have "look_inst x w' = look_inst x w" using run by (rule keepsD)
  with mapP_ends [OF run] show ?thesis by simp
qed

theorem reconcile_all_stops_witness:
  "\<exists>is r w'. reconcile_all dock_ext sample_conf dock_world = (r, w')
    \<and> look_inst dock_ext w' = look_inst dock_ext dock_world \<and> store_list dock_ext dock_world = (Inr is, dock_world)"
proof -
  have "case store_list dock_ext dock_world of (r, w) \<Rightarrow> r = Inr [dock_inst]" by code_simp
  then obtain w where "store_list dock_ext dock_world = (Inr [dock_inst], w)" by (auto split: prod.splits)
  with store_list_run(1) [OF this] have l: "store_list dock_ext dock_world = (Inr [dock_inst], dock_world)" by simp
  obtain r w' where run: "reconcile_all dock_ext sample_conf dock_world = (r, w')" by fastforce
  from reconcile_all_stops [OF l run] l run show ?thesis by blast
qed

end
