(* ===== verification/Updater.thy ===== *)
theory Updater
  imports Reconciler Polling
begin

text \<open>
  \<open>updater.py\<close>: updates of an instance's image with a health check and rollback. Times are
  milliseconds; \<open>up_fuel\<close> bounds the rounds of the health poll.
\<close>

record updater =
  up_health_timeout :: int
  up_poll_interval :: int
  up_fuel :: nat

definition default_updater :: updater where
  "default_updater = \<lparr> up_health_timeout = 120000, up_poll_interval = 3000, up_fuel = 41 \<rparr>"

definition prev_file :: "string \<Rightarrow> string" where
  "prev_file name = name @ ''.prev''"

record update_result =
  ur_name :: string
  ur_updated :: bool
  ur_skipped :: bool
  ur_image :: "string option"
  ur_previous_image :: "string option"
  ur_rolled_back_to :: "string option"
  ur_failed_image :: "string option"
  ur_error :: "pyerr option"

text \<open>A result with the given name; the fields left out of the answer are \<open>None\<close>.\<close>

definition blank_result :: "string \<Rightarrow> update_result" where
  "blank_result name = \<lparr> ur_name = name, ur_updated = False, ur_skipped = False, ur_image = None,
     ur_previous_image = None, ur_rolled_back_to = None, ur_failed_image = None, ur_error = None \<rparr>"

section \<open>Waiting for health\<close>

text \<open>The verdict of one round, \<open>None\<close> if the loop goes on.\<close>

definition health_verdict :: "status \<Rightarrow> bool option" where
  "health_verdict st =
     (if st_health st = Some ''healthy'' then Some True
      else if st_health st = Some ''unhealthy'' then Some False
      else if st_crash_looping st then Some False
      else if st_exists st \<and> \<not> st_running st \<and> st_health st = None then Some False
      else None)"

primrec health_loop :: "('g, 'd) ext \<Rightarrow> updater \<Rightarrow> string \<Rightarrow> int \<Rightarrow> nat \<Rightarrow> ('g, 'd, bool) run" where
  "health_loop x u name deadline 0 = raiseP NoFuel"
| "health_loop x u name deadline (Suc fuel) =
     bindP (status x name) (\<lambda>st.
       case health_verdict st of
         Some ok \<Rightarrow> returnP ok
       | None \<Rightarrow> bindP (now x) (\<lambda>t.
           if deadline \<le> t then returnP False
           else bindP (sleep x (up_poll_interval u)) (\<lambda>_. health_loop x u name deadline fuel)))"

definition wait_healthy :: "('g, 'd) ext \<Rightarrow> updater \<Rightarrow> string \<Rightarrow> ('g, 'd, bool) run" where
  "wait_healthy x u name =
     bindP (now x) (\<lambda>t. health_loop x u name (t + up_health_timeout u) (up_fuel u))"

section \<open>Updates\<close>

text \<open>\<open>inst.model_copy(update={"image": img})\<close>; nothing is validated.\<close>

abbreviation with_image :: "inst \<Rightarrow> string \<Rightarrow> inst" where
  "with_image i img \<equiv> i \<lparr> i_image := img \<rparr>"

definition update_image :: "('g, 'd) ext \<Rightarrow> conf \<Rightarrow> updater \<Rightarrow> string \<Rightarrow> string \<Rightarrow> ('g, 'd, update_result) run" where
  "update_image x c u name new_image =
     bindP (store_get x name) (\<lambda>found.
     case found of
       None \<Rightarrow> raiseP (KeyErr name)
     | Some i \<Rightarrow>
         bindP (write_inst_file (prev_file name) (i_image i)) (\<lambda>_.
         bindP (tryP (bindP (apply_inst x c (with_image i new_image)) (\<lambda>_. returnP None))
                  (\<lambda>e. if is_exception e then bindP (apply_inst x c i) (\<lambda>_. returnP (Some e)) else raiseP e))
           (\<lambda>failed.
           case failed of
             Some e \<Rightarrow> returnP ((blank_result name)
               \<lparr> ur_rolled_back_to := Some (i_image i), ur_failed_image := Some new_image, ur_error := Some e \<rparr>)
           | None \<Rightarrow>
               bindP (wait_healthy x u name) (\<lambda>ok.
               if ok then returnP ((blank_result name)
                 \<lparr> ur_updated := True, ur_image := Some new_image, ur_previous_image := Some (i_image i) \<rparr>)
               else bindP (apply_inst x c i) (\<lambda>_. returnP ((blank_result name)
                 \<lparr> ur_rolled_back_to := Some (i_image i), ur_failed_image := Some new_image \<rparr>))))))"

definition update_one :: "('g, 'd) ext \<Rightarrow> conf \<Rightarrow> updater \<Rightarrow> string \<Rightarrow> inst \<Rightarrow> ('g, 'd, update_result) run" where
  "update_one x c u target_image i =
     (if i_image i = target_image then returnP ((blank_result (i_name i)) \<lparr> ur_skipped := True \<rparr>)
      else tryP (update_image x c u (i_name i) target_image)
        (\<lambda>e. if is_exception e then returnP ((blank_result (i_name i)) \<lparr> ur_error := Some e \<rparr>) else raiseP e))"

definition update_all :: "('g, 'd) ext \<Rightarrow> conf \<Rightarrow> updater \<Rightarrow> string \<Rightarrow> ('g, 'd, update_result list) run" where
  "update_all x c u target_image =
     bindP (store_list x) (\<lambda>is. mapP (update_one x c u target_image) is)"

definition rollback :: "('g, 'd) ext \<Rightarrow> conf \<Rightarrow> string \<Rightarrow> ('g, 'd, string \<times> string) run" where
  "rollback x c name =
     bindP (store_get x name) (\<lambda>found.
     case found of
       None \<Rightarrow> raiseP (KeyErr name)
     | Some i \<Rightarrow>
         bindP (getP (\<lambda>w. map_of (w_insts w) (prev_file name))) (\<lambda>present.
         case present of
           None \<Rightarrow> raiseP FileNotFound
         | Some content \<Rightarrow>
             bindP (liftP (read_content content)) (\<lambda>text.
             bindP (apply_inst x c (with_image i (strip text))) (\<lambda>_.
             returnP (name, strip text)))))"

section \<open>The health poll\<close>

lemma health_loop_poll:
  "health_loop x u n deadline k
     = poll x (status x n) health_verdict (\<lambda>_. False) (up_poll_interval u) deadline k"
  by (induction k) (simp_all cong: option.case_cong if_cong)

lemma health_verdict_True: "health_verdict st = Some True \<Longrightarrow> st_health st = Some ''healthy''"
  by (simp add: health_verdict_def split: if_splits)

text \<open>\<open>True\<close> is answered only on a status that is healthy, and that status was the last call made.\<close>

lemma wait_healthy_True:
  assumes "wait_healthy x u n w = (Inr True, w')"
  shows "\<exists>w1 st. status x n w1 = (Inr st, w') \<and> st_health st = Some ''healthy''"
proof -
  have "poll x (status x n) health_verdict (\<lambda>_. False) (up_poll_interval u)
      (x_now x (w_dk w) + up_health_timeout u) (up_fuel u) w = (Inr True, w')"
    using assms by (simp add: wait_healthy_def now_def health_loop_poll)
  from poll_last [OF this] obtain w1 st where "status x n w1 = (Inr st, w')" "health_verdict st = Some True"
    by auto
  with health_verdict_True show ?thesis by blast
qed

lemma keeps_health_loop: "apart v \<Longrightarrow> keeps v (health_loop x u n t k)"
  by (induction k) (auto intro!: keeps_intros)

lemma keeps_wait_healthy [keeps_intros]: "apart v \<Longrightarrow> keeps v (wait_healthy x u n)"
  unfolding wait_healthy_def by (intro keeps_intros keeps_health_loop)

text \<open>Writing the rollback pointer is no change of a record.\<close>

lemma write_prev_run:
  "write_inst_file (prev_file n) t w = (Inr (), w \<lparr> w_insts := AList.update (prev_file n) (Text t) (w_insts w) \<rparr>)"
  by (simp add: write_inst_file_def)

lemma look_prev [simp]:
  "look_inst x (w \<lparr> w_insts := AList.update (prev_file n) c (w_insts w) \<rparr>) = look_inst x w"
proof -
  have "m @ ''.yaml'' \<noteq> n @ ''.prev''" for m by (rule yaml_not_prev)
  then show ?thesis by (simp add: look_inst_def fun_eq_iff update_conv' prev_file_def)
qed

section \<open>How an update runs\<close>

lemma apply_look:
  "storable x i \<Longrightarrow> apply_inst x c i w = (r, w') \<Longrightarrow> look_inst x w' = (look_inst x w)(i_name i := Inr (Some i))"
  unfolding apply_inst_def by (rule dock.persist_look)

lemma apply_prev:
  assumes "storable x i" and "apply_inst x c i w = (r, w')"
  shows "map_of (w_insts w') (prev_file n) = map_of (w_insts w) (prev_file n)"
proof -
  have safe: "\<not> unsafe_name (i_name i)" using assms(1) valid_name_safe by (simp add: storable_def)
  obtain q w1 where p: "store_put x i w = (q, w1)" by fastforce
  have "prev_file n \<noteq> i_name i @ ''.yaml''" using yaml_not_prev [of "i_name i" n] unfolding prev_file_def by (rule not_sym)
  then have one: "map_of (w_insts w1) (prev_file n) = map_of (w_insts w) (prev_file n)"
    using put_run(1) [OF p safe] by (simp add: update_conv')
  show ?thesis
  proof (cases q)
    case (Inl e)
    with p assms(2) one show ?thesis by (simp add: apply_inst_def run_bind)
  next
    case (Inr u)
    then have "ensure_running x c i w1 = (r, w')" using p assms(2) by (simp add: apply_inst_def run_bind)
    moreover have "keeps w_insts (ensure_running x c i)" by (intro keeps_ensure) simp_all
    ultimately have "w_insts w' = w_insts w1" by (rule keepsD [rotated])
    with one show ?thesis by simp
  qed
qed

text \<open>The runs of an update: how it starts, and the four ways it goes on.\<close>

lemma update_runs:
  assumes "update_image x c u name img w = (r, w')" and "look_inst x w name = Inr (Some i)"
    and "w0 = w \<lparr> w_insts := AList.update (prev_file name) (Text (i_image i)) (w_insts w) \<rparr>"
    and "apply_inst x c (with_image i img) w0 = (q, w1)"
  shows "case q of
      Inl e \<Rightarrow> if \<not> is_exception e then r = Inl e \<and> w' = w1
        else \<exists>s. apply_inst x c i w1 = (s, w') \<and>
          (case s of Inl e1 \<Rightarrow> r = Inl e1
           | Inr _ \<Rightarrow> r = Inr ((blank_result name)
               \<lparr> ur_rolled_back_to := Some (i_image i), ur_failed_image := Some img, ur_error := Some e \<rparr>))
    | Inr st \<Rightarrow> \<exists>h w2. wait_healthy x u name w1 = (h, w2) \<and>
        (case h of
           Inl e \<Rightarrow> r = Inl e \<and> w' = w2
         | Inr True \<Rightarrow> w' = w2 \<and> r = Inr ((blank_result name)
             \<lparr> ur_updated := True, ur_image := Some img, ur_previous_image := Some (i_image i) \<rparr>)
         | Inr False \<Rightarrow> \<exists>s. apply_inst x c i w2 = (s, w') \<and>
             (case s of Inl e1 \<Rightarrow> r = Inl e1
              | Inr _ \<Rightarrow> r = Inr ((blank_result name)
                  \<lparr> ur_rolled_back_to := Some (i_image i), ur_failed_image := Some img \<rparr>)))"
proof -
  define attempt where "attempt = tryP (bindP (apply_inst x c (with_image i img)) (\<lambda>_. returnP None))
      (\<lambda>e. if is_exception e then bindP (apply_inst x c i) (\<lambda>_. returnP (Some e)) else raiseP e)"
  define fin where "fin failed = (case failed of
       Some e \<Rightarrow> returnP ((blank_result name)
         \<lparr> ur_rolled_back_to := Some (i_image i), ur_failed_image := Some img, ur_error := Some e \<rparr>)
     | None \<Rightarrow>
         bindP (wait_healthy x u name) (\<lambda>ok.
         if ok then returnP ((blank_result name)
           \<lparr> ur_updated := True, ur_image := Some img, ur_previous_image := Some (i_image i) \<rparr>)
         else bindP (apply_inst x c i) (\<lambda>_. returnP ((blank_result name)
           \<lparr> ur_rolled_back_to := Some (i_image i), ur_failed_image := Some img \<rparr>))))" for failed
  have run: "bindP attempt fin w0 = (r, w')"
    using assms(1,2) unfolding update_image_def attempt_def fin_def
    by (simp add: store_get_run write_prev_run assms(3) run_bind [of "store_get x name"] run_bind [of "write_inst_file _ _"])
  show ?thesis
  proof (cases q)
    case (Inl e)
    show ?thesis
    proof (cases "is_exception e")
      case False
      then have "attempt w0 = (Inl e, w1)" using assms(4) Inl by (simp add: attempt_def run_try run_bind)
      with run Inl False show ?thesis by (simp add: run_bind)
    next
      case True
      obtain s w3 where s: "apply_inst x c i w1 = (s, w3)" by fastforce
      have "attempt w0 = (case s of Inl e1 \<Rightarrow> Inl e1 | Inr _ \<Rightarrow> Inr (Some e), w3)"
        using assms(4) Inl True s by (simp add: attempt_def run_try run_bind split: sum.split)
      with run Inl True s show ?thesis by (cases s) (simp_all add: run_bind fin_def)
    qed
  next
    case (Inr st)
    obtain h w2 where h: "wait_healthy x u name w1 = (h, w2)" by fastforce
    have "attempt w0 = (Inr None, w1)" using assms(4) Inr by (simp add: attempt_def run_try run_bind)
    with run have f: "fin None w1 = (r, w')" by (simp add: run_bind)
    show ?thesis
    proof (cases h)
      case (Inl e)
      with f h Inr show ?thesis by (simp add: fin_def run_bind)
    next
      case hv: (Inr ok)
      obtain s w3 where s: "apply_inst x c i w2 = (s, w3)" by fastforce
      show ?thesis
      proof (cases ok)
        case True
        with f h hv Inr show ?thesis by (simp add: fin_def run_bind)
      next
        case False
        with f h hv Inr s show ?thesis by (cases s) (simp_all add: fin_def run_bind)
      qed
    qed
  qed
qed

section \<open>Properties\<close>

text \<open>How an update can end, by the state in which its last step began.\<close>

lemma update_ends:
  assumes "update_image x c u name img w = (r, w')" and "look_inst x w name = Inr (Some i)"
    and "w0 = w \<lparr> w_insts := AList.update (prev_file name) (Text (i_image i)) (w_insts w) \<rparr>"
    and "apply_inst x c (with_image i img) w0 = (q, w1)"
  shows "\<exists>v. (v = w1 \<or> (\<exists>h. wait_healthy x u name w1 = (h, v))) \<and>
    (isl r \<and> w' = v
     \<or> (\<exists>res. r = Inr res \<and> ur_updated res) \<and> w' = v \<and> wait_healthy x u name w1 = (Inr True, v)
     \<or> (\<exists>s. apply_inst x c i v = (s, w')) \<and> (isl r \<or> (\<exists>res. r = Inr res \<and> \<not> ur_updated res)))"
proof -
  note runs = update_runs [OF assms]
  have failed: "isl r \<or> (\<exists>res. r = Inr res \<and> \<not> ur_updated res)"
    if "case s of Inl e1 \<Rightarrow> r = Inl e1 | Inr _ \<Rightarrow> r = Inr res" and "\<not> ur_updated res"
    for s :: "pyerr + status" and res
    using that by (cases s) auto
  show ?thesis
  proof (cases q)
    case (Inl e)
    show ?thesis
    proof (cases "is_exception e")
      case True
      with runs Inl obtain s where "apply_inst x c i w1 = (s, w')" and "isl r \<or> (\<exists>res. r = Inr res \<and> \<not> ur_updated res)"
        using failed by (auto simp: blank_result_def)
      then show ?thesis by blast
    qed (use runs Inl in auto)
  next
    case (Inr st)
    with runs obtain h w2 where h: "wait_healthy x u name w1 = (h, w2)" by auto
    show ?thesis
    proof (cases "h = Inr False")
      case True
      with runs Inr h obtain s where "apply_inst x c i w2 = (s, w')" and "isl r \<or> (\<exists>res. r = Inr res \<and> \<not> ur_updated res)"
        using failed by (auto simp: blank_result_def)
      with h show ?thesis by blast
    next
      case False
      with runs Inr h have "isl r \<and> w' = w2 \<or> (\<exists>res. r = Inr res \<and> ur_updated res) \<and> w' = w2 \<and> h = Inr True"
        by (auto simp: blank_result_def split: sum.splits bool.splits)
      with h show ?thesis by blast
    qed
  qed
qed

text \<open>
  C8: What an update leaves behind. If it reports success, the record has the new image, and the last
  thing observed was a healthy container. If it reports a rollback, all records are as before the update.
  If it raises, the record of the instance is the old one or the one with the new image, never anything
  else, and no other record changed. In every case the image from before the update is kept as the
  rollback pointer.
\<close>

theorem update_outcomes:
  assumes "storable x i" and "storable x (with_image i img)" and "look_inst x w (i_name i) = Inr (Some i)"
    and "update_image x c u (i_name i) img w = (r, w')"
  shows "map_of (w_insts w') (prev_file (i_name i)) = Some (Text (i_image i)) \<and>
    (case r of
       Inr res \<Rightarrow>
         if ur_updated res
         then look_inst x w' = (look_inst x w)(i_name i := Inr (Some (with_image i img)))
           \<and> (\<exists>w1 st. status x (i_name i) w1 = (Inr st, w') \<and> st_health st = Some ''healthy'')
         else look_inst x w' = look_inst x w
     | Inl _ \<Rightarrow> look_inst x w' \<in> {look_inst x w, (look_inst x w)(i_name i := Inr (Some (with_image i img)))})"
proof -
  let ?n = "i_name i" and ?new = "(look_inst x w)(i_name i := Inr (Some (with_image i img)))"
  define w0 where "w0 = w \<lparr> w_insts := AList.update (prev_file ?n) (Text (i_image i)) (w_insts w) \<rparr>"
  obtain q w1 where a: "apply_inst x c (with_image i img) w0 = (q, w1)" by fastforce
  have "look_inst x w0 = look_inst x w" and "map_of (w_insts w0) (prev_file ?n) = Some (Text (i_image i))"
    by (simp_all add: w0_def update_conv')
  with apply_look [OF assms(2) a] apply_prev [OF assms(2) a, of ?n]
  have after: "look_inst x w1 = ?new \<and> map_of (w_insts w1) (prev_file ?n) = Some (Text (i_image i))" by simp
  have "keeps (\<lambda>v. (look_inst x v, w_insts v)) (wait_healthy x u ?n)"
    by (intro keeps_wait_healthy) (simp add: apart_def look_inst_def fun_eq_iff)
  from keepsD [OF this] after have watched: "look_inst x v = ?new \<and> map_of (w_insts v) (prev_file ?n) = Some (Text (i_image i))"
    if "v = w1 \<or> (\<exists>h. wait_healthy x u ?n w1 = (h, v))" for v using that by auto
  from update_ends [OF assms(4,3) w0_def a] obtain v where v: "v = w1 \<or> (\<exists>h. wait_healthy x u ?n w1 = (h, v))"
    and ends: "isl r \<and> w' = v
     \<or> (\<exists>res. r = Inr res \<and> ur_updated res) \<and> w' = v \<and> wait_healthy x u ?n w1 = (Inr True, v)
     \<or> (\<exists>s. apply_inst x c i v = (s, w')) \<and> (isl r \<or> (\<exists>res. r = Inr res \<and> \<not> ur_updated res))" by blast
  note new = watched [OF v]
  from ends show ?thesis
  proof (elim disjE conjE exE)
    fix s assume s: "apply_inst x c i v = (s, w')" and r: "isl r"
    have "look_inst x w' = look_inst x w \<and> map_of (w_insts w') (prev_file ?n) = Some (Text (i_image i))"
      using apply_look [OF assms(1) s] apply_prev [OF assms(1) s, of ?n] new assms(3) by (simp add: fun_upd_idem)
    with r show ?thesis by (cases r) auto
  next
    fix s res assume s: "apply_inst x c i v = (s, w')" and r: "r = Inr res" "\<not> ur_updated res"
    have "look_inst x w' = look_inst x w \<and> map_of (w_insts w') (prev_file ?n) = Some (Text (i_image i))"
      using apply_look [OF assms(1) s] apply_prev [OF assms(1) s, of ?n] new assms(3) by (simp add: fun_upd_idem)
    with r show ?thesis by simp
  next
    assume "isl r" "w' = v"
    with new show ?thesis by (cases r) auto
  next
    fix res assume "r = Inr res" "ur_updated res" "w' = v" "wait_healthy x u ?n w1 = (Inr True, v)"
    with new wait_healthy_True [of x u ?n w1 v] show ?thesis by auto
  qed
qed

lemma dock_storable: "storable dock_ext dock_inst" "storable dock_ext (with_image dock_inst ''s:1'')"
proof -
  have "inst_errors (with_image dock_inst ''s:1'') = []" by code_simp
  moreover have "x_load dock_ext (universal_newlines (x_dump dock_ext (model_dump dock_inst))) = Inr (model_dump dock_inst)"
    and "x_load dock_ext (universal_newlines (x_dump dock_ext (model_dump (with_image dock_inst ''s:1''))))
      = Inr (model_dump (with_image dock_inst ''s:1''))"
    by code_simp+
  ultimately show "storable dock_ext dock_inst" "storable dock_ext (with_image dock_inst ''s:1'')"
    using dock_inst_valid by (simp_all add: storable_def)
qed

lemma dock_look: "look_inst dock_ext dock_world (i_name dock_inst) = Inr (Some dock_inst)"
  by code_simp

theorem update_outcomes_witness:
  "\<exists>r w'. update_image dock_ext sample_conf default_updater ''a'' ''s:1'' dock_world = (r, w')
    \<and> map_of (w_insts w') ''a.prev'' = Some (Text ''i:1'')"
proof -
  obtain r w' where run: "update_image dock_ext sample_conf default_updater (i_name dock_inst) ''s:1'' dock_world = (r, w')"
    by fastforce
  have "map_of (w_insts w') (prev_file (i_name dock_inst)) = Some (Text (i_image dock_inst))"
    using update_outcomes [OF dock_storable dock_look run] by simp
  with run show ?thesis by (auto simp: dock_inst_def prev_file_def)
qed

text \<open>
  The rollback does not cover the health check: an exception raised while \<open>update\<close> waits for the new
  container's health leaves \<open>update\<close> with the new image stored and no rollback, though the container was
  never seen healthy.
\<close>

lemma update_health_error_not_rolled_back:
  assumes "storable x (with_image i img)" and "look_inst x w (i_name i) = Inr (Some i)"
    and "w0 = w \<lparr> w_insts := AList.update (prev_file (i_name i)) (Text (i_image i)) (w_insts w) \<rparr>"
    and "apply_inst x c (with_image i img) w0 = (Inr st, w1)"
    and "wait_healthy x u (i_name i) w1 = (Inl e, w2)"
    and "update_image x c u (i_name i) img w = (r, w')"
  shows "r = Inl e \<and> w' = w2 \<and> look_inst x w' (i_name i) = Inr (Some (with_image i img))"
proof -
  have run: "r = Inl e" "w' = w2" using update_runs [OF assms(6,2,3,4)] assms(5) by simp_all
  have "keeps (look_inst x) (wait_healthy x u (i_name i))"
    by (intro keeps_wait_healthy) (simp add: apart_def look_inst_def fun_eq_iff)
  from keepsD [OF this assms(5)] have "look_inst x w2 = look_inst x w1" .
  with run apply_look [OF assms(1,4)] show ?thesis by simp
qed

section \<open>All instances\<close>

lemma update_image_name:
  "update_image x c u name img w = (Inr res, w') \<Longrightarrow> ur_name res = name"
  by (auto simp: update_image_def bind_Inr_iff blank_result_def split: option.splits if_splits)

lemma update_one_run:
  assumes "update_one x c u t i w = (r, w')"
  shows "case r of
      Inl e \<Rightarrow> e = NoFuel
    | Inr row \<Rightarrow> ur_name row = i_name i \<and>
        (if i_image i = t then ur_skipped row \<and> w' = w else \<not> ur_skipped row)"
proof (cases "i_image i = t")
  case True
  with assms show ?thesis by (auto simp: update_one_def blank_result_def)
next
  case False
  obtain q w1 where q: "update_image x c u (i_name i) t w = (q, w1)" by fastforce
  have "\<not> ur_skipped res" if "q = Inr res" for res
    using q that by (auto simp: update_image_def bind_Inr_iff blank_result_def split: option.splits if_splits)
  with False assms q update_image_name show ?thesis
    by (cases q) (auto simp: update_one_def run_try is_exception_def blank_result_def split: if_splits)
qed



end
