(* ===== verification/Captures.thy ===== *)
theory Captures
  imports PyRe
begin

text \<open>
  Matches with groups: what a pattern spells, that only groups change the captures, and when
  \<open>fullmatch\<close> has one answer.
\<close>

section \<open>Patterns without groups\<close>

primrec groupless :: "re \<Rightarrow> bool" where
  "groupless Eps = True"
| "groupless (Cls rs) = True"
| "groupless (NCls rs) = True"
| "groupless (Seq a b) = (groupless a \<and> groupless b)"
| "groupless (Alt a b) = (groupless a \<and> groupless b)"
| "groupless (Rep m n r) = groupless r"
| "groupless (Lazy r) = groupless r"
| "groupless (Grp k r) = False"
| "groupless Eos = True"
| "groupless (Look r) = groupless r"

lemma groupless_lits [simp]: "groupless (lits w)"
  by (induction w) (simp_all add: lits_def lit_def)

lemma rep_run_caps:
  "(\<And>x y. y \<in> set (f x) \<Longrightarrow> snd y = snd x) \<Longrightarrow> y \<in> set (rep_run f m n x) \<Longrightarrow> snd y = snd x"
proof (induction f m n x arbitrary: y rule: rep_run.induct)
  case (1 f m n x)
  show ?case
  proof (cases "n = Some 0")
    case True
    with 1(3) show ?thesis by (simp add: rep_run_0 split: if_splits)
  next
    case False
    with 1(3) consider "y = x"
      | z where "z \<in> set (f x)" "length (fst z) < length (fst x)"
          "y \<in> set (rep_run f (m - 1) (map_option (\<lambda>k. k - 1) n) z)"
      by (auto simp: rep_run_unfold split: if_splits)
    then show ?thesis
    proof cases
      case 2
      with 1(1) [OF False 2(1,2)] 1(2) show ?thesis by metis
    qed simp
  qed
qed

lemma lazy_run_caps:
  "(\<And>x y. y \<in> set (f x) \<Longrightarrow> snd y = snd x) \<Longrightarrow> y \<in> set (lazy_run f x) \<Longrightarrow> snd y = snd x"
proof (induction f x arbitrary: y rule: lazy_run.induct)
  case (1 f x)
  from 1(3) consider "y = x"
    | z where "z \<in> set (f x)" "length (fst z) < length (fst x)" "y \<in> set (lazy_run f z)"
    by (subst (asm) lazy_run.simps) (auto split: if_splits)
  then show ?case
  proof cases
    case 2
    with 1(1) [OF 2(1,2)] 1(2) show ?thesis by metis
  qed simp
qed

lemma groupless_caps: "groupless r \<Longrightarrow> y \<in> set (re_run r x) \<Longrightarrow> snd y = snd x"
proof (induction r arbitrary: x y)
  case (Seq a b)
  then obtain z where "z \<in> set (re_run a x)" "y \<in> set (re_run b z)" by auto
  with Seq show ?case by (metis groupless.simps(4))
next
  case (Rep m n r)
  have "snd u = snd v" if "u \<in> set (re_run r v)" for u v using Rep that by simp
  from rep_run_caps [of "re_run r", OF this] Rep.prems(2) show ?case by simp
next
  case (Lazy r)
  have "snd u = snd v" if "u \<in> set (re_run r v)" for u v using Lazy that by simp
  from lazy_run_caps [of "re_run r", OF this] Lazy.prems(2) show ?case by simp
next
  case (Look r)
  then show ?case by (cases "re_run r x") auto
qed (auto split: list.splits if_splits)

lemma groupless_run:
  assumes "groupless r"
  shows "set (re_run r (s, e)) = (\<lambda>t. (t, e)) ` ends r s"
proof -
  have img: "fst ` set (re_run r (s, e)) = ends r s" using ends_any [of r "(s, e)"] by simp
  have caps: "snd y = e" if "y \<in> set (re_run r (s, e))" for y using groupless_caps [OF assms that] by simp
  have "(t, c) \<in> set (re_run r (s, e)) \<longleftrightarrow> t \<in> ends r s \<and> c = e" for t c
    unfolding img [symmetric] image_iff Bex_def by (metis caps fst_conv prod.collapse snd_conv)
  then show ?thesis by auto
qed

section \<open>What a pattern spells\<close>

definition spells :: "re \<Rightarrow> (string \<Rightarrow> bool) \<Rightarrow> bool" where
  "spells r Q \<longleftrightarrow> (\<forall>s. ends r s = {t. \<exists>p. s = p @ t \<and> Q p})"

lemma spellsD: "spells r Q \<Longrightarrow> ends r s = {t. \<exists>p. s = p @ t \<and> Q p}"
  by (simp add: spells_def)

lemma spells_cong: "spells r Q \<Longrightarrow> (\<And>p. Q p \<longleftrightarrow> R p) \<Longrightarrow> spells r R"
  by (simp add: spells_def)

lemma spells_lits: "spells (lits w) (\<lambda>p. p = w)"
  by (auto simp: spells_def ends_lits)

lemma spells_Eps: "spells Eps (\<lambda>p. p = [])"
  by (auto simp: spells_def)

lemma spells_Cls: "spells (Cls rs) (\<lambda>p. \<exists>c. p = [c] \<and> cls_has rs c)"
  unfolding spells_def
proof
  fix s
  show "ends (Cls rs) s = {t. \<exists>p. s = p @ t \<and> (\<exists>c. p = [c] \<and> cls_has rs c)}" by (cases s) auto
qed

lemma spells_Rep_Cls:
  "spells (Rep m n (Cls rs)) (\<lambda>p. list_all (cls_has rs) p \<and> m \<le> length p \<and> within n (length p))"
  by (simp add: spells_def ends_Rep_Cls)

lemma spells_Seq:
  assumes "spells a Q" and "spells b R"
  shows "spells (Seq a b) (\<lambda>p. \<exists>u v. p = u @ v \<and> Q u \<and> R v)"
proof -
  have "(\<exists>p. (\<exists>q. s = q @ p \<and> Q q) \<and> (\<exists>r. p = r @ t \<and> R r))
      \<longleftrightarrow> (\<exists>p. s = p @ t \<and> (\<exists>u v. p = u @ v \<and> Q u \<and> R v))" for s t :: string
    by (metis append.assoc)
  then show ?thesis by (simp add: spells_def ends_Seq spellsD [OF assms(1)] spellsD [OF assms(2)] set_eq_iff Bex_def)
qed

lemma spells_Cls_Seq:
  assumes "spells b V"
  shows "spells (Seq (Cls rs) b) (\<lambda>p. p \<noteq> [] \<and> cls_has rs (hd p) \<and> V (tl p))"
proof (rule spells_cong [OF spells_Seq [OF spells_Cls assms]])
  fix p
  show "(\<exists>u v. p = u @ v \<and> (\<exists>c. u = [c] \<and> cls_has rs c) \<and> V v) \<longleftrightarrow> p \<noteq> [] \<and> cls_has rs (hd p) \<and> V (tl p)"
  proof (cases p)
    case (Cons c t)
    then have "p = [c] @ t" by simp
    with Cons show ?thesis by (metis append_Cons append_Nil list.distinct(1) list.sel(1,3))
  qed simp
qed

lemma spells_Seq_Cls:
  assumes "spells a W"
  shows "spells (Seq a (Cls rs)) (\<lambda>p. p \<noteq> [] \<and> W (butlast p) \<and> cls_has rs (last p))"
proof (rule spells_cong [OF spells_Seq [OF assms spells_Cls]])
  fix p
  show "(\<exists>u v. p = u @ v \<and> W u \<and> (\<exists>c. v = [c] \<and> cls_has rs c)) \<longleftrightarrow> p \<noteq> [] \<and> W (butlast p) \<and> cls_has rs (last p)"
    by (cases p rule: rev_cases) auto
qed

lemma spells_opt:
  assumes "spells r Q"
  shows "spells (opt r) (\<lambda>p. p = [] \<or> Q p)"
  unfolding spells_def ends_opt spellsD [OF assms]
proof (intro allI set_eqI)
  fix s t
  have "\<not> length t < length s \<Longrightarrow> s = p @ t \<Longrightarrow> p = []" for p :: string by simp
  then show "t \<in> {t \<in> {t. \<exists>p. s = p @ t \<and> Q p}. length t < length s} \<union> {s}
      \<longleftrightarrow> t \<in> {t. \<exists>p. s = p @ t \<and> (p = [] \<or> Q p)}" by fastforce
qed

text \<open>A complement of a class is the class of the other characters.\<close>

lemma run_NCls:
  assumes "\<And>c. cls_has ss c \<longleftrightarrow> \<not> cls_has rs c"
  shows "re_run (NCls rs) = re_run (Cls ss)"
  by (rule ext) (simp add: assms split: list.split)

lemma spells_Rep_NCls:
  assumes "\<And>c. cls_has ss c \<longleftrightarrow> \<not> cls_has rs c"
  shows "spells (Rep m n (NCls rs))
    (\<lambda>p. list_all (\<lambda>c. \<not> cls_has rs c) p \<and> m \<le> length p \<and> within n (length p))"
proof -
  have "re_run (Rep m n (NCls rs)) x = re_run (Rep m n (Cls ss)) x" for x
    by (simp only: re_run.simps(6) run_NCls [OF assms])
  then have "ends (Rep m n (NCls rs)) s = ends (Rep m n (Cls ss)) s" for s by (simp only: ends_def)
  moreover have "cls_has ss = (\<lambda>c. \<not> cls_has rs c)" using assms by blast
  ultimately show ?thesis using spells_Rep_Cls [of m n ss] by (simp add: spells_def)
qed

section \<open>Groups\<close>

lemma run_Seq: "y \<in> set (re_run (Seq a b) x) \<longleftrightarrow> (\<exists>z \<in> set (re_run a x). y \<in> set (re_run b z))"
  by simp

lemma run_spells:
  "groupless r \<Longrightarrow> spells r Q \<Longrightarrow> y \<in> set (re_run r (s, e)) \<longleftrightarrow> (\<exists>p t. s = p @ t \<and> Q p \<and> y = (t, e))"
  by (auto simp: groupless_run spellsD)

lemma run_Grp:
  assumes "groupless r" and "spells r Q"
  shows "y \<in> set (re_run (Grp k r) (s, e)) \<longleftrightarrow> (\<exists>p t. s = p @ t \<and> Q p \<and> y = (t, (k, p) # e))"
proof -
  have "y \<in> set (re_run (Grp k r) (s, e)) \<longleftrightarrow>
      (\<exists>z. (\<exists>p t. s = p @ t \<and> Q p \<and> z = (t, e)) \<and> y = (fst z, (k, take (length s - length (fst z)) s) # snd z))"
    unfolding run_spells [OF assms, symmetric] by (simp add: image_iff Bex_def)
  then show ?thesis by fastforce
qed

lemma run_Grp_Seq:
  assumes "groupless r" and "spells r Q"
  shows "y \<in> set (re_run (Seq (Grp k r) b) (s, e)) \<longleftrightarrow>
    (\<exists>p t. s = p @ t \<and> Q p \<and> y \<in> set (re_run b (t, (k, p) # e)))"
  unfolding run_Seq Bex_def run_Grp [OF assms] by blast

lemma run_lits_Seq:
  "y \<in> set (re_run (Seq (lits w) b) (s, e)) \<longleftrightarrow> (\<exists>t. s = w @ t \<and> y \<in> set (re_run b (t, e)))"
  unfolding run_Seq Bex_def run_spells [OF groupless_lits spells_lits] by blast

lemma run_Eps: "y \<in> set (re_run Eps x) \<longleftrightarrow> y = x"
  by simp

lemma run_Seq_Eps: "y \<in> set (re_run (Seq a Eps) x) \<longleftrightarrow> y \<in> set (re_run a x)"
  by simp

lemma run_opt_Grp:
  assumes "groupless r" and "spells r Q" and "\<not> Q []"
  shows "y \<in> set (re_run (opt (Grp k r)) (s, e)) \<longleftrightarrow>
    y = (s, e) \<or> (\<exists>p t. s = p @ t \<and> Q p \<and> y = (t, (k, p) # e))"
proof -
  have one: "rep_run f 0 (Some 0) z = [z]" for f z by (simp add: rep_run_0)
  have "re_run (opt (Grp k r)) (s, e) =
      concat (map (\<lambda>z. if length (fst z) < length s then [z] else []) (re_run (Grp k r) (s, e))) @ [(s, e)]"
    unfolding re_run.simps(6) by (subst rep_run_unfold) (simp_all add: one cong: if_cong del: re_run.simps)
  then have "set (re_run (opt (Grp k r)) (s, e)) =
      {z \<in> set (re_run (Grp k r) (s, e)). length (fst z) < length s} \<union> {(s, e)}"
    by (auto simp del: re_run.simps split: if_splits)
  moreover have "length t < length s" if "s = p @ t" "Q p" for p t
    using that assms(3) by (cases p) auto
  ultimately show ?thesis
    using run_Grp [OF assms(1,2), of y k s e] by (auto simp del: re_run.simps)
qed

text \<open>Where all ways to cover the text agree, \<open>fullmatch\<close> gives their common answer.\<close>

lemma fullmatch_Some: "re_fullmatch r s = Some y \<Longrightarrow> y \<in> set (re_run r (s, [])) \<and> fst y = []"
  unfolding re_fullmatch_def by (auto simp: find_Some_iff)

lemma fullmatch_None: "re_fullmatch r s = None \<longleftrightarrow> (\<forall>y \<in> set (re_run r (s, [])). fst y \<noteq> [])"
  unfolding re_fullmatch_def by (auto simp: find_None_iff)

lemma fullmatch_unique:
  assumes "\<And>y. y \<in> set (re_run r (s, [])) \<Longrightarrow> fst y = [] \<Longrightarrow> y = z"
    and "z \<in> set (re_run r (s, []))" and "fst z = []"
  shows "re_fullmatch r s = Some z"
proof (cases "re_fullmatch r s")
  case None
  with assms(2,3) show ?thesis by (simp add: fullmatch_None)
next
  case (Some y)
  with fullmatch_Some [OF Some] assms(1) show ?thesis by blast
qed

lemma fullmatch_groupless:
  "groupless r \<Longrightarrow> spells r Q \<Longrightarrow> re_fullmatch r s \<noteq> None \<longleftrightarrow> Q s"
  by (simp add: fullmatch_None run_spells Bex_def)

end
