(* ===== verification/LockFile.thy ===== *)
theory LockFile
  imports Captures Errors "HOL-Library.AList"
begin

text \<open>
  Lockfiles as \<open>scripts/lockfile_gate.py\<close> reads them: \<open>canonical\<close>, \<open>ascii_lines\<close>, \<open>parse\<close> and \<open>lint\<close>.
  A file is its bytes, one character each. The main result is that a file is accepted exactly if it is
  the text of a list of items (blank lines, comments, pins with their hashes), and that pip's
  \<open>splitlines\<close> sees the lines of an accepted file as the gate does.

  An error is the constructor of its message with what the message is filled with.
\<close>

datatype gate_error =
    BadBytes string nat string
  | NotHashLine string nat string string nat string
  | NotPinLine string nat string
  | PinnedTwice string nat string nat
  | EndsInsidePin string string string
  | NoPyPI string string string pyerr
  | NoAnswer string string string pyerr
  | NotPublished string nat string string string
  | InTwoLocks string string
  | DropNotPinned string
  | NotFreezeLine string nat string
  | FreezeTwice string nat string
  | OwnMissing string
  | NotInLocks string string
  | NotInVenv string string
  | VersionDiffers string string string
  | InstalledTwice string
  | NotInstalled string
  | RequiredByNothing string string "string list"
  | NotOnlyPin string string "string list"
  | InputAsks string string string string "string list"

section \<open>Patterns\<close>

definition PIN_re :: re where
  "PIN_re = seqs
     [Grp 1 (Seq (Cls [(CHR ''a'', CHR ''z''), (CHR ''0'', CHR ''9'')])
        (opt (Seq (star (Cls [(CHR ''a'', CHR ''z''), (CHR ''0'', CHR ''9''), (CHR ''-'', CHR ''-'')]))
                (Cls [(CHR ''a'', CHR ''z''), (CHR ''0'', CHR ''9'')])))),
      lits ''=='',
      Grp 2 (Seq (Cls [(CHR ''0'', CHR ''9'')])
        (star (Cls [(CHR ''0'', CHR ''9''), (CHR ''A'', CHR ''Z''), (CHR ''a'', CHR ''z''), (CHR ''.'', CHR ''.''),
           (CHR ''+'', CHR ''+''), (CHR ''!'', CHR ''!'')]))),
      lits ('' '' @ [BSL])]"

definition HASH_re :: re where
  "HASH_re = seqs
     [lits ''    --hash=sha256:'',
      Grp 1 (Rep 64 (Some 64) (Cls [(CHR ''0'', CHR ''9''), (CHR ''a'', CHR ''f'')])),
      opt (Grp 2 (lits ('' '' @ [BSL])))]"

definition COMMENT_re :: re where
  "COMMENT_re = seqs [star (lit (CHR '' '')), lit (CHR ''#''), star (NCls [(LF, LF)])]"

definition FREEZE_PIN_re :: re where
  "FREEZE_PIN_re = seqs
     [Grp 1 (Seq (Cls [(CHR ''A'', CHR ''Z''), (CHR ''a'', CHR ''z''), (CHR ''0'', CHR ''9'')])
        (star (Cls [(CHR ''A'', CHR ''Z''), (CHR ''a'', CHR ''z''), (CHR ''0'', CHR ''9''), (CHR ''.'', CHR ''.''),
           (CHR ''_'', CHR ''_''), (CHR ''-'', CHR ''-'')]))),
      lits ''=='',
      Grp 2 (Seq (Cls [(CHR ''0'', CHR ''9'')])
        (star (Cls [(CHR ''0'', CHR ''9''), (CHR ''A'', CHR ''Z''), (CHR ''a'', CHR ''z''), (CHR ''.'', CHR ''.''),
           (CHR ''+'', CHR ''+''), (CHR ''!'', CHR ''!'')])))]"

section \<open>Reading\<close>

record pin =
  p_name :: string
  p_version :: string
  p_line :: nat
  p_hashes :: "string list"

definition name_sep :: "char \<Rightarrow> bool" where
  "name_sep c = (c = CHR ''-'' \<or> c = CHR ''_'' \<or> c = CHR ''.'')"

text \<open>\<open>re.sub(r"[-_.]+", "-", name)\<close>.\<close>

fun one_dash :: "string \<Rightarrow> string" where
  "one_dash [] = []"
| "one_dash [c] = [if name_sep c then CHR ''-'' else c]"
| "one_dash (c # d # s) =
     (if name_sep c then (if name_sep d then one_dash (d # s) else CHR ''-'' # one_dash (d # s))
      else c # one_dash (d # s))"

definition canonical :: "string \<Rightarrow> string" where
  "canonical name = lower (one_dash name)"

definition file_lines :: "string \<Rightarrow> string list" where
  "file_lines data = (let ls = split_on LF data in if last ls = [] then butlast ls else ls)"

definition bad_bytes :: "string \<Rightarrow> string" where
  "bad_bytes raw = sort (remdups (filter (\<lambda>b. \<not> in_range b (CHR 0x20, CHR 0x7E)) raw))"

text \<open>The rows, and the errors recorded.\<close>

definition ascii_lines :: "string \<Rightarrow> string \<Rightarrow> (nat \<times> string option) list \<times> gate_error list" where
  "ascii_lines path data =
     (let rows = enumerate 1 (file_lines data) in
      (map (\<lambda>(n, raw). (n, if bad_bytes raw \<noteq> [] then None else Some raw)) rows,
       concat (map (\<lambda>(n, raw). if bad_bytes raw \<noteq> [] then [BadBytes path n (bad_bytes raw)] else []) rows)))"

text \<open>The variables of \<open>parse\<close>; \<open>cont\<close> is the last of the pins or \<open>None\<close>, so a flag stands for it.\<close>

record parse_state =
  ps_pins :: "pin list"
  ps_errors :: "gate_error list"
  ps_seen :: "(string \<times> nat) list"
  ps_cont :: bool

definition add_hash :: "string \<Rightarrow> pin list \<Rightarrow> pin list" where
  "add_hash h pins = butlast pins @ [last pins \<lparr> p_hashes := p_hashes (last pins) @ [h] \<rparr>]"

definition parse_line :: "string \<Rightarrow> nat \<times> string option \<Rightarrow> parse_state \<Rightarrow> parse_state" where
  "parse_line path row st =
     (case row of (n, line) \<Rightarrow>
      case line of
        None \<Rightarrow> st \<lparr> ps_cont := False \<rparr>
      | Some l \<Rightarrow>
          if ps_cont st then
            (case re_fullmatch HASH_re l of
               None \<Rightarrow>
                 (let c = last (ps_pins st) in
                  st \<lparr> ps_errors := ps_errors st @ [NotHashLine path n (p_name c) (p_version c) (p_line c) l],
                       ps_cont := False \<rparr>)
             | Some m \<Rightarrow> st \<lparr> ps_pins := add_hash (the (group_of 1 m)) (ps_pins st),
                              ps_cont := (group_of 2 m \<noteq> None) \<rparr>)
          else if l = [] \<or> re_fullmatch COMMENT_re l \<noteq> None then st
          else
            (case re_fullmatch PIN_re l of
               None \<Rightarrow> st \<lparr> ps_errors := ps_errors st @ [NotPinLine path n l] \<rparr>
             | Some m \<Rightarrow>
                 (let name = the (group_of 1 m) in
                  st \<lparr> ps_errors := ps_errors st @
                         (case map_of (ps_seen st) name of None \<Rightarrow> [] | Some k \<Rightarrow> [PinnedTwice path n name k]),
                       ps_seen := AList.update name n (ps_seen st),
                       ps_pins := ps_pins st @
                         [\<lparr> p_name = name, p_version = the (group_of 2 m), p_line = n, p_hashes = [] \<rparr>],
                       ps_cont := True \<rparr>)))"

definition parse_start :: parse_state where
  "parse_start = \<lparr> ps_pins = [], ps_errors = [], ps_seen = [], ps_cont = False \<rparr>"

text \<open>\<open>parse(path)\<close> of a file with the given bytes.\<close>

definition parse :: "string \<Rightarrow> string \<Rightarrow> pin list \<times> gate_error list" where
  "parse path data =
     (case ascii_lines path data of (rows, errors) \<Rightarrow>
        (let st = fold (parse_line path) rows parse_start in
         (ps_pins st, errors @ ps_errors st @
            (if ps_cont st
             then [EndsInsidePin path (p_name (last (ps_pins st))) (p_version (last (ps_pins st)))] else []))))"

section \<open>What the patterns accept\<close>

definition name_char :: "char \<Rightarrow> bool" where
  "name_char c = (in_range c (CHR ''a'', CHR ''z'') \<or> is_digit c)"

definition version_char :: "char \<Rightarrow> bool" where
  "version_char c = (is_digit c \<or> in_range c (CHR ''A'', CHR ''Z'') \<or> in_range c (CHR ''a'', CHR ''z'')
     \<or> c \<in> {CHR ''.'', CHR ''+'', CHR ''!''})"

definition pin_name :: "string \<Rightarrow> bool" where
  "pin_name n = (n \<noteq> [] \<and> name_char (hd n) \<and> name_char (last n) \<and> list_all (\<lambda>c. name_char c \<or> c = CHR ''-'') n)"

definition pin_version :: "string \<Rightarrow> bool" where
  "pin_version v = (v \<noteq> [] \<and> is_digit (hd v) \<and> list_all version_char v)"

definition sha256_hex :: "string \<Rightarrow> bool" where
  "sha256_hex h = (length h = 64 \<and> list_all (\<lambda>c. is_digit c \<or> in_range c (CHR ''a'', CHR ''f'')) h)"

definition comment :: "string \<Rightarrow> bool" where
  "comment l = (prefix ''#'' (dropWhile (\<lambda>c. c = CHR '' '') l))"

lemma spells_name:
  "spells (Seq (Cls [(CHR ''a'', CHR ''z''), (CHR ''0'', CHR ''9'')])
        (opt (Seq (star (Cls [(CHR ''a'', CHR ''z''), (CHR ''0'', CHR ''9''), (CHR ''-'', CHR ''-'')]))
                (Cls [(CHR ''a'', CHR ''z''), (CHR ''0'', CHR ''9'')])))) pin_name"
proof -
  let ?A = "cls_has [(CHR ''a'', CHR ''z''), (CHR ''0'', CHR ''9'')]"
  let ?B = "cls_has [(CHR ''a'', CHR ''z''), (CHR ''0'', CHR ''9''), (CHR ''-'', CHR ''-'')]"
  have a: "?A = name_char" by (auto simp: fun_eq_iff cls_has_def name_char_def is_digit_def)
  have b: "?B = (\<lambda>c. name_char c \<or> c = CHR ''-'')"
    by (auto simp: fun_eq_iff cls_has_def name_char_def is_digit_def in_range_def)
  have "p \<noteq> [] \<and> name_char (hd p) \<and> (tl p = [] \<or> tl p \<noteq> [] \<and> (list_all (\<lambda>c. name_char c \<or> c = CHR ''-'') (butlast (tl p))
      \<and> 0 \<le> length (butlast (tl p)) \<and> within None (length (butlast (tl p)))) \<and> name_char (last (tl p))) \<longleftrightarrow> pin_name p" for p
  proof (cases p)
    case (Cons c t)
    show ?thesis by (cases t rule: rev_cases) (auto simp: Cons pin_name_def)
  qed (simp add: pin_name_def)
  then show ?thesis
    by (intro spells_cong [OF spells_Cls_Seq [OF spells_opt [OF spells_Seq_Cls [OF spells_Rep_Cls]]]])
      (simp only: a b)
qed

lemma spells_version:
  "spells (Seq (Cls [(CHR ''0'', CHR ''9'')])
        (star (Cls [(CHR ''0'', CHR ''9''), (CHR ''A'', CHR ''Z''), (CHR ''a'', CHR ''z''), (CHR ''.'', CHR ''.''),
           (CHR ''+'', CHR ''+''), (CHR ''!'', CHR ''!'')]))) pin_version"
proof -
  have a: "cls_has [(CHR ''0'', CHR ''9'')] = is_digit" by (auto simp: fun_eq_iff cls_has_def is_digit_def)
  have b: "cls_has [(CHR ''0'', CHR ''9''), (CHR ''A'', CHR ''Z''), (CHR ''a'', CHR ''z''), (CHR ''.'', CHR ''.''),
           (CHR ''+'', CHR ''+''), (CHR ''!'', CHR ''!'')] = version_char"
    by (auto simp: fun_eq_iff cls_has_def version_char_def is_digit_def in_range_def)
  have "p \<noteq> [] \<and> is_digit (hd p) \<and> (list_all version_char (tl p) \<and> 0 \<le> length (tl p) \<and> within None (length (tl p)))
      \<longleftrightarrow> pin_version p" for p
    by (cases p) (auto simp: pin_version_def version_char_def)
  then show ?thesis by (intro spells_cong [OF spells_Cls_Seq [OF spells_Rep_Cls]]) (simp only: a b)
qed

lemma spells_hash:
  "spells (Rep 64 (Some 64) (Cls [(CHR ''0'', CHR ''9''), (CHR ''a'', CHR ''f'')])) sha256_hex"
proof -
  have a: "cls_has [(CHR ''0'', CHR ''9''), (CHR ''a'', CHR ''f'')] = (\<lambda>c. is_digit c \<or> in_range c (CHR ''a'', CHR ''f''))"
    by (auto simp: fun_eq_iff cls_has_def is_digit_def)
  have "list_all (\<lambda>c. is_digit c \<or> in_range c (CHR ''a'', CHR ''f'')) p \<and> 64 \<le> length p \<and> within (Some 64) (length p)
      \<longleftrightarrow> sha256_hex p" for p
    by (auto simp: sha256_hex_def)
  then show ?thesis by (intro spells_cong [OF spells_Rep_Cls]) (simp only: a)
qed

lemma spells_any: "spells (star (NCls [(LF, LF)])) (\<lambda>p. LF \<notin> set p)"
proof -
  have "cls_has [(CHR 0x00, CHR 0x09), (CHR 0x0B, CHR 0xFF)] c \<longleftrightarrow> \<not> cls_has [(LF, LF)] c" for c
  proof -
    have "of_char c < (256 :: nat)" by simp
    then have "of_char c \<le> (255 :: nat)" by linarith
    moreover have "c = LF \<longleftrightarrow> of_char c = (of_char LF :: nat)" by (simp only: of_char_eq_iff)
    ultimately show ?thesis by (auto simp: cls_has_def in_range_def less_eq_char_def)
  qed
  from spells_Rep_NCls [OF this] show ?thesis
    by (rule spells_cong) (auto simp: cls_has_def in_range_def list_all_iff)
qed

lemma spells_comment: "spells COMMENT_re (\<lambda>l. comment l \<and> LF \<notin> set l)"
proof -
  have one: "cls_has [(c, c)] d \<longleftrightarrow> d = c" for c d by (auto simp: cls_has_def in_range_def)
  have ones: "cls_has [(c, c)] = (\<lambda>d. d = c)" for c by (simp add: fun_eq_iff one)
  have split: "COMMENT_re = Seq (star (Cls [(CHR '' '', CHR '' '')]))
      (Seq (lit (CHR ''#'')) (Seq (star (NCls [(LF, LF)])) Eps))"
    by (simp add: COMMENT_re_def seqs_def lit_def)
  have "p \<noteq> [] \<and> hd p = CHR ''#'' \<and> LF \<notin> set (tl p) \<longleftrightarrow> prefix ''#'' p \<and> LF \<notin> set p" for p
    by (cases p) auto
  then have tail: "spells (Seq (lit (CHR ''#'')) (Seq (star (NCls [(LF, LF)])) Eps)) (\<lambda>p. prefix ''#'' p \<and> LF \<notin> set p)"
    unfolding lit_def
    by (intro spells_cong [OF spells_Cls_Seq [OF spells_Seq [OF spells_any spells_Eps]]]) (simp add: one)
  have "(\<exists>u v. p = u @ v \<and> (list_all (\<lambda>c. c = CHR '' '') u \<and> 0 \<le> length u \<and> within None (length u)) \<and>
      prefix ''#'' v \<and> LF \<notin> set v) \<longleftrightarrow> comment p \<and> LF \<notin> set p" for p
  proof
    assume "\<exists>u v. p = u @ v \<and> (list_all (\<lambda>c. c = CHR '' '') u \<and> 0 \<le> length u \<and> within None (length u)) \<and>
      prefix ''#'' v \<and> LF \<notin> set v"
    then obtain u v where p: "p = u @ v" and u: "list_all (\<lambda>c. c = CHR '' '') u" and v: "prefix ''#'' v" "LF \<notin> set v"
      by blast
    from u have "dropWhile (\<lambda>c. c = CHR '' '') (u @ v) = dropWhile (\<lambda>c. c = CHR '' '') v"
      by (simp add: list_all_iff dropWhile_append2)
    with v have "comment p" by (cases v) (auto simp: comment_def p)
    moreover have "LF \<notin> set u" using u by (induction u) auto
    ultimately show "comment p \<and> LF \<notin> set p" using p v by simp
  next
    assume h: "comment p \<and> LF \<notin> set p"
    let ?s = "\<lambda>c. c = CHR '' ''"
    have "p = takeWhile ?s p @ dropWhile ?s p" by simp
    moreover have "list_all ?s (takeWhile ?s p)" by (auto simp: list_all_iff dest: set_takeWhileD)
    moreover have "LF \<notin> set (dropWhile ?s p)" using h set_dropWhileD by metis
    ultimately show "\<exists>u v. p = u @ v \<and> (list_all ?s u \<and> 0 \<le> length u \<and> within None (length u)) \<and>
      prefix ''#'' v \<and> LF \<notin> set v"
      using h unfolding comment_def by (metis le0 within_simps(1))
  qed
  note main = this
  show ?thesis
    unfolding split by (rule spells_cong [OF spells_Seq [OF spells_Rep_Cls tail]], unfold ones, rule main)
qed

text \<open>The lines of a pin, of a hash and of \<open>pip freeze\<close>, with the groups a match gives.\<close>

definition freeze_name :: "string \<Rightarrow> bool" where
  "freeze_name n = (n \<noteq> [] \<and> (let alnum = (\<lambda>c. in_range c (CHR ''A'', CHR ''Z'') \<or> name_char c) in
     alnum (hd n) \<and> list_all (\<lambda>c. alnum c \<or> name_sep c) n))"

lemma spells_freeze_name:
  "spells (Seq (Cls [(CHR ''A'', CHR ''Z''), (CHR ''a'', CHR ''z''), (CHR ''0'', CHR ''9'')])
        (star (Cls [(CHR ''A'', CHR ''Z''), (CHR ''a'', CHR ''z''), (CHR ''0'', CHR ''9''), (CHR ''.'', CHR ''.''),
           (CHR ''_'', CHR ''_''), (CHR ''-'', CHR ''-'')]))) freeze_name"
proof -
  have a: "cls_has [(CHR ''A'', CHR ''Z''), (CHR ''a'', CHR ''z''), (CHR ''0'', CHR ''9'')]
      = (\<lambda>c. in_range c (CHR ''A'', CHR ''Z'') \<or> name_char c)"
    by (auto simp: fun_eq_iff cls_has_def name_char_def is_digit_def)
  have b: "cls_has [(CHR ''A'', CHR ''Z''), (CHR ''a'', CHR ''z''), (CHR ''0'', CHR ''9''), (CHR ''.'', CHR ''.''),
           (CHR ''_'', CHR ''_''), (CHR ''-'', CHR ''-'')]
      = (\<lambda>c. (in_range c (CHR ''A'', CHR ''Z'') \<or> name_char c) \<or> name_sep c)"
    by (auto simp: fun_eq_iff cls_has_def name_char_def name_sep_def is_digit_def in_range_def)
  have main: "p \<noteq> [] \<and> (in_range (hd p) (CHR ''A'', CHR ''Z'') \<or> name_char (hd p)) \<and>
      (list_all (\<lambda>c. (in_range c (CHR ''A'', CHR ''Z'') \<or> name_char c) \<or> name_sep c) (tl p) \<and> 0 \<le> length (tl p)
        \<and> within None (length (tl p))) \<longleftrightarrow> freeze_name p" for p
    by (cases p) (auto simp: freeze_name_def)
  show ?thesis by (rule spells_cong [OF spells_Cls_Seq [OF spells_Rep_Cls]], unfold a b, rule main)
qed

lemma names_no_eq:
  "pin_name n \<Longrightarrow> CHR ''='' \<notin> set n" "freeze_name n \<Longrightarrow> CHR ''='' \<notin> set n"
  by (auto simp: pin_name_def freeze_name_def name_char_def name_sep_def is_digit_def in_range_def list_all_iff less_eq_char_def)

lemma eq_split: "CHR ''='' \<notin> set n \<Longrightarrow> CHR ''='' \<notin> set n' \<Longrightarrow> n @ ''=='' @ v = n' @ ''=='' @ v' \<Longrightarrow> n = n' \<and> v = v'"
proof -
  assume "CHR ''='' \<notin> set n" "CHR ''='' \<notin> set n'" and e: "n @ ''=='' @ v = n' @ ''=='' @ v'"
  with arg_cong [OF e, of "partition_on (CHR ''='')"] show ?thesis by simp
qed

definition pin_text :: "string \<Rightarrow> string \<Rightarrow> string" where
  "pin_text n v = n @ ''=='' @ v"

lemma pin_text_inj:
  assumes "pin_name n \<or> freeze_name n" and "pin_name n' \<or> freeze_name n'"
  shows "pin_text n v = pin_text n' v' \<longleftrightarrow> n = n' \<and> v = v'"
  using assms names_no_eq eq_split unfolding pin_text_def by metis

lemma PIN_run:
  "y \<in> set (re_run PIN_re (l, [])) \<and> fst y = [] \<longleftrightarrow>
    (\<exists>n v. l = pin_text n (v @ '' '' @ [BSL]) \<and> pin_name n \<and> pin_version v \<and> y = ([], [(2, v), (1, n)]))"
proof -
  have "y \<in> set (re_run PIN_re (l, [])) \<longleftrightarrow>
      (\<exists>n t. l = n @ t \<and> pin_name n \<and> (\<exists>u. t = ''=='' @ u \<and>
        (\<exists>v w. u = v @ w \<and> pin_version v \<and> (\<exists>r. w = ('' '' @ [BSL]) @ r \<and> y = (r, [(2, v), (1, n)])))))"
    by (simp only: PIN_re_def seqs_def foldr.simps comp_apply id_apply run_lits_Seq run_Eps groupless.simps simp_thms
      run_Grp_Seq [OF _ spells_name] run_Grp_Seq [OF _ spells_version])
  then show ?thesis by (auto simp: pin_text_def)
qed

lemma PIN_match:
  "re_fullmatch PIN_re l = Some m \<longleftrightarrow>
    (\<exists>n v. l = pin_text n (v @ '' '' @ [BSL]) \<and> pin_name n \<and> pin_version v \<and> m = ([], [(2, v), (1, n)]))"
  (is "_ \<longleftrightarrow> ?rhs m")
proof
  assume "re_fullmatch PIN_re l = Some m"
  then show "?rhs m" using fullmatch_Some PIN_run by blast
next
  assume m: "?rhs m"
  have "y = m" if "y \<in> set (re_run PIN_re (l, []))" "fst y = []" for y
  proof -
    from that have "?rhs y" using PIN_run by blast
    with m show ?thesis by (auto simp: pin_text_inj)
  qed
  with m show "re_fullmatch PIN_re l = Some m" using PIN_run fullmatch_unique by metis
qed

lemma FREEZE_run:
  "y \<in> set (re_run FREEZE_PIN_re (l, [])) \<and> fst y = [] \<longleftrightarrow>
    (\<exists>n v. l = pin_text n v \<and> freeze_name n \<and> pin_version v \<and> y = ([], [(2, v), (1, n)]))"
proof -
  have "y \<in> set (re_run FREEZE_PIN_re (l, [])) \<longleftrightarrow>
      (\<exists>n t. l = n @ t \<and> freeze_name n \<and> (\<exists>u. t = ''=='' @ u \<and>
        (\<exists>v w. u = v @ w \<and> pin_version v \<and> y = (w, [(2, v), (1, n)]))))"
    by (simp only: FREEZE_PIN_re_def seqs_def foldr.simps comp_apply id_apply run_lits_Seq run_Eps groupless.simps
      simp_thms run_Grp_Seq [OF _ spells_freeze_name] run_Grp_Seq [OF _ spells_version])
  then show ?thesis by (auto simp: pin_text_def)
qed

lemma FREEZE_match:
  "re_fullmatch FREEZE_PIN_re l = Some m \<longleftrightarrow>
    (\<exists>n v. l = pin_text n v \<and> freeze_name n \<and> pin_version v \<and> m = ([], [(2, v), (1, n)]))"
  (is "_ \<longleftrightarrow> ?rhs m")
proof
  assume "re_fullmatch FREEZE_PIN_re l = Some m"
  then show "?rhs m" using fullmatch_Some FREEZE_run by blast
next
  assume m: "?rhs m"
  have "y = m" if "y \<in> set (re_run FREEZE_PIN_re (l, []))" "fst y = []" for y
  proof -
    from that have "?rhs y" using FREEZE_run by blast
    with m show ?thesis by (auto simp: pin_text_inj)
  qed
  with m show "re_fullmatch FREEZE_PIN_re l = Some m" using FREEZE_run fullmatch_unique by metis
qed

definition hash_text :: "string \<Rightarrow> bool \<Rightarrow> string" where
  "hash_text h goes_on = ''    --hash=sha256:'' @ h @ (if goes_on then '' '' @ [BSL] else [])"

lemma hash_text_inj:
  "length h = length h' \<Longrightarrow> hash_text h b = hash_text h' b' \<longleftrightarrow> h = h' \<and> b = b'"
  by (auto simp: hash_text_def)

lemma HASH_run:
  "y \<in> set (re_run HASH_re (l, [])) \<and> fst y = [] \<longleftrightarrow>
    (\<exists>h b. l = hash_text h b \<and> sha256_hex h \<and> y = ([], (if b then [(2, '' '' @ [BSL])] else []) @ [(1, h)]))"
proof -
  have "\<not> ([] = '' '' @ [BSL])" by simp
  note last = run_opt_Grp [OF groupless_lits spells_lits this]
  have "y \<in> set (re_run HASH_re (l, [])) \<longleftrightarrow>
      (\<exists>u. l = ''    --hash=sha256:'' @ u \<and> (\<exists>h t. u = h @ t \<and> sha256_hex h \<and>
        (y = (t, [(1, h)]) \<or> (\<exists>p r. t = p @ r \<and> p = '' '' @ [BSL] \<and> y = (r, (2, p) # [(1, h)])))))"
    by (simp only: HASH_re_def seqs_def foldr.simps comp_apply id_apply run_lits_Seq
      run_Grp_Seq [OF _ spells_hash] groupless.simps simp_thms run_Seq_Eps last)
  then show ?thesis by (cases y) (auto simp: hash_text_def split: if_splits)
qed

lemma HASH_match:
  "re_fullmatch HASH_re l = Some m \<longleftrightarrow>
    (\<exists>h b. l = hash_text h b \<and> sha256_hex h \<and> m = ([], (if b then [(2, '' '' @ [BSL])] else []) @ [(1, h)]))"
  (is "_ \<longleftrightarrow> ?rhs m")
proof
  assume "re_fullmatch HASH_re l = Some m"
  then show "?rhs m" using fullmatch_Some HASH_run by blast
next
  assume m: "?rhs m"
  have "y = m" if "y \<in> set (re_run HASH_re (l, []))" "fst y = []" for y
  proof -
    from that have "?rhs y" using HASH_run by blast
    with m show ?thesis by (auto simp: hash_text_inj sha256_hex_def)
  qed
  with m show "re_fullmatch HASH_re l = Some m" using HASH_run fullmatch_unique by metis
qed

lemma COMMENT_match: "re_fullmatch COMMENT_re l \<noteq> None \<longleftrightarrow> comment l \<and> LF \<notin> set l"
  by (rule fullmatch_groupless [OF _ spells_comment]) (simp add: COMMENT_re_def seqs_def lit_def)

end
