(* ===== verification/LockParse.thy ===== *)
theory LockParse
  imports LockFile
begin

text \<open>
  What a lockfile is, and that \<open>parse\<close> accepts just that: a list of items, each a blank line, a comment or
  a pin with its hashes, no name pinned twice, all of it in printable ASCII.
\<close>

section \<open>Lockfiles as items\<close>

datatype item = Blank | Comment string | Pinned string string "string list"

definition printable :: "string \<Rightarrow> bool" where
  "printable s = list_all (\<lambda>c. in_range c (CHR 0x20, CHR 0x7E)) s"

fun hash_lines :: "string list \<Rightarrow> string list" where
  "hash_lines [] = []"
| "hash_lines (h # hs) = hash_text h (hs \<noteq> []) # hash_lines hs"

definition pin_line :: "string \<Rightarrow> string \<Rightarrow> string" where
  "pin_line n v = pin_text n (v @ '' '' @ [BSL])"

fun item_lines :: "item \<Rightarrow> string list" where
  "item_lines Blank = ['''']"
| "item_lines (Comment c) = [c]"
| "item_lines (Pinned n v hs) = pin_line n v # hash_lines hs"

fun item_ok :: "item \<Rightarrow> bool" where
  "item_ok Blank = True"
| "item_ok (Comment c) = (comment c \<and> printable c)"
| "item_ok (Pinned n v hs) = (pin_name n \<and> pin_version v \<and> hs \<noteq> [] \<and> list_all sha256_hex hs)"

fun item_names :: "item \<Rightarrow> string list" where
  "item_names (Pinned n v hs) = [n]"
| "item_names _ = []"

fun item_pin :: "nat \<Rightarrow> item \<Rightarrow> pin list" where
  "item_pin k (Pinned n v hs) = [\<lparr> p_name = n, p_version = v, p_line = k, p_hashes = hs \<rparr>]"
| "item_pin k _ = []"

primrec item_pins :: "nat \<Rightarrow> item list \<Rightarrow> pin list" where
  "item_pins k [] = []"
| "item_pins k (i # is) = item_pin k i @ item_pins (k + length (item_lines i)) is"

abbreviation lines_of :: "item list \<Rightarrow> string list" where
  "lines_of is \<equiv> concat (map item_lines is)"

abbreviation names_of :: "item list \<Rightarrow> string list" where
  "names_of is \<equiv> concat (map item_names is)"

lemma item_pins_append: "item_pins k (is @ js) = item_pins k is @ item_pins (k + length (lines_of is)) js"
  by (induction "is" arbitrary: k) (simp_all add: add.assoc)

lemma names_item_pins: "map p_name (item_pins k is) = names_of is"
proof (induction "is" arbitrary: k)
  case (Cons i "is")
  then show ?case by (cases i) auto
qed simp

lemma hash_lines_snoc:
  "hash_lines (hs @ [h]) = map (\<lambda>h. hash_text h True) hs @ [hash_text h False]"
  by (induction hs) auto

text \<open>Every line of an item is printable.\<close>

lemma printable_simps [simp]:
  "printable []" "printable (c # s) \<longleftrightarrow> in_range c (CHR 0x20, CHR 0x7E) \<and> printable s"
  "printable (s @ t) \<longleftrightarrow> printable s \<and> printable t"
  by (simp_all add: printable_def)

lemma in_range_sub: "in_range c (a, b) \<Longrightarrow> l \<le> a \<Longrightarrow> b \<le> u \<Longrightarrow> in_range c (l, u)"
  by (auto simp: in_range_def)

lemma printable_sets:
  "list_all version_char v \<Longrightarrow> printable v" "list_all (\<lambda>c. name_char c \<or> c = CHR ''-'') n \<Longrightarrow> printable n"
  "list_all (\<lambda>c. is_digit c \<or> in_range c (CHR ''a'', CHR ''f'')) h \<Longrightarrow> printable h"
  unfolding printable_def
  by (erule list.pred_mono_strong, force simp: version_char_def name_char_def is_digit_def in_range_def less_eq_char_def)+

lemma printable_hash: "sha256_hex h \<Longrightarrow> printable (hash_text h b)"
  using printable_sets(3) [of h] by (simp add: hash_text_def sha256_hex_def in_range_def less_eq_char_def)

lemma printable_item: "item_ok i \<Longrightarrow> l \<in> set (item_lines i) \<Longrightarrow> printable l"
proof (cases i)
  case (Pinned n v hs)
  assume "item_ok i" and l: "l \<in> set (item_lines i)"
  with Pinned have n: "pin_name n" and v: "pin_version v" and hs: "list_all sha256_hex hs" by simp_all
  have "l \<in> set (hash_lines hs) \<Longrightarrow> printable l"
    using hs by (induction hs) (auto simp: printable_hash)
  moreover have "printable (pin_line n v)"
    using n v by (simp add: pin_line_def pin_text_def pin_name_def pin_version_def printable_sets in_range_def less_eq_char_def)
  ultimately show ?thesis using l Pinned by auto
qed auto

section \<open>The rows of a file\<close>

lemma bad_bytes_printable: "bad_bytes raw = [] \<longleftrightarrow> printable raw"
proof -
  have "set (bad_bytes raw) = set (filter (\<lambda>b. \<not> in_range b (CHR 0x20, CHR 0x7E)) raw)"
    by (simp add: bad_bytes_def)
  then have "bad_bytes raw = [] \<longleftrightarrow> filter (\<lambda>b. \<not> in_range b (CHR 0x20, CHR 0x7E)) raw = []"
    by (metis set_empty)
  then show ?thesis by (auto simp: printable_def list_all_iff filter_empty_conv)
qed

lemma enumerate_map_if:
  "map (\<lambda>(n, raw). (n, if bad_bytes raw \<noteq> [] then None else Some raw)) (enumerate k ls)
     = enumerate k (map (\<lambda>raw. if printable raw then Some raw else None) ls)"
  by (induction ls arbitrary: k) (simp_all add: bad_bytes_printable)

lemma enumerate_concat_Nil:
  "concat (map (\<lambda>(n, raw). if bad_bytes raw \<noteq> [] then [g n raw] else []) (enumerate k ls)) = []
     \<longleftrightarrow> list_all printable ls"
  by (induction ls arbitrary: k) (auto simp: bad_bytes_printable)

lemma ascii_errors: "snd (ascii_lines path data) = [] \<longleftrightarrow> list_all printable (file_lines data)"
  unfolding ascii_lines_def Let_def snd_conv by (rule enumerate_concat_Nil)

lemma ascii_rows:
  assumes "list_all printable (file_lines data)"
  shows "fst (ascii_lines path data) = enumerate 1 (map Some (file_lines data))"
proof -
  have "map (\<lambda>raw. if printable raw then Some raw else None) ls = map Some ls" if "list_all printable ls" for ls
    using that by (induction ls) auto
  from this [OF assms] show ?thesis unfolding ascii_lines_def Let_def fst_conv enumerate_map_if by (rule arg_cong)
qed

section \<open>Reading the lines of an item\<close>

abbreviation read_rows :: "string \<Rightarrow> nat \<Rightarrow> string list \<Rightarrow> parse_state \<Rightarrow> parse_state" where
  "read_rows path k ls \<equiv> fold (parse_line path) (enumerate k (map Some ls))"

lemma read_rows_append: "read_rows path k (ls @ ms) st = read_rows path (k + length ls) ms (read_rows path k ls st)"
  by (simp add: enumerate_append_eq)

lemma add_hash_snoc [simp]: "add_hash h (ps @ [p]) = ps @ [p \<lparr> p_hashes := p_hashes p @ [h] \<rparr>]"
  by (simp add: add_hash_def)

lemma pin_line_match: "pin_name n \<Longrightarrow> pin_version v \<Longrightarrow> re_fullmatch PIN_re (pin_line n v) = Some ([], [(2, v), (1, n)])"
  using PIN_match by (auto simp: pin_line_def)

lemma hash_match: "sha256_hex h \<Longrightarrow> re_fullmatch HASH_re (hash_text h b)
    = Some ([], (if b then [(2, '' '' @ [BSL])] else []) @ [(1, h)])"
  using HASH_match by blast

lemma pin_line_no_comment: "pin_name n \<Longrightarrow> pin_line n v \<noteq> [] \<and> re_fullmatch COMMENT_re (pin_line n v) = None"
proof -
  assume "pin_name n"
  then obtain c t where n: "n = c # t" and c: "name_char c" by (cases n) (auto simp: pin_name_def)
  from c have "c \<noteq> CHR '' ''" "c \<noteq> CHR ''#''" by (auto simp: name_char_def is_digit_def in_range_def less_eq_char_def)
  with n have "\<not> comment (pin_line n v)" by (simp add: comment_def pin_line_def pin_text_def)
  with COMMENT_match [of "pin_line n v"] have "re_fullmatch COMMENT_re (pin_line n v) = None" by blast
  with n show ?thesis by (simp add: pin_line_def pin_text_def)
qed

lemma read_hashes:
  assumes "list_all sha256_hex hs" and "hs \<noteq> []" and "ps_cont st" and "ps_pins st = ps @ [p]"
  shows "read_rows path k (hash_lines hs) st
    = st \<lparr> ps_pins := ps @ [p \<lparr> p_hashes := p_hashes p @ hs \<rparr>], ps_cont := False \<rparr>"
  using assms
proof (induction hs arbitrary: k st p)
  case (Cons h hs)
  let ?st = "st \<lparr> ps_pins := ps @ [p \<lparr> p_hashes := p_hashes p @ [h] \<rparr>], ps_cont := (hs \<noteq> []) \<rparr>"
  have one: "parse_line path (k, Some (hash_text h (hs \<noteq> []))) st = ?st"
    using Cons.prems by (simp add: parse_line_def hash_match group_of_def)
  show ?case
  proof (cases "hs = []")
    case True
    with one show ?thesis by simp
  next
    case False
    have "read_rows path (Suc k) (hash_lines hs) ?st
        = ?st \<lparr> ps_pins := ps @ [p \<lparr> p_hashes := p_hashes p @ [h] \<rparr> \<lparr> p_hashes := (p_hashes p @ [h]) @ hs \<rparr>], ps_cont := False \<rparr>"
      using Cons.IH [of ?st "p \<lparr> p_hashes := p_hashes p @ [h] \<rparr>" "Suc k"] Cons.prems(1) False by simp
    with one show ?thesis by simp
  qed
qed simp

lemma read_item:
  assumes "item_ok i" and "\<not> ps_cont st" and "\<forall>n \<in> set (item_names i). map_of (ps_seen st) n = None"
  shows "\<exists>seen. read_rows path k (item_lines i) st = st \<lparr> ps_pins := ps_pins st @ item_pin k i, ps_seen := seen \<rparr>
    \<and> dom (map_of seen) = dom (map_of (ps_seen st)) \<union> set (item_names i)"
proof (cases i)
  case Blank
  with assms(2) show ?thesis by (intro exI [of _ "ps_seen st"]) (simp add: parse_line_def)
next
  case (Comment c)
  with assms(1) have "comment c" "printable c" by simp_all
  then have "re_fullmatch COMMENT_re c \<noteq> None"
    unfolding COMMENT_match by (auto simp: printable_def list_all_iff in_range_def less_eq_char_def)
  with Comment assms(2) show ?thesis by (intro exI [of _ "ps_seen st"]) (simp add: parse_line_def)
next
  case (Pinned n v hs)
  with assms have n: "pin_name n" and v: "pin_version v" and hs: "hs \<noteq> []" "list_all sha256_hex hs"
    and new: "map_of (ps_seen st) n = None" by simp_all
  let ?p = "\<lparr> p_name = n, p_version = v, p_line = k, p_hashes = [] \<rparr>"
  let ?seen = "AList.update n k (ps_seen st)"
  let ?st = "st \<lparr> ps_pins := ps_pins st @ [?p], ps_seen := ?seen, ps_cont := True \<rparr>"
  have "parse_line path (k, Some (pin_line n v)) st = ?st"
    using assms(2) pin_line_no_comment [OF n] new
    by (simp add: parse_line_def pin_line_match [OF n v] group_of_def)
  moreover have "read_rows path (Suc k) (hash_lines hs) ?st
      = ?st \<lparr> ps_pins := ps_pins st @ [?p \<lparr> p_hashes := [] @ hs \<rparr>], ps_cont := False \<rparr>"
    using read_hashes [OF hs(2,1), of ?st "ps_pins st" ?p path "Suc k"] by simp
  ultimately show ?thesis using Pinned assms(2)
    by (intro exI [of _ ?seen]) (simp add: update_conv')
qed

lemma read_items:
  assumes "list_all item_ok is" and "distinct (names_of is)" and "\<not> ps_cont st"
    and "set (names_of is) \<inter> dom (map_of (ps_seen st)) = {}"
  shows "\<exists>seen. read_rows path k (lines_of is) st = st \<lparr> ps_pins := ps_pins st @ item_pins k is, ps_seen := seen \<rparr>"
  using assms
proof (induction "is" arbitrary: k st)
  case Nil
  show ?case by (intro exI [of _ "ps_seen st"]) simp
next
  case (Cons i "is")
  have "\<forall>n \<in> set (item_names i). map_of (ps_seen st) n = None" using Cons.prems(4) by fastforce
  with read_item [of i st path k] Cons.prems obtain seen
    where one: "read_rows path k (item_lines i) st = st \<lparr> ps_pins := ps_pins st @ item_pin k i, ps_seen := seen \<rparr>"
      and dom: "dom (map_of seen) = dom (map_of (ps_seen st)) \<union> set (item_names i)" by auto
  let ?st = "st \<lparr> ps_pins := ps_pins st @ item_pin k i, ps_seen := seen \<rparr>"
  have "set (names_of is) \<inter> dom (map_of (ps_seen ?st)) = {}" using Cons.prems(2,4) dom by auto
  with Cons.IH [of ?st "k + length (item_lines i)"] Cons.prems obtain seen' where
    "read_rows path (k + length (item_lines i)) (lines_of is) ?st
       = ?st \<lparr> ps_pins := ps_pins ?st @ item_pins (k + length (item_lines i)) is, ps_seen := seen' \<rparr>" by auto
  with one show ?case by (intro exI [of _ seen']) (simp add: enumerate_append_eq)
qed

section \<open>What was read\<close>

text \<open>
  The lines read so far without an error, when no pin is open: they are those of items. When one is open,
  its line and some hash lines that go on follow.
\<close>

definition read_closed :: "string list \<Rightarrow> parse_state \<Rightarrow> item list \<Rightarrow> bool" where
  "read_closed ls st is \<longleftrightarrow> list_all item_ok is \<and> distinct (names_of is) \<and> ls = lines_of is
     \<and> ps_pins st = item_pins 1 is \<and> dom (map_of (ps_seen st)) = set (names_of is)"

definition read_open :: "string list \<Rightarrow> parse_state \<Rightarrow> item list \<Rightarrow> string \<Rightarrow> string \<Rightarrow> string list \<Rightarrow> bool" where
  "read_open ls st is n v hs \<longleftrightarrow> list_all item_ok is \<and> distinct (n # names_of is) \<and> pin_name n \<and> pin_version v
     \<and> list_all sha256_hex hs \<and> ls = lines_of is @ pin_line n v # map (\<lambda>h. hash_text h True) hs
     \<and> ps_pins st = item_pins 1 is @ [\<lparr> p_name = n, p_version = v, p_line = Suc (length (lines_of is)), p_hashes = hs \<rparr>]
     \<and> dom (map_of (ps_seen st)) = insert n (set (names_of is))"

definition read_so_far :: "string list \<Rightarrow> parse_state \<Rightarrow> bool" where
  "read_so_far ls st \<longleftrightarrow> (if ps_cont st then \<exists>is n v hs. read_open ls st is n v hs else \<exists>is. read_closed ls st is)"

lemma errors_grow: "\<exists>es. ps_errors (parse_line path row st) = ps_errors st @ es"
  by (auto simp: parse_line_def Let_def split: option.splits prod.splits)

lemma item_pins_snoc: "item_pins k (is @ [i]) = item_pins k is @ item_pin (k + length (lines_of is)) i"
  by (simp add: item_pins_append)

lemma read_step:
  assumes "read_so_far ls st" and "printable l" and "ps_errors (parse_line path (Suc (length ls), Some l) st) = []"
  shows "read_so_far (ls @ [l]) (parse_line path (Suc (length ls), Some l) st)"
proof (cases "ps_cont st")
  case True
  then obtain "is" n v hs where o: "read_open ls st is n v hs" using assms(1) by (auto simp: read_so_far_def)
  from True assms(3) obtain m where "re_fullmatch HASH_re l = Some m"
    by (auto simp: parse_line_def Let_def split: option.splits)
  then obtain h b where l: "l = hash_text h b" and h: "sha256_hex h" by (auto simp: HASH_match)
  have st': "parse_line path (Suc (length ls), Some l) st = st \<lparr> ps_pins := add_hash h (ps_pins st), ps_cont := b \<rparr>"
    using True by (simp add: parse_line_def l hash_match [OF h] group_of_def)
  show ?thesis
  proof (cases b)
    case True
    from o l h True have "read_open (ls @ [l]) (st \<lparr> ps_pins := add_hash h (ps_pins st), ps_cont := True \<rparr>) is n v (hs @ [h])"
      by (simp add: read_open_def)
    with True show ?thesis unfolding st' by (auto simp: read_so_far_def)
  next
    case False
    from o l h False have "read_closed (ls @ [l]) (st \<lparr> ps_pins := add_hash h (ps_pins st), ps_cont := False \<rparr>)
        (is @ [Pinned n v (hs @ [h])])"
      by (auto simp: read_open_def read_closed_def item_pins_snoc hash_lines_snoc)
    with False show ?thesis unfolding st' by (auto simp: read_so_far_def)
  qed
next
  case closed: False
  then obtain "is" where c: "read_closed ls st is" using assms(1) by (auto simp: read_so_far_def)
  have pin: "re_fullmatch PIN_re l \<noteq> None" if "l \<noteq> []" "re_fullmatch COMMENT_re l = None"
    using that closed assms(3) by (cases "re_fullmatch PIN_re l") (auto simp: parse_line_def)
  then consider "l = []" | "l \<noteq> []" "re_fullmatch COMMENT_re l \<noteq> None"
    | m where "l \<noteq> []" "re_fullmatch COMMENT_re l = None" "re_fullmatch PIN_re l = Some m"
    by blast
  then show ?thesis
  proof cases
    case 1
    with closed have "parse_line path (Suc (length ls), Some l) st = st" by (simp add: parse_line_def)
    moreover from c 1 have "read_closed (ls @ [l]) st (is @ [Blank])"
      by (simp add: read_closed_def item_pins_snoc)
    ultimately show ?thesis using closed by (auto simp: read_so_far_def)
  next
    case 2
    with closed have "parse_line path (Suc (length ls), Some l) st = st" by (simp add: parse_line_def)
    moreover have "comment l" using 2 COMMENT_match by blast
    with c assms(2) have "read_closed (ls @ [l]) st (is @ [Comment l])"
      by (simp add: read_closed_def item_pins_snoc)
    ultimately show ?thesis using closed by (auto simp: read_so_far_def)
  next
    case 3
    from 3(3) obtain n v where l: "l = pin_line n v" and n: "pin_name n" and v: "pin_version v"
      and m: "m = ([], [(2, v), (1, n)])"
      by (auto simp: PIN_match pin_line_def)
    from closed 3 assms(3) m have new: "map_of (ps_seen st) n = None"
      by (auto simp: parse_line_def group_of_def Let_def split: option.splits)
    let ?p = "\<lparr> p_name = n, p_version = v, p_line = Suc (length ls), p_hashes = [] \<rparr>"
    let ?st = "st \<lparr> ps_pins := ps_pins st @ [?p], ps_seen := AList.update n (Suc (length ls)) (ps_seen st), ps_cont := True \<rparr>"
    have "parse_line path (Suc (length ls), Some l) st = ?st"
      using closed 3 m new by (simp add: parse_line_def group_of_def)
    moreover have "n \<notin> set (names_of is)" using new c by (auto simp: read_closed_def)
    with c l n v have "read_open (ls @ [l]) ?st is n v []"
      by (simp add: read_open_def read_closed_def update_conv')
    ultimately show ?thesis unfolding read_so_far_def by auto
  qed
qed

lemma read_all:
  "list_all printable ls \<Longrightarrow> ps_errors (read_rows path 1 ls parse_start) = [] \<Longrightarrow>
    read_so_far ls (read_rows path 1 ls parse_start)"
proof (induction ls rule: rev_induct)
  case Nil
  have "read_closed [] parse_start []" by (simp add: read_closed_def parse_start_def)
  then show ?case by (auto simp: read_so_far_def parse_start_def)
next
  case (snoc l ls)
  let ?st = "read_rows path 1 ls parse_start"
  have step: "read_rows path 1 (ls @ [l]) parse_start = parse_line path (Suc (length ls), Some l) ?st"
    by (simp add: enumerate_append_eq)
  with snoc.prems errors_grow [of path "(Suc (length ls), Some l)" ?st] have "ps_errors ?st = []" by auto
  with snoc have "read_so_far ls ?st" by simp
  from read_step [OF this, of l path] snoc.prems show ?case unfolding step by simp
qed

section \<open>Properties\<close>

text \<open>
  C10: The gate accepts a file exactly if its lines are those of a list of items: blank lines, comments in
  printable ASCII, and pins with at least one hash, no name pinned twice. The pins it then returns are
  those of the items, with their line numbers and hashes. Nothing else in a file is accepted.
\<close>

theorem parse_accepts_items:
  "parse path data = (pins, []) \<longleftrightarrow>
    (\<exists>is. list_all item_ok is \<and> distinct (names_of is) \<and> file_lines data = lines_of is \<and> pins = item_pins 1 is)"
proof
  assume "parse path data = (pins, [])"
  then have a: "snd (ascii_lines path data) = []"
    and f: "ps_errors (fold (parse_line path) (fst (ascii_lines path data)) parse_start) = []"
      "\<not> ps_cont (fold (parse_line path) (fst (ascii_lines path data)) parse_start)"
      "ps_pins (fold (parse_line path) (fst (ascii_lines path data)) parse_start) = pins"
    by (auto simp: parse_def Let_def split: prod.splits if_splits)
  from a have p: "list_all printable (file_lines data)" by (simp add: ascii_errors)
  with f read_all [OF p, of path] obtain "is" where
    "read_closed (file_lines data) (read_rows path 1 (file_lines data) parse_start) is"
    by (auto simp: ascii_rows read_so_far_def)
  with f p show "\<exists>is. list_all item_ok is \<and> distinct (names_of is) \<and> file_lines data = lines_of is \<and> pins = item_pins 1 is"
    by (auto simp: ascii_rows read_closed_def)
next
  assume "\<exists>is. list_all item_ok is \<and> distinct (names_of is) \<and> file_lines data = lines_of is \<and> pins = item_pins 1 is"
  then obtain "is" where ok: "list_all item_ok is" and d: "distinct (names_of is)"
    and l: "file_lines data = lines_of is" and pins: "pins = item_pins 1 is" by blast
  have p: "list_all printable (file_lines data)"
    using ok printable_item unfolding l by (auto simp: list_all_iff)
  obtain seen where "read_rows path 1 (lines_of is) parse_start
      = parse_start \<lparr> ps_pins := ps_pins parse_start @ item_pins 1 is, ps_seen := seen \<rparr>"
    using read_items [OF ok d, of parse_start path 1] by (auto simp: parse_start_def)
  then have "fold (parse_line path) (fst (ascii_lines path data)) parse_start
      = parse_start \<lparr> ps_pins := item_pins 1 is, ps_seen := seen \<rparr>"
    unfolding ascii_rows [OF p] l by (simp add: parse_start_def)
  moreover have "snd (ascii_lines path data) = []" using p by (simp add: ascii_errors)
  ultimately show "parse path data = (pins, [])"
    using pins by (cases "ascii_lines path data") (simp add: parse_def parse_start_def)
qed

text \<open>Where no character but LF breaks a line, \<open>splitlines\<close> gives the lines between the LFs.\<close>

lemma lines_from_split:
  "(\<And>c. c \<in> set s \<Longrightarrow> is_line_break c \<Longrightarrow> c = LF) \<Longrightarrow>
    lines_from cur s = (let ls = (rev cur @ hd (split_on LF s)) # tl (split_on LF s) in
      if last ls = [] then butlast ls else ls)"
proof (induction cur s rule: lines_from.induct)
  case (2 cur c)
  then show ?case by (auto simp: is_line_break_def in_range_def)
next
  case (3 cur c d s)
  obtain p ps where split: "split_on LF (d # s) = p # ps"
    using split_on_ne [of LF "d # s"] by (metis neq_Nil_conv)
  have cr: "c \<noteq> CR" using "3.prems" [of c] by (auto simp: is_line_break_def in_range_def)
  show ?case
  proof (cases "c = LF")
    case True
    then have lb: "is_line_break c" by (simp add: is_line_break_def in_range_def)
    have "lines_from [] (d # s) = (let ls = p # ps in if last ls = [] then butlast ls else ls)"
      using 3(2) [OF _ lb "3.prems"] cr split by simp
    moreover have "split_on LF (c # d # s) = [] # p # ps"
      by (simp only: split_on.simps(2) [of LF LF] True split refl if_True)
    ultimately show ?thesis using cr lb True by (simp add: Let_def del: split_on.simps)
  next
    case False
    have nb: "\<not> is_line_break c" using False "3.prems" [of c, OF list.set_intros(1)] by (rule contrapos_nn)
    have "lines_from (c # cur) (d # s) = (let ls = (rev (c # cur) @ p) # ps in if last ls = [] then butlast ls else ls)"
      using 3(3) [OF _ nb "3.prems"] cr split by simp
    moreover have "split_on LF (c # d # s) = (c # p) # ps" using split False by (simp del: split_on.simps add: split_on.simps(2) [of LF c])
    ultimately show ?thesis using cr nb by (simp add: Let_def del: split_on.simps)
  qed
qed simp

lemma printable_no_break: "printable l \<Longrightarrow> c \<in> set l \<Longrightarrow> \<not> is_line_break c"
  by (auto simp: printable_def list_all_iff is_line_break_def in_range_def less_eq_char_def)


definition sample_hash :: string where
  "sample_hash = concat (replicate 16 ''0a1f'')"

definition sample_lock :: string where
  "sample_lock = join [LF] [''# by uv'', pin_line ''idna'' ''3.10'', hash_text sample_hash True,
     hash_text sample_hash False, [], pin_line ''h11'' ''0.16.0'', hash_text sample_hash False] @ [LF]"

lemma sample_lock_parses:
  "parse ''l'' sample_lock = ([\<lparr> p_name = ''idna'', p_version = ''3.10'', p_line = 2, p_hashes = [sample_hash, sample_hash] \<rparr>,
     \<lparr> p_name = ''h11'', p_version = ''0.16.0'', p_line = 6, p_hashes = [sample_hash] \<rparr>], [])"
  by code_simp


end
