(* ===== verification/LockClosure.thy ===== *)
theory LockClosure
  imports LockFile
begin

text \<open>
  \<open>closure\<close> of \<open>scripts/lockfile_gate.py\<close>: every installed distribution is required by one of the
  roots. The worklist search is compared with the relation it computes. \<open>importlib.metadata\<close> gives the
  distributions and \<open>packaging\<close> reads a requirement; both are parameters.
\<close>

section \<open>Reports\<close>

text \<open>The exit code, the errors printed, and the text printed if there are none.\<close>

record outcome =
  oc_code :: int
  oc_errors :: "gate_error list"
  oc_ok :: "string option"

definition report :: "gate_error list \<Rightarrow> string \<Rightarrow> outcome" where
  "report errors ok =
     (if errors \<noteq> [] then \<lparr> oc_code = 1, oc_errors = errors, oc_ok = None \<rparr>
      else \<lparr> oc_code = 0, oc_errors = [], oc_ok = Some ok \<rparr>)"

lemma report_code [simp]: "oc_code (report errors ok) = 0 \<longleftrightarrow> errors = []"
  by (simp add: report_def)

section \<open>The search\<close>

text \<open>
  A distribution as \<open>importlib.metadata\<close> shows it, and a requirement as \<open>packaging\<close> reads it: the marker
  is what \<open>evaluate\<close> answers for an extra.
\<close>

record dist =
  di_name :: string
  di_version :: string
  di_requires :: "string list option"

record req =
  rq_name :: string
  rq_extras :: "string list"
  rq_marker :: "(string \<Rightarrow> pyerr + bool) option"

type_synonym need = "string \<times> string"

definition spec_needs :: "req \<Rightarrow> need list" where
  "spec_needs r = (canonical (rq_name r), '''') # map (\<lambda>e. (canonical (rq_name r), canonical e)) (rq_extras r)"

definition spec_deps :: "(string \<Rightarrow> pyerr + req) \<Rightarrow> string \<Rightarrow> string \<Rightarrow> pyerr + need list" where
  "spec_deps read_req extra spec =
     bindE (read_req spec) (\<lambda>r.
     bindE (case rq_marker r of None \<Rightarrow> Inr True | Some evaluate \<Rightarrow> evaluate extra) (\<lambda>ok.
     Inr (if ok then spec_needs r else [])))"

primrec deps_of :: "(string \<Rightarrow> pyerr + req) \<Rightarrow> string \<Rightarrow> string list \<Rightarrow> pyerr + need list" where
  "deps_of read_req extra [] = Inr []"
| "deps_of read_req extra (spec # specs) =
     bindE (spec_deps read_req extra spec) (\<lambda>ds. bindE (deps_of read_req extra specs) (\<lambda>es. Inr (ds @ es)))"

text \<open>\<open>dists[name].requires or []\<close>.\<close>

definition dist_specs :: "dist \<Rightarrow> string list" where
  "dist_specs d = (case di_requires d of None \<Rightarrow> [] | Some specs \<Rightarrow> specs)"

definition dist_deps :: "(string \<Rightarrow> pyerr + req) \<Rightarrow> dist \<Rightarrow> string \<Rightarrow> pyerr + need list" where
  "dist_deps read_req d extra = deps_of read_req extra (dist_specs d)"

text \<open>All that any distribution can ask for; the search stays in it.\<close>

definition all_needs :: "(string \<Rightarrow> pyerr + req) \<Rightarrow> (string \<times> dist) list \<Rightarrow> need set" where
  "all_needs read_req dists =
     (\<Union>(n, d) \<in> set dists. \<Union>spec \<in> set (dist_specs d).
        case read_req spec of Inl _ \<Rightarrow> {} | Inr r \<Rightarrow> set (spec_needs r))"

lemma finite_all_needs: "finite (all_needs read_req dists)"
  by (auto simp: all_needs_def intro!: finite_UN_I split: sum.split)

lemma deps_in_all:
  "deps_of read_req extra specs = Inr ds \<Longrightarrow>
    set ds \<subseteq> (\<Union>spec \<in> set specs. case read_req spec of Inl _ \<Rightarrow> {} | Inr r \<Rightarrow> set (spec_needs r))"
  by (induction specs arbitrary: ds) (fastforce simp: bindE_Inr_iff spec_deps_def split: if_splits)+

lemma dist_deps_in_all:
  "map_of dists n = Some d \<Longrightarrow> dist_deps read_req d extra = Inr ds \<Longrightarrow> set ds \<subseteq> all_needs read_req dists"
  using deps_in_all map_of_SomeD unfolding dist_deps_def all_needs_def by fastforce

text \<open>An item new to \<open>seen\<close> leaves fewer of the possible ones; an old one leaves fewer to do.\<close>

lemma needs_shrink:
  assumes "finite U" and "x \<in> set todo" and "x \<notin> set seen" and "set todo' \<subseteq> set todo \<union> U"
  shows "card (U \<union> set todo' - set (x # seen)) < card (U \<union> set todo - set seen)"
proof (rule psubset_card_mono)
  show "finite (U \<union> set todo - set seen)" using assms(1) by simp
  show "U \<union> set todo' - set (x # seen) \<subset> U \<union> set todo - set seen" using assms(2-4) by auto
qed

function closure_loop :: "(string \<Rightarrow> pyerr + req) \<Rightarrow> (string \<times> dist) list \<Rightarrow>
    need list \<Rightarrow> need list \<Rightarrow> gate_error list \<Rightarrow> pyerr + need list \<times> gate_error list" where
  "closure_loop read_req dists seen todo errors =
     (if todo = [] then Inr (seen, errors)
      else
        (let (name, extra) = last todo in
         if (name, extra) \<in> set seen then closure_loop read_req dists seen (butlast todo) errors
         else
           (case map_of dists name of
              None \<Rightarrow> closure_loop read_req dists ((name, extra) # seen) (butlast todo) (errors @ [NotInstalled name])
            | Some d \<Rightarrow>
                (case dist_deps read_req d extra of
                   Inl e \<Rightarrow> Inl e
                 | Inr ds \<Rightarrow> closure_loop read_req dists ((name, extra) # seen) (butlast todo @ ds) errors))))"
  by pat_completeness auto

termination
proof (relation "measures [\<lambda>(rr, dists, seen, todo, errors). card (all_needs rr dists \<union> set todo - set seen),
    \<lambda>(rr, dists, seen, todo, errors). length todo]", goal_cases)
  case (2 rr dists seen todo errors x name extra)
  have "set (butlast todo) \<subseteq> set todo" by (auto dest: in_set_butlastD)
  then have "card (all_needs rr dists \<union> set (butlast todo) - set seen) \<le> card (all_needs rr dists \<union> set todo - set seen)"
    by (intro card_mono) (auto simp: finite_all_needs)
  with 2 show ?case by auto
next
  case (3 rr dists seen todo errors x name extra)
  then have "last todo \<in> set todo" "(name, extra) = last todo" by auto
  with 3 needs_shrink [OF finite_all_needs, of "(name, extra)" todo seen "butlast todo" rr dists] show ?case
    by (auto dest: in_set_butlastD)
next
  case (4 rr dists seen todo errors x name extra d ds)
  then have "last todo \<in> set todo" "(name, extra) = last todo" by auto
  moreover have "set (butlast todo @ ds) \<subseteq> set todo \<union> all_needs rr dists"
    using dist_deps_in_all [of dists name d rr extra ds] 4 by (auto dest: in_set_butlastD)
  ultimately show ?case
    using 4 needs_shrink [OF finite_all_needs, of "(name, extra)" todo seen "butlast todo @ ds" rr dists] by simp
qed simp

declare closure_loop.simps [simp del]


text \<open>The command; \<open>distributions\<close> is what \<open>importlib.metadata\<close> lists.\<close>

definition index_dists :: "dist list \<Rightarrow> (string \<times> dist) list \<times> gate_error list" where
  "index_dists ds = fold (\<lambda>d (dists, errors).
     let name = canonical (di_name d) in
     (AList.update name d dists, errors @ (if map_of dists name \<noteq> None then [InstalledTwice name] else []))) ds ([], [])"

definition unrequired :: "(string \<times> dist) list \<Rightarrow> need list \<Rightarrow> string list \<Rightarrow> gate_error list" where
  "unrequired dists seen roots =
     map (\<lambda>name. RequiredByNothing name (di_version (the (map_of dists name))) roots)
       (sort (filter (\<lambda>name. name \<notin> fst ` set seen) (map fst dists)))"

definition cmd_closure :: "(string \<Rightarrow> pyerr + req) \<Rightarrow> dist list \<Rightarrow> string list \<Rightarrow> pyerr + outcome" where
  "cmd_closure read_req distributions roots =
     (case index_dists distributions of (dists, errors) \<Rightarrow>
        bindE (closure_loop read_req dists [] (map (\<lambda>r. (canonical r, [])) roots) errors) (\<lambda>(seen, errors).
        Inr (report (errors @ unrequired dists seen roots)
          (''closure ok: all '' @ str_int (int (length dists)) @ '' distributions are required''))))"

section \<open>What the search finds\<close>

text \<open>What is needed, directly or through others, by the needs \<open>S\<close>.\<close>

inductive needed :: "(string \<Rightarrow> pyerr + req) \<Rightarrow> (string \<times> dist) list \<Rightarrow> need set \<Rightarrow> need \<Rightarrow> bool"
  for read_req dists S where
  start: "p \<in> S \<Longrightarrow> needed read_req dists S p"
| dep: "needed read_req dists S (n, x) \<Longrightarrow> map_of dists n = Some d \<Longrightarrow> dist_deps read_req d x = Inr ds \<Longrightarrow>
    p \<in> set ds \<Longrightarrow> needed read_req dists S p"

inductive_cases needed_cases: "needed read_req dists S p"

lemma needed_mono: "needed read_req dists S p \<Longrightarrow> (\<And>q. q \<in> S \<Longrightarrow> needed read_req dists T q) \<Longrightarrow> needed read_req dists T p"
  by (induction rule: needed.induct) (auto intro: needed.dep)

text \<open>A set that holds the start and, with each need, those of its distribution, holds all that is needed.\<close>

lemma needed_closed:
  assumes "needed read_req dists S p" and "S \<subseteq> T"
    and "\<And>n x d ds. (n, x) \<in> T \<Longrightarrow> map_of dists n = Some d \<Longrightarrow> dist_deps read_req d x = Inr ds \<Longrightarrow> set ds \<subseteq> T"
  shows "p \<in> T"
  using assms(1) by induction (use assms(2,3) in blast)+

text \<open>What a run of the loop adds to \<open>seen\<close>: it is needed by \<open>todo\<close>, and holds \<open>todo\<close> and the needs of each item.\<close>

definition found :: "(string \<Rightarrow> pyerr + req) \<Rightarrow> (string \<times> dist) list \<Rightarrow> need list \<Rightarrow> need list \<Rightarrow> need list \<Rightarrow> bool" where
  "found rr dists seen todo seen' \<longleftrightarrow> set seen \<union> set todo \<subseteq> set seen'
    \<and> (\<forall>p \<in> set seen'. p \<in> set seen \<or> needed rr dists (set todo) p)
    \<and> (\<forall>n x d. (n, x) \<in> set seen' - set seen \<longrightarrow> map_of dists n = Some d \<longrightarrow>
         (\<exists>ds. dist_deps rr d x = Inr ds \<and> set ds \<subseteq> set seen'))"

lemma found_Nil: "found rr dists seen [] seen"
  by (simp add: found_def)

lemma found_old:
  assumes "found rr dists seen rest seen'" and "p \<in> set seen"
  shows "found rr dists seen (rest @ [p]) seen'"
proof -
  have "needed rr dists (set (rest @ [p])) q" if "needed rr dists (set rest) q" for q
    using that by (rule needed_mono) (auto intro: needed.start)
  with assms show ?thesis unfolding found_def by auto
qed

lemma found_new:
  assumes "found rr dists ((n, x) # seen) todo seen'" and "set rest \<subseteq> set todo"
    and "\<And>q. q \<in> set todo \<Longrightarrow> needed rr dists (set (rest @ [(n, x)])) q"
    and "\<And>d. map_of dists n = Some d \<Longrightarrow> \<exists>ds. dist_deps rr d x = Inr ds \<and> set ds \<subseteq> set todo"
  shows "found rr dists seen (rest @ [(n, x)]) seen'"
proof -
  have "needed rr dists (set (rest @ [(n, x)])) q" if "needed rr dists (set todo) q" for q
    using that assms(3) by (rule needed_mono)
  moreover have "needed rr dists (set (rest @ [(n, x)])) (n, x)" by (auto intro: needed.start)
  moreover have "\<exists>ds. dist_deps rr d x = Inr ds \<and> set ds \<subseteq> set seen'" if "map_of dists n = Some d" for d
    using assms(4) [OF that] assms(1) unfolding found_def by (meson le_sup_iff order.trans)
  ultimately show ?thesis using assms(1,2) unfolding found_def by (auto 0 3)
qed

text \<open>The loop's equation, by the last item to do.\<close>

lemma loop_last:
  "closure_loop rr dists seen (rest @ [(n, x)]) es =
    (if (n, x) \<in> set seen then closure_loop rr dists seen rest es
     else (case map_of dists n of
        None \<Rightarrow> closure_loop rr dists ((n, x) # seen) rest (es @ [NotInstalled n])
      | Some d \<Rightarrow> (case dist_deps rr d x of
           Inl e \<Rightarrow> Inl e
         | Inr ds \<Rightarrow> closure_loop rr dists ((n, x) # seen) (rest @ ds) es)))"
  by (subst closure_loop.simps) (simp split: option.split sum.split)

lemma loop_Nil: "closure_loop rr dists seen [] es = Inr (seen, es)"
  by (subst closure_loop.simps) simp

lemma loop_induct [case_names Nil Old Missing Found]:
  assumes "\<And>seen es. P seen [] es"
    and "\<And>seen rest n x es. (n, x) \<in> set seen \<Longrightarrow> P seen rest es \<Longrightarrow> P seen (rest @ [(n, x)]) es"
    and "\<And>seen rest n x es. (n, x) \<notin> set seen \<Longrightarrow> map_of dists n = None \<Longrightarrow>
      P ((n, x) # seen) rest (es @ [NotInstalled n]) \<Longrightarrow> P seen (rest @ [(n, x)]) es"
    and "\<And>seen rest n x es d. (n, x) \<notin> set seen \<Longrightarrow> map_of dists n = Some d \<Longrightarrow>
      (\<And>ds. dist_deps rr d x = Inr ds \<Longrightarrow> P ((n, x) # seen) (rest @ ds) es) \<Longrightarrow> P seen (rest @ [(n, x)]) es"
  shows "P seen todo es"
proof -
  have "r = rr \<longrightarrow> ds = dists \<longrightarrow> P seen todo es" for r ds
  proof (induction r ds seen todo es rule: closure_loop.induct)
    case (1 r ds seen todo es)
    show ?case
    proof (intro impI)
      assume e: "r = rr" "ds = dists"
      show "P seen todo es"
      proof (cases todo rule: rev_cases)
        case Nil
        with assms(1) show ?thesis by simp
      next
        case (snoc rest p)
        obtain n x where p: "p = (n, x)" by fastforce
        have ne: "todo \<noteq> []" "(n, x) = last todo" "butlast todo = rest" using snoc p by simp_all
        note ih = "1.IH" [OF ne(1,2) refl, unfolded e ne(3)]
        consider "(n, x) \<in> set seen" | "(n, x) \<notin> set seen" "map_of dists n = None"
          | d where "(n, x) \<notin> set seen" "map_of dists n = Some d" by fastforce
        then show ?thesis
          unfolding snoc p by cases (use assms(2-4) ih in blast)+
      qed
    qed
  qed
  then show ?thesis by simp
qed

lemma loop_answers:
  "closure_loop rr dists seen todo es = Inr (seen', es') \<Longrightarrow> found rr dists seen todo seen'
    \<and> (es' = [] \<longleftrightarrow> es = [] \<and> (\<forall>n x. (n, x) \<in> set seen' \<longrightarrow> (n, x) \<in> set seen \<or> map_of dists n \<noteq> None))"
proof (induction seen todo es rule: loop_induct [where rr = rr and dists = dists])
  case (Nil seen es)
  then show ?case by (simp add: loop_Nil found_Nil)
next
  case (Old seen rest n x es)
  then show ?case by (simp add: loop_last found_old)
next
  case (Missing seen rest n x es)
  then have ih: "found rr dists ((n, x) # seen) rest seen'" "es' \<noteq> []" by (simp_all add: loop_last)
  have "found rr dists seen (rest @ [(n, x)]) seen'"
    by (rule found_new [OF ih(1)]) (use Missing(2) in \<open>auto intro: needed.start\<close>)
  moreover from this have "(n, x) \<in> set seen'" by (auto simp: found_def)
  ultimately show ?case using Missing(1,2) ih(2) by blast
next
  case (Found seen rest n x es d)
  then obtain ds where ds: "dist_deps rr d x = Inr ds"
    and run: "closure_loop rr dists ((n, x) # seen) (rest @ ds) es = Inr (seen', es')"
    by (auto simp: loop_last split: sum.splits)
  from Found(3) [OF ds run] have ih: "found rr dists ((n, x) # seen) (rest @ ds) seen'"
    "es' = [] \<longleftrightarrow> es = [] \<and> (\<forall>m y. (m, y) \<in> set seen' \<longrightarrow> (m, y) \<in> set ((n, x) # seen) \<or> map_of dists m \<noteq> None)"
    by blast+
  have "needed rr dists (set (rest @ [(n, x)])) q" if "q \<in> set (rest @ ds)" for q
  proof (cases "q \<in> set ds")
    case True
    then show ?thesis by (intro needed.dep [OF needed.start Found(2) ds]) auto
  next
    case False
    with that show ?thesis by (auto intro: needed.start)
  qed
  then have "found rr dists seen (rest @ [(n, x)]) seen'"
    by (intro found_new [OF ih(1)]) (use Found(2) ds in auto)
  with ih(2) Found(2) show ?case by auto
qed

lemma loop_raises:
  "closure_loop rr dists seen todo es = Inl e \<Longrightarrow>
    \<exists>n x d. needed rr dists (set todo) (n, x) \<and> map_of dists n = Some d \<and> dist_deps rr d x = Inl e"
proof (induction seen todo es rule: loop_induct [where rr = rr and dists = dists])
  case (Nil seen es)
  then show ?case by (simp add: loop_Nil)
next
  case (Old seen rest n x es)
  then obtain m y d where "needed rr dists (set rest) (m, y)" "map_of dists m = Some d" "dist_deps rr d y = Inl e"
    by (auto simp: loop_last)
  moreover from this(1) have "needed rr dists (set (rest @ [(n, x)])) (m, y)"
    by (rule needed_mono) (auto intro: needed.start)
  ultimately show ?case by blast
next
  case (Missing seen rest n x es)
  then obtain m y d where "needed rr dists (set rest) (m, y)" "map_of dists m = Some d" "dist_deps rr d y = Inl e"
    by (auto simp: loop_last)
  moreover from this(1) have "needed rr dists (set (rest @ [(n, x)])) (m, y)"
    by (rule needed_mono) (auto intro: needed.start)
  ultimately show ?case by blast
next
  case (Found seen rest n x es d)
  have here: "needed rr dists (set (rest @ [(n, x)])) (n, x)" by (auto intro: needed.start)
  show ?case
  proof (cases "dist_deps rr d x")
    case (Inl e')
    with Found(1,2,4) here show ?thesis by (auto simp: loop_last)
  next
    case (Inr ds)
    with Found obtain m y d' where n: "needed rr dists (set (rest @ ds)) (m, y)"
      and d: "map_of dists m = Some d'" "dist_deps rr d' y = Inl e"
      by (auto simp: loop_last)
    from n have "needed rr dists (set (rest @ [(n, x)])) (m, y)"
      by (rule needed_mono) (use needed.dep [OF here Found(2) Inr] in \<open>auto intro: needed.start\<close>)
    with d show ?thesis by blast
  qed
qed

section \<open>Properties\<close>

lemma index_dists_fst:
  "map_of (fst (index_dists ds)) = map_of (rev (map (\<lambda>d. (canonical (di_name d), d)) ds))"
  "distinct (map fst (fst (index_dists ds)))"
  "snd (index_dists ds) = [] \<longleftrightarrow> distinct (map (canonical \<circ> di_name) ds)"
proof -
  have "map_of (fst (index_dists ds)) = map_of (rev (map (\<lambda>d. (canonical (di_name d), d)) ds))
    \<and> distinct (map fst (fst (index_dists ds)))
    \<and> (snd (index_dists ds) = [] \<longleftrightarrow> distinct (map (canonical \<circ> di_name) ds))"
  proof (induction ds rule: rev_induct)
    case Nil
    show ?case by (simp add: index_dists_def)
  next
    case (snoc d ds)
    obtain dists errors where i: "index_dists ds = (dists, errors)" by fastforce
    have dom: "map_of dists k = None \<longleftrightarrow> k \<notin> set (map (canonical \<circ> di_name) ds)" for k
      using snoc i by (auto simp: map_of_eq_None_iff image_image)
    have "index_dists (ds @ [d]) = (AList.update (canonical (di_name d)) d dists,
        errors @ (if map_of dists (canonical (di_name d)) \<noteq> None then [InstalledTwice (canonical (di_name d))] else []))"
      using i by (simp add: index_dists_def Let_def)
    with snoc i dom show ?case by (auto simp: update_conv' distinct_update)
  qed
  then show "map_of (fst (index_dists ds)) = map_of (rev (map (\<lambda>d. (canonical (di_name d), d)) ds))"
    "distinct (map fst (fst (index_dists ds)))"
    "snd (index_dists ds) = [] \<longleftrightarrow> distinct (map (canonical \<circ> di_name) ds)" by blast+
qed

text \<open>What the search has seen when it is done is what is needed, and what it complains of is the rest.\<close>

lemma found_needed:
  assumes "found read_req dists [] todo seen"
  shows "p \<in> set seen \<longleftrightarrow> needed read_req dists (set todo) p"
proof
  assume "p \<in> set seen"
  with assms show "needed read_req dists (set todo) p" unfolding found_def by auto
next
  assume "needed read_req dists (set todo) p"
  then show "p \<in> set seen"
  proof (rule needed_closed)
    show "set todo \<subseteq> set seen" using assms unfolding found_def by simp
    fix n x d ds
    assume "(n, x) \<in> set seen" "map_of dists n = Some d" "dist_deps read_req d x = Inr ds"
    with assms show "set ds \<subseteq> set seen" unfolding found_def by fastforce
  qed
qed

lemma unrequired_Nil: "unrequired dists seen roots = [] \<longleftrightarrow> fst ` set dists \<subseteq> fst ` set seen"
proof -
  have "sort xs = [] \<longleftrightarrow> xs = []" for xs :: "string list" by (metis length_0_conv length_sort)
  then have "unrequired dists seen roots = [] \<longleftrightarrow> filter (\<lambda>name. name \<notin> fst ` set seen) (map fst dists) = []"
    unfolding unrequired_def map_is_Nil_conv by (rule meta_spec)
  then show ?thesis by (auto simp: filter_empty_conv)
qed

text \<open>
  C11: \<open>closure\<close> passes exactly if the environment is the closure of its roots: no distribution is installed
  twice, everything the roots need, directly or through others, is installed, and everything installed is
  needed. The search always ends; it raises only where a requirement of a needed distribution cannot be
  read.
\<close>

theorem closure_exact:
  "case cmd_closure read_req ds roots of
     Inl e \<Rightarrow> \<exists>n x d. needed read_req (fst (index_dists ds)) {(canonical r, []) | r. r \<in> set roots} (n, x)
       \<and> map_of (fst (index_dists ds)) n = Some d \<and> dist_deps read_req d x = Inl e
   | Inr oc \<Rightarrow> oc_code oc = 0 \<longleftrightarrow>
       distinct (map (canonical \<circ> di_name) ds) \<and>
       (canonical \<circ> di_name) ` set ds
         = {n. \<exists>x. needed read_req (fst (index_dists ds)) {(canonical r, []) | r. r \<in> set roots} (n, x)}"
proof -
  obtain dists es where i: "index_dists ds = (dists, es)" by fastforce
  let ?todo = "map (\<lambda>r. (canonical r, [])) roots"
  let ?S = "{(canonical r, []) | r. r \<in> set roots}"
  have S: "set ?todo = ?S" by auto
  have dom: "fst ` set dists = (canonical \<circ> di_name) ` set ds"
    using index_dists_fst(1) [of ds] i dom_map_of_conv_image_fst [of dists]
      dom_map_of_conv_image_fst [of "rev (map (\<lambda>d. (canonical (di_name d), d)) ds)"] by (simp add: image_image comp_def)
  show ?thesis
  proof (cases "closure_loop read_req dists [] ?todo es")
    case (Inl e)
    from loop_raises [OF this] Inl i show ?thesis unfolding S by (simp add: cmd_closure_def)
  next
    case (Inr q)
    obtain seen es' where q: "q = (seen, es')" by fastforce
    from loop_answers [OF Inr [unfolded q]] have f: "found read_req dists [] ?todo seen"
      and e: "es' = [] \<longleftrightarrow> es = [] \<and> (\<forall>n x. (n, x) \<in> set seen \<longrightarrow> map_of dists n \<noteq> None)" by auto
    have seen: "p \<in> set seen \<longleftrightarrow> needed read_req dists ?S p" for p using found_needed [OF f] unfolding S .
    have "unrequired dists seen roots = [] \<longleftrightarrow> fst ` set dists \<subseteq> fst ` set seen" by (rule unrequired_Nil)
    moreover have "(\<forall>n x. (n, x) \<in> set seen \<longrightarrow> map_of dists n \<noteq> None) \<longleftrightarrow> fst ` set seen \<subseteq> fst ` set dists"
      by (force simp: map_of_eq_None_iff)
    moreover have "fst ` set seen = {n. \<exists>x. needed read_req dists ?S (n, x)}"
      unfolding seen [symmetric] by force
    ultimately have "es' @ unrequired dists seen roots = [] \<longleftrightarrow>
        distinct (map (canonical \<circ> di_name) ds) \<and> fst ` set dists = {n. \<exists>x. needed read_req dists ?S (n, x)}"
      using e index_dists_fst(3) [of ds] i by auto
    with Inr q i dom show ?thesis by (simp add: cmd_closure_def)
  qed
qed

end
