(* ===== verification/LockGate.thy ===== *)
theory LockGate
  imports LockParse LockClosure World
begin

text \<open>
  The other commands of \<open>scripts/lockfile_gate.py\<close>: \<open>lint\<close>, \<open>freeze\<close>, \<open>only\<close> and \<open>pypi\<close>. \<open>files\<close> gives the bytes
  of a file, \<open>None\<close> if it cannot be read; such an error ends the program. The network of \<open>pypi\<close> is a
  parameter with a state; its JSON documents are \<open>pyval\<close>s.
\<close>

type_synonym files = "string \<Rightarrow> string option"

definition read_bytes :: "files \<Rightarrow> string \<Rightarrow> pyerr + string" where
  "read_bytes files path = (case files path of None \<Rightarrow> Inl OSErr | Some data \<Rightarrow> Inr data)"

definition parse_file :: "files \<Rightarrow> string \<Rightarrow> pyerr + pin list \<times> gate_error list" where
  "parse_file files path = bindE (read_bytes files path) (\<lambda>data. Inr (parse path data))"

section \<open>lint\<close>

definition count_text :: "string \<times> pin list \<Rightarrow> string" where
  "count_text = (\<lambda>(path, pins). path @ '': '' @ str_int (int (length pins)) @ '' pins, '' @
     str_int (int (sum_list (map (length \<circ> p_hashes) pins))) @ '' hashes'')"

primrec lint_locks :: "files \<Rightarrow> string list \<Rightarrow> gate_error list \<Rightarrow> string list \<Rightarrow> pyerr + gate_error list \<times> string list" where
  "lint_locks files [] errors counts = Inr (errors, counts)"
| "lint_locks files (path # paths) errors counts =
     bindE (parse_file files path) (\<lambda>(pins, errs).
       lint_locks files paths (errors @ errs) (counts @ [count_text (path, pins)]))"

definition cmd_lint :: "files \<Rightarrow> string list \<Rightarrow> pyerr + outcome" where
  "cmd_lint files locks =
     bindE (lint_locks files locks [] []) (\<lambda>(errors, counts). Inr (report errors (''lint ok: '' @ join ''; '' counts)))"

section \<open>freeze\<close>

type_synonym versions = "(string \<times> string) list"

definition want_pin :: "string \<Rightarrow> pin \<Rightarrow> gate_error list \<times> versions \<Rightarrow> gate_error list \<times> versions" where
  "want_pin path p = (\<lambda>(errors, want).
     (errors @ (if map_of want (p_name p) \<noteq> None then [InTwoLocks path (p_name p)] else []),
      AList.update (p_name p) (p_version p) want))"

primrec want_locks :: "files \<Rightarrow> string list \<Rightarrow> gate_error list \<times> versions \<Rightarrow> pyerr + gate_error list \<times> versions" where
  "want_locks files [] st = Inr st"
| "want_locks files (path # paths) st =
     bindE (parse_file files path) (\<lambda>(pins, errs).
       want_locks files paths (fold (want_pin path) pins (fst st @ errs, snd st)))"

text \<open>\<open>pop(name, None) is None\<close>, with the error that is recorded then.\<close>

definition pop_name :: "(string \<Rightarrow> gate_error) \<Rightarrow> string \<Rightarrow> gate_error list \<times> versions \<Rightarrow> gate_error list \<times> versions" where
  "pop_name missing name = (\<lambda>(errors, vs).
     case map_of vs name of None \<Rightarrow> (errors @ [missing name], vs) | Some _ \<Rightarrow> (errors, AList.delete name vs))"

definition have_row :: "string \<Rightarrow> nat \<times> string option \<Rightarrow> gate_error list \<times> versions \<Rightarrow> gate_error list \<times> versions" where
  "have_row path row st =
     (case (row, st) of ((n, line), (errors, got)) \<Rightarrow>
      case line of
        None \<Rightarrow> st
      | Some l \<Rightarrow>
          (case re_fullmatch FREEZE_PIN_re l of
             None \<Rightarrow> (errors @ [NotFreezeLine path n l], got)
           | Some m \<Rightarrow>
               (let name = canonical (the (group_of 1 m)) in
                (errors @ (if map_of got name \<noteq> None then [FreezeTwice path n name] else []),
                 AList.update name (the (group_of 2 m)) got))))"

definition compare_versions :: "versions \<Rightarrow> versions \<Rightarrow> gate_error list" where
  "compare_versions want got =
     (let version = (\<lambda>vs name. the (map_of vs name)) in
      map (\<lambda>name. NotInLocks name (version got name))
        (sort (filter (\<lambda>name. map_of want name = None) (map fst got)))
      @ map (\<lambda>name. NotInVenv name (version want name))
        (sort (filter (\<lambda>name. map_of got name = None) (map fst want)))
      @ map (\<lambda>name. VersionDiffers name (version got name) (version want name))
        (sort (filter (\<lambda>name. map_of got name \<noteq> None \<and> version want name \<noteq> version got name) (map fst want))))"

definition cmd_freeze :: "files \<Rightarrow> string list \<Rightarrow> string list \<Rightarrow> string \<Rightarrow> string list \<Rightarrow> pyerr + outcome" where
  "cmd_freeze files own dropped freeze locks =
     bindE (want_locks files locks ([], [])) (\<lambda>st.
     case fold (\<lambda>name. pop_name DropNotPinned (canonical name)) dropped st of (errors, want) \<Rightarrow>
     bindE (read_bytes files freeze) (\<lambda>data.
     case ascii_lines freeze data of (rows, errs) \<Rightarrow>
     case fold (have_row freeze) rows (errors @ errs, []) of (errors, got) \<Rightarrow>
     case fold (\<lambda>name. pop_name OwnMissing (canonical name)) own (errors, got) of (errors, got) \<Rightarrow>
     Inr (report (errors @ compare_versions want got)
       (''freeze ok: the venv holds exactly the '' @ str_int (int (length want)) @ '' locked pins''))))"

section \<open>only\<close>

definition pin_str :: "pin \<Rightarrow> string" where
  "pin_str p = p_name p @ ''=='' @ p_version p"

text \<open>\<open>read_text(encoding="ascii")\<close>.\<close>

definition read_ascii :: "files \<Rightarrow> string \<Rightarrow> pyerr + string" where
  "read_ascii files path = bindE (read_bytes files path) (\<lambda>data.
     if list_all (\<lambda>c. c < CHR 0x80) data then Inr (universal_newlines data) else Inl UnicodeErr)"

definition requirement_lines :: "string \<Rightarrow> string list" where
  "requirement_lines text =
     filter (\<lambda>r. r \<noteq> []) (map (\<lambda>line. strip (fst (partition_on (CHR ''#'') line))) (splitlines text))"

definition cmd_only :: "files \<Rightarrow> string \<Rightarrow> string \<Rightarrow> string option \<Rightarrow> pyerr + outcome" where
  "cmd_only files name lock inp =
     bindE (parse_file files lock) (\<lambda>(pins, errs).
     let errors = errs @ (if map p_name pins \<noteq> [canonical name]
                          then [NotOnlyPin lock name (map p_name pins)] else []) in
     bindE (case (inp, pins) of
              (Some (i # is), [p]) \<Rightarrow>
                bindE (read_ascii files (i # is)) (\<lambda>text.
                let reqs = requirement_lines text in
                Inr (if reqs \<noteq> [canonical name @ ''=='' @ p_version p]
                     then [InputAsks lock (p_name p) (p_version p) (i # is) reqs] else []))
            | _ \<Rightarrow> Inr []) (\<lambda>more_errors.
     Inr (report (errors @ more_errors)
       (''only ok: '' @ lock @ '' holds exactly '' @ name @ ''=='' @
          (case pins of [] \<Rightarrow> ''?'' | p # _ \<Rightarrow> p_version p)))))"

section \<open>pypi\<close>

text \<open>
  How \<open>urlopen\<close> with \<open>json.load\<close> ends but with a document: an HTTP status, no reply (\<open>URLError\<close> or
  \<open>TimeoutError\<close>), another \<open>OSError\<close>, or another exception.
\<close>

datatype fetch_error = HttpError int | NoReply | OsError | OtherError pyerr

type_synonym 'n net = "string \<Rightarrow> 'n \<Rightarrow> (fetch_error + pyval) \<times> 'n"

text \<open>\<open>fetch_json\<close>: the attempts 1, 2, 3. The end of the list is the unreachable end of the loop.\<close>

primrec fetch_attempts :: "'n net \<Rightarrow> string \<Rightarrow> nat list \<Rightarrow> 'n \<Rightarrow> (fetch_error + pyval) \<times> 'n" where
  "fetch_attempts urlopen url [] net = (Inl (OtherError OtherErr), net)"
| "fetch_attempts urlopen url (attempt # attempts) net =
     (case urlopen url net of
        (Inr doc, net) \<Rightarrow> (Inr doc, net)
      | (Inl (HttpError code), net) \<Rightarrow>
          if code = 404 \<or> attempt = 3 then (Inl (HttpError code), net) else fetch_attempts urlopen url attempts net
      | (Inl NoReply, net) \<Rightarrow>
          if attempt = 3 then (Inl NoReply, net) else fetch_attempts urlopen url attempts net
      | (Inl e, net) \<Rightarrow> (Inl e, net))"

definition fetch_json :: "'n net \<Rightarrow> string \<Rightarrow> 'n \<Rightarrow> (fetch_error + pyval) \<times> 'n" where
  "fetch_json urlopen url net = fetch_attempts urlopen url [1, 2, 3] net"

text \<open>\<open>v[k]\<close> for a text \<open>k\<close>: a \<open>KeyError\<close>, or a \<open>TypeError\<close> if \<open>v\<close> is no mapping.\<close>

definition item_of :: "pyval \<Rightarrow> string \<Rightarrow> fetch_error + pyval" where
  "item_of v k =
     (case v of
        PDict d \<Rightarrow> (case dget d k of None \<Rightarrow> Inl (OtherError (KeyErr k)) | Some w \<Rightarrow> Inr w)
      | _ \<Rightarrow> Inl (OtherError OtherErr))"

text \<open>What a \<open>for\<close> loop over a JSON value runs over.\<close>

definition iter_of :: "pyval \<Rightarrow> fetch_error + pyval list" where
  "iter_of v =
     (case v of
        PList vs \<Rightarrow> Inr vs
      | PDict d \<Rightarrow> Inr (map fst d)
      | PStr s \<Rightarrow> Inr (map (\<lambda>c. PStr [c]) s)
      | _ \<Rightarrow> Inl (OtherError OtherErr))"

definition hashable :: "pyval \<Rightarrow> bool" where
  "hashable v = (case v of PList _ \<Rightarrow> False | PDict _ \<Rightarrow> False | _ \<Rightarrow> True)"

primrec sha_set :: "pyval list \<Rightarrow> fetch_error + pyval list" where
  "sha_set [] = Inr []"
| "sha_set (u # us) =
     bindE (item_of u ''digests'') (\<lambda>d. bindE (item_of d ''sha256'') (\<lambda>h.
     if \<not> hashable h then Inl (OtherError OtherErr) else bindE (sha_set us) (\<lambda>hs. Inr (h # hs))))"

definition release_url :: "pin \<Rightarrow> string" where
  "release_url p = ''https://pypi.org/pypi/'' @ p_name p @ ''/'' @ p_version p @ ''/json''"

definition published_in :: "pin \<Rightarrow> pyval \<Rightarrow> fetch_error + pyval list" where
  "published_in p data =
     bindE (item_of data ''info'') (\<lambda>info. bindE (item_of info ''version'') (\<lambda>v.
     if v \<noteq> PStr (p_version p) then Inl (OtherError ValueErr)
     else bindE (item_of data ''urls'') (\<lambda>urls. bindE (iter_of urls) sha_set)))"

definition published :: "'n net \<Rightarrow> pin \<Rightarrow> 'n \<Rightarrow> (fetch_error + pyval list) \<times> 'n" where
  "published urlopen p net =
     (case fetch_json urlopen (release_url p) net of (r, net) \<Rightarrow> (bindE r (published_in p), net))"

text \<open>The loops: the state is the errors and the number of hashes checked; \<open>Inl\<close> is an early return.\<close>

definition check_hash :: "string \<Rightarrow> pin \<Rightarrow> pyval list \<Rightarrow> string \<Rightarrow> gate_error list \<times> nat \<Rightarrow> gate_error list \<times> nat" where
  "check_hash path p known h = (\<lambda>(errors, checked).
     if PStr h \<in> set known then (errors, Suc checked)
     else (errors @ [NotPublished path (p_line p) (p_name p) (p_version p) h], checked))"

primrec pypi_pins :: "'n net \<Rightarrow> string \<Rightarrow> pin list \<Rightarrow> gate_error list \<times> nat \<Rightarrow> 'n \<Rightarrow>
    (outcome + gate_error list \<times> nat) \<times> 'n" where
  "pypi_pins urlopen path [] st net = (Inr st, net)"
| "pypi_pins urlopen path (p # ps) st net =
     (case published urlopen p net of
        (Inr known, net) \<Rightarrow> pypi_pins urlopen path ps (fold (check_hash path p known) (p_hashes p) st) net
      | (Inl e, net) \<Rightarrow>
          (Inl (case e of
             HttpError code \<Rightarrow> report (fst st @ [NoPyPI path (p_name p) (p_version p) OSErr]) []
           | OtherError err \<Rightarrow> report (fst st @ [NoPyPI path (p_name p) (p_version p) err]) []
           | _ \<Rightarrow> report (fst st @ [NoAnswer path (p_name p) (p_version p) OSErr]) [] \<lparr> oc_code := 3 \<rparr>), net))"

primrec pypi_locks :: "'n net \<Rightarrow> files \<Rightarrow> string list \<Rightarrow> gate_error list \<times> nat \<Rightarrow> 'n \<Rightarrow> pyerr + outcome" where
  "pypi_locks urlopen files [] st net =
     Inr (report (fst st) (''pypi ok: '' @ str_int (int (snd st)) @ '' hashes are files PyPI publishes''))"
| "pypi_locks urlopen files (path # paths) st net =
     bindE (parse_file files path) (\<lambda>(pins, errs).
       if errs \<noteq> [] then pypi_locks urlopen files paths (fst st @ errs, snd st) net
       else (case pypi_pins urlopen path pins st net of
               (Inl oc, net) \<Rightarrow> Inr oc
             | (Inr st, net) \<Rightarrow> pypi_locks urlopen files paths st net))"

definition cmd_pypi :: "'n net \<Rightarrow> files \<Rightarrow> string list \<Rightarrow> 'n \<Rightarrow> pyerr + outcome" where
  "cmd_pypi urlopen files locks net = pypi_locks urlopen files locks ([], 0) net"

end
