(* ===== verification/LockProps.thy ===== *)
theory LockProps
  imports LockGate
begin

text \<open>
  What \<open>freeze\<close>, \<open>only\<close> and \<open>pypi\<close> establish where they pass.
\<close>

section \<open>Reading the locks\<close>

definition clean_lock :: "files \<Rightarrow> string \<Rightarrow> pin list \<Rightarrow> bool" where
  "clean_lock files path pins \<longleftrightarrow> (\<exists>data. files path = Some data \<and> parse path data = (pins, []))"

abbreviation pin_versions :: "pin list \<Rightarrow> versions" where
  "pin_versions ps \<equiv> map (\<lambda>p. (p_name p, p_version p)) ps"

lemma parse_file_Inr: "parse_file files path = Inr r \<longleftrightarrow> (\<exists>data. files path = Some data \<and> parse path data = r)"
  by (auto simp: parse_file_def read_bytes_def split: option.splits)

lemma clean_lock_parse: "parse_file files path = Inr (pins, errs) \<Longrightarrow> clean_lock files path qs \<longleftrightarrow> errs = [] \<and> qs = pins"
  by (auto simp: parse_file_Inr clean_lock_def)

lemma want_pins:
  "fold (want_pin path) pins (es, want) = (es', want') \<Longrightarrow>
    (es' = [] \<longleftrightarrow> es = [] \<and> distinct (map p_name pins) \<and> set (map p_name pins) \<inter> dom (map_of want) = {})
    \<and> map_of want' = map_of want ++ map_of (rev (pin_versions pins))"
proof (induction pins arbitrary: es want)
  case (Cons p pins)
  let ?es = "es @ (if map_of want (p_name p) \<noteq> None then [InTwoLocks path (p_name p)] else [])"
  let ?want = "AList.update (p_name p) (p_version p) want"
  have step: "want_pin path p (es, want) = (?es, ?want)" by (simp add: want_pin_def)
  have "fold (want_pin path) pins (?es, ?want) = (es', want')" using Cons.prems unfolding fold_simps step .
  note ih = Cons.IH [OF this]
  have d: "set (map p_name pins) \<inter> dom (map_of ?want) = {}
      \<longleftrightarrow> p_name p \<notin> set (map p_name pins) \<and> set (map p_name pins) \<inter> dom (map_of want) = {}"
    by (auto simp: update_conv')
  have "es' = [] \<longleftrightarrow> es = [] \<and> distinct (map p_name (p # pins)) \<and> set (map p_name (p # pins)) \<inter> dom (map_of want) = {}"
    using ih unfolding d by auto
  moreover have "map_of want' = map_of want ++ map_of (rev (pin_versions (p # pins)))"
    using ih by (simp add: update_conv' map_add_upd_left map_add_def fun_eq_iff split: option.split)
  ultimately show ?case by blast
qed auto

lemma want_locks:
  "want_locks files paths (es, want) = Inr (es', want') \<Longrightarrow>
    (es' = [] \<longleftrightarrow> es = [] \<and> (\<exists>pinss. list_all2 (clean_lock files) paths pinss \<and> distinct (map p_name (concat pinss))
        \<and> set (map p_name (concat pinss)) \<inter> dom (map_of want) = {}))
    \<and> (\<forall>pinss. list_all2 (clean_lock files) paths pinss \<longrightarrow>
        map_of want' = map_of want ++ map_of (rev (pin_versions (concat pinss))))"
proof (induction paths arbitrary: es want)
  case (Cons path paths)
  then obtain pins errs where p: "parse_file files path = Inr (pins, errs)"
    and run: "want_locks files paths (fold (want_pin path) pins (es @ errs, want)) = Inr (es', want')"
    by (auto simp: bindE_Inr_iff)
  obtain es1 want1 where f: "fold (want_pin path) pins (es @ errs, want) = (es1, want1)" by fastforce
  note pins = want_pins [OF f] and ih = Cons.IH [OF run [unfolded f]]
  have clean: "clean_lock files path qs \<longleftrightarrow> errs = [] \<and> qs = pins" for qs using p by (rule clean_lock_parse)
  have dom: "dom (map_of want1) = dom (map_of want) \<union> set (map p_name pins)"
    using pins by (auto simp: dom_map_of_conv_image_fst image_image)
  have "es' = [] \<longleftrightarrow> es = [] \<and> errs = [] \<and> distinct (map p_name pins) \<and> set (map p_name pins) \<inter> dom (map_of want) = {}
      \<and> (\<exists>pinss. list_all2 (clean_lock files) paths pinss \<and> distinct (map p_name (concat pinss))
        \<and> set (map p_name (concat pinss)) \<inter> dom (map_of want1) = {})"
    using ih pins by auto
  also have "\<dots> \<longleftrightarrow> es = [] \<and> (\<exists>pinss. list_all2 (clean_lock files) (path # paths) pinss
      \<and> distinct (map p_name (concat pinss)) \<and> set (map p_name (concat pinss)) \<inter> dom (map_of want) = {})"
  proof -
    have first: "(\<exists>pinss. list_all2 (clean_lock files) (path # paths) pinss \<and> Q pinss)
        \<longleftrightarrow> errs = [] \<and> (\<exists>qss. list_all2 (clean_lock files) paths qss \<and> Q (pins # qss))" for Q
      unfolding list_all2_Cons1 clean by blast
    have split: "distinct (map p_name (concat (pins # qss))) \<and> set (map p_name (concat (pins # qss))) \<inter> D = {}
        \<longleftrightarrow> (distinct (map p_name pins) \<and> set (map p_name pins) \<inter> D = {}) \<and> distinct (map p_name (concat qss))
          \<and> set (map p_name (concat qss)) \<inter> (D \<union> set (map p_name pins)) = {}" for qss D
      unfolding concat.simps map_append distinct_append set_append by blast
    show ?thesis unfolding first dom split by blast
  qed
  finally have "es' = [] \<longleftrightarrow> es = [] \<and> (\<exists>pinss. list_all2 (clean_lock files) (path # paths) pinss
      \<and> distinct (map p_name (concat pinss)) \<and> set (map p_name (concat pinss)) \<inter> dom (map_of want) = {})" .
  moreover have "map_of want' = map_of want ++ map_of (rev (pin_versions (concat pinss)))"
    if "list_all2 (clean_lock files) (path # paths) pinss" for pinss
  proof -
    from that clean obtain qss where "pinss = pins # qss" "list_all2 (clean_lock files) paths qss"
      by (auto simp: list_all2_Cons1)
    with ih pins show ?thesis by (simp add: map_add_assoc)
  qed
  ultimately show ?case by blast
qed auto

section \<open>Popping names\<close>

lemma pop_names:
  "fold (\<lambda>name. pop_name missing (canonical name)) names (es, vs) = (es', vs') \<Longrightarrow>
    (es' = [] \<longleftrightarrow> es = [] \<and> distinct (map canonical names) \<and> set (map canonical names) \<subseteq> dom (map_of vs))
    \<and> (es' = [] \<longrightarrow> map_of vs' = map_of vs |` (- set (map canonical names)))"
proof (induction names arbitrary: es vs)
  case (Cons name names)
  let ?n = "canonical name"
  show ?case
  proof (cases "map_of vs ?n")
    case None
    then have "fold (\<lambda>name. pop_name missing (canonical name)) names (es @ [missing ?n], vs) = (es', vs')"
      using Cons.prems by (simp add: pop_name_def)
    from Cons.IH [OF this] None show ?thesis by auto
  next
    case (Some v)
    then have "fold (\<lambda>name. pop_name missing (canonical name)) names (es, AList.delete ?n vs) = (es', vs')"
      using Cons.prems by (simp add: pop_name_def)
    note ih = Cons.IH [OF this]
    have d: "set (map canonical names) \<subseteq> dom (map_of (AList.delete ?n vs))
        \<longleftrightarrow> ?n \<notin> set (map canonical names) \<and> set (map canonical names) \<subseteq> dom (map_of vs)"
    proof -
      have "dom (map_of (AList.delete ?n vs)) = dom (map_of vs) - {?n}" by (simp add: delete_conv')
      then show ?thesis by blast
    qed
    have "es' = [] \<longleftrightarrow> es = [] \<and> distinct (map canonical (name # names)) \<and> set (map canonical (name # names)) \<subseteq> dom (map_of vs)"
      using ih Some unfolding d by auto
    moreover have "map_of vs' = map_of vs |` (- set (map canonical (name # names)))" if "es' = []"
      using ih that by (auto simp: delete_conv' restrict_map_def fun_eq_iff)
    ultimately show ?thesis by blast
  qed
qed (auto simp: restrict_map_def)

section \<open>The rows of pip freeze\<close>

abbreviation row_texts :: "(string \<times> string) list \<Rightarrow> string list" where
  "row_texts rows \<equiv> map (\<lambda>(n, v). pin_text n v) rows"

text \<open>The lines are the given rows of name and version.\<close>

definition rows_read :: "string list \<Rightarrow> (string \<times> string) list \<Rightarrow> bool" where
  "rows_read ls rows \<longleftrightarrow> ls = row_texts rows \<and> list_all (\<lambda>(n, v). freeze_name n \<and> pin_version v) rows"

definition canonical_rows :: "(string \<times> string) list \<Rightarrow> versions" where
  "canonical_rows rows = map (\<lambda>(n, v). (canonical n, v)) rows"

lemma canonical_rows_simps [simp]:
  "canonical_rows [] = []" "canonical_rows ((n, v) # rows) = (canonical n, v) # canonical_rows rows"
  by (simp_all add: canonical_rows_def)

lemma rows_read_Nil: "rows_read [] rows \<longleftrightarrow> rows = []"
  by (auto simp: rows_read_def)

lemma rows_read_Cons:
  assumes "l = pin_text n v" and "freeze_name n" and "pin_version v"
  shows "rows_read (l # ls) rows \<longleftrightarrow> (\<exists>rs. rows = (n, v) # rs \<and> rows_read ls rs)"
  using assms by (auto simp: rows_read_def Cons_eq_map_conv pin_text_inj)

lemma freeze_printable: "freeze_name n \<Longrightarrow> pin_version v \<Longrightarrow> printable (pin_text n v)"
proof -
  assume n: "freeze_name n" and v: "pin_version v"
  have "printable n" using n unfolding printable_def freeze_name_def
    by (auto simp: name_char_def name_sep_def is_digit_def in_range_def less_eq_char_def list_all_iff Let_def)
  with v show ?thesis by (auto simp: pin_text_def pin_version_def printable_sets in_range_def less_eq_char_def)
qed

lemma have_row_bad:
  "re_fullmatch FREEZE_PIN_re l = None \<Longrightarrow> have_row path (k, Some l) (es, got) = (es @ [NotFreezeLine path k l], got)"
  by (simp add: have_row_def)

lemma have_row_pin:
  "re_fullmatch FREEZE_PIN_re l = Some ([], [(2, v), (1, n)]) \<Longrightarrow> have_row path (k, Some l) (es, got) =
    (es @ (if map_of got (canonical n) \<noteq> None then [FreezeTwice path k (canonical n)] else []),
     AList.update (canonical n) v got)"
  by (simp add: have_row_def group_of_def Let_def)

lemma have_rows:
  "fold (have_row path) (enumerate k (map Some ls)) (es, got) = (es', got') \<Longrightarrow>
    (es' = [] \<longleftrightarrow> es = [] \<and> (\<exists>rows. rows_read ls rows \<and> distinct (map fst (canonical_rows rows))
       \<and> set (map fst (canonical_rows rows)) \<inter> dom (map_of got) = {}))
    \<and> (\<forall>rows. rows_read ls rows \<longrightarrow> map_of got' = map_of got ++ map_of (rev (canonical_rows rows)))"
proof (induction ls arbitrary: k es got)
  case Nil
  then show ?case by (auto simp: rows_read_Nil)
next
  case (Cons l ls)
  show ?case
  proof (cases "re_fullmatch FREEZE_PIN_re l")
    case None
    then have "\<not> (\<exists>n v. l = pin_text n v \<and> freeze_name n \<and> pin_version v)"
      using FREEZE_match by (metis option.distinct(1))
    then have bad: "\<not> rows_read (l # ls) rows" for rows by (auto simp: rows_read_def Cons_eq_map_conv)
    have "fold (have_row path) (enumerate (Suc k) (map Some ls)) (es @ [NotFreezeLine path k l], got) = (es', got')"
      using Cons.prems by (simp add: have_row_bad [OF None])
    from Cons.IH [OF this] bad show ?thesis by simp
  next
    case (Some m)
    then obtain n v where l: "l = pin_text n v" "freeze_name n" "pin_version v" and m: "m = ([], [(2, v), (1, n)])"
      by (auto simp: FREEZE_match)
    let ?n = "canonical n" and ?keys = "\<lambda>rows. set (map fst (canonical_rows rows))"
    let ?es = "es @ (if map_of got ?n \<noteq> None then [FreezeTwice path k ?n] else [])"
    have "fold (have_row path) (enumerate (Suc k) (map Some ls)) (?es, AList.update ?n v got) = (es', got')"
      using Cons.prems by (simp add: have_row_pin [OF Some [unfolded m]])
    note ih = Cons.IH [OF this]
    have d: "?keys rows \<inter> dom (map_of (AList.update ?n v got)) = {} \<longleftrightarrow> ?n \<notin> ?keys rows \<and> ?keys rows \<inter> dom (map_of got) = {}"
      for rows by (auto simp: update_conv')
    have "es' = [] \<longleftrightarrow> es = [] \<and> map_of got ?n = None \<and> (\<exists>rs. rows_read ls rs \<and> distinct (map fst (canonical_rows rs))
        \<and> ?n \<notin> ?keys rs \<and> ?keys rs \<inter> dom (map_of got) = {})"
      using ih unfolding d by auto
    also have "\<dots> \<longleftrightarrow> es = [] \<and> (\<exists>rs. rows_read ls rs \<and> distinct (map fst (canonical_rows ((n, v) # rs)))
        \<and> ?keys ((n, v) # rs) \<inter> dom (map_of got) = {})"
      by auto
    also have "\<dots> \<longleftrightarrow> es = [] \<and> (\<exists>rows. rows_read (l # ls) rows \<and> distinct (map fst (canonical_rows rows))
        \<and> ?keys rows \<inter> dom (map_of got) = {})"
      unfolding rows_read_Cons [OF l] by blast
    finally have "es' = [] \<longleftrightarrow> es = [] \<and> (\<exists>rows. rows_read (l # ls) rows \<and> distinct (map fst (canonical_rows rows))
        \<and> ?keys rows \<inter> dom (map_of got) = {})" .
    moreover have "map_of got' = map_of got ++ map_of (rev (canonical_rows rows))" if "rows_read (l # ls) rows" for rows
    proof -
      from that obtain rs where "rows = (n, v) # rs" "rows_read ls rs" unfolding rows_read_Cons [OF l] by blast
      with ih show ?thesis by (simp add: update_conv' map_add_def fun_eq_iff split: option.split)
    qed
    ultimately show ?thesis by blast
  qed
qed

lemma compare_Nil: "compare_versions want got = [] \<longleftrightarrow> map_of want = map_of got"
proof -
  have srt: "sort xs = [] \<longleftrightarrow> xs = []" for xs :: "string list" by (metis length_0_conv length_sort)
  have "compare_versions want got = [] \<longleftrightarrow>
      (\<forall>n \<in> fst ` set got. map_of want n \<noteq> None) \<and> (\<forall>n \<in> fst ` set want. map_of got n \<noteq> None)
      \<and> (\<forall>n \<in> fst ` set want. map_of got n \<noteq> None \<longrightarrow> the (map_of want n) = the (map_of got n))"
    unfolding compare_versions_def Let_def append_is_Nil_conv map_is_Nil_conv srt filter_empty_conv by auto
  also have "\<dots> \<longleftrightarrow> map_of want = map_of got"
  proof -
    have dom: "n \<in> fst ` set vs \<longleftrightarrow> map_of vs n \<noteq> None" for vs :: versions and n by (simp add: map_of_eq_None_iff)
    have eq: "(map_of want n \<noteq> None \<longleftrightarrow> map_of got n \<noteq> None)
        \<and> (map_of want n \<noteq> None \<longrightarrow> map_of got n \<noteq> None \<longrightarrow> the (map_of want n) = the (map_of got n))
        \<longleftrightarrow> map_of want n = map_of got n" for n
      by (cases "map_of want n"; cases "map_of got n") simp_all
    show ?thesis unfolding Ball_def dom fun_eq_iff eq [symmetric] by blast
  qed
  finally show ?thesis .
qed

section \<open>Properties\<close>

lemma have_row_grow: "\<exists>xs. fst (have_row path row st) = fst st @ xs"
proof -
  obtain k line where row: "row = (k, line)" by fastforce
  obtain es got where st: "st = (es, got)" by fastforce
  show ?thesis
  proof (cases line)
    case None
    then show ?thesis by (simp add: row st have_row_def)
  next
    case (Some l)
    then show ?thesis
      by (cases "re_fullmatch FREEZE_PIN_re l") (simp_all add: row st have_row_def Let_def)
  qed
qed

lemma have_rows_keep: "fst (fold (have_row path) rows st) = [] \<Longrightarrow> fst st = []"
proof (induction rows arbitrary: st)
  case (Cons row rows)
  have "fst (have_row path row st) = []" by (rule Cons.IH) (use Cons.prems in simp)
  with have_row_grow [of path row st] show ?case by auto
qed simp

definition freeze_ok :: "files \<Rightarrow> string list \<Rightarrow> string list \<Rightarrow> string \<Rightarrow> string list \<Rightarrow> bool" where
  "freeze_ok files own dropped freeze locks \<longleftrightarrow>
     (\<exists>pinss data rows.
        list_all2 (clean_lock files) locks pinss \<and> distinct (map p_name (concat pinss)) \<and>
        files freeze = Some data \<and> rows_read (file_lines data) rows \<and> distinct (map fst (canonical_rows rows)) \<and>
        distinct (map canonical dropped) \<and> set (map canonical dropped) \<subseteq> set (map p_name (concat pinss)) \<and>
        distinct (map canonical own) \<and> set (map canonical own) \<subseteq> set (map fst (canonical_rows rows)) \<and>
        map_of (canonical_rows rows) |` (- set (map canonical own))
          = map_of (pin_versions (concat pinss)) |` (- set (map canonical dropped)))"

lemma map_of_rev_distinct: "distinct (map fst vs) \<Longrightarrow> map_of (rev vs) = map_of vs"
proof -
  assume d: "distinct (map fst vs)"
  have "map fst (rev vs) = rev (map fst vs)" by (rule rev_map [symmetric])
  with d have "distinct (map fst (rev vs))" by (simp only: distinct_rev)
  with d show ?thesis by (subst map_of_inject_set) simp_all
qed

lemma dom_map_of_set: "dom (map_of vs) = set (map fst vs)"
  by (simp add: dom_map_of_conv_image_fst)

lemma rows_read_printable: "rows_read ls rows \<Longrightarrow> list_all printable ls"
  by (auto simp: rows_read_def list_all_iff freeze_printable)

text \<open>The parts of a run of \<open>freeze\<close>.\<close>

lemma freeze_run:
  assumes "cmd_freeze files own dropped freeze locks = Inr oc"
  obtains e1 want1 e2 want2 data e3 got3 e4 got4 where
    "want_locks files locks ([], []) = Inr (e1, want1)"
    "fold (\<lambda>name. pop_name DropNotPinned (canonical name)) dropped (e1, want1) = (e2, want2)"
    "files freeze = Some data"
    "fold (have_row freeze) (fst (ascii_lines freeze data)) (e2 @ snd (ascii_lines freeze data), []) = (e3, got3)"
    "fold (\<lambda>name. pop_name OwnMissing (canonical name)) own (e3, got3) = (e4, got4)"
    "oc_code oc = 0 \<longleftrightarrow> e4 @ compare_versions want2 got4 = []"
proof -
  obtain e1 want1 where 1: "want_locks files locks ([], []) = Inr (e1, want1)"
    using assms by (auto simp: cmd_freeze_def bindE_Inr_iff)
  obtain e2 want2 where 2: "fold (\<lambda>name. pop_name DropNotPinned (canonical name)) dropped (e1, want1) = (e2, want2)"
    by fastforce
  from assms 1 2 obtain data where 3: "files freeze = Some data"
    by (auto simp: cmd_freeze_def bindE_Inr_iff read_bytes_def split: option.splits)
  obtain rows errs where a: "ascii_lines freeze data = (rows, errs)" by fastforce
  obtain e3 got3 where 4: "fold (have_row freeze) rows (e2 @ errs, []) = (e3, got3)" by fastforce
  obtain e4 got4 where 5: "fold (\<lambda>name. pop_name OwnMissing (canonical name)) own (e3, got3) = (e4, got4)" by fastforce
  have "oc_code oc = 0 \<longleftrightarrow> e4 @ compare_versions want2 got4 = []"
    using assms 1 2 3 a 4 5 by (auto simp: cmd_freeze_def read_bytes_def)
  with 1 2 3 4 5 a that show thesis by simp
qed

text \<open>What stops \<open>freeze\<close> is a file it cannot read.\<close>

lemma want_locks_raises: "want_locks files paths st = Inl e \<Longrightarrow> e = OSErr \<and> (\<exists>path. files path = None)"
proof (induction paths arbitrary: st)
  case (Cons path paths)
  show ?case
  proof (cases "parse_file files path")
    case (Inl e')
    with Cons.prems show ?thesis by (auto simp: parse_file_def read_bytes_def bindE_Inl_iff split: option.splits)
  next
    case (Inr r)
    with Cons.prems have "want_locks files paths (fold (want_pin path) (fst r) (fst st @ snd r, snd st)) = Inl e"
      by (simp add: case_prod_beta)
    then show ?thesis by (rule Cons.IH)
  qed
qed simp

lemma freeze_raises: "cmd_freeze files own dropped freeze locks = Inl e \<Longrightarrow> e = OSErr \<and> (\<exists>path. files path = None)"
  using want_locks_raises [of files locks "([], [])" e]
  by (auto simp: cmd_freeze_def bindE_Inl_iff case_prod_beta read_bytes_def split: option.splits)

text \<open>The two sides of the comparison: what the locks and what the freeze file ask for.\<close>

definition locked :: "files \<Rightarrow> string list \<Rightarrow> string list \<Rightarrow> pin list list \<Rightarrow> bool" where
  "locked files dropped locks pinss \<longleftrightarrow>
     list_all2 (clean_lock files) locks pinss \<and> distinct (map p_name (concat pinss)) \<and>
     distinct (map canonical dropped) \<and> set (map canonical dropped) \<subseteq> set (map p_name (concat pinss))"

definition frozen :: "string list \<Rightarrow> string list \<Rightarrow> (string \<times> string) list \<Rightarrow> bool" where
  "frozen own ls rows \<longleftrightarrow>
     rows_read ls rows \<and> distinct (map fst (canonical_rows rows)) \<and>
     distinct (map canonical own) \<and> set (map canonical own) \<subseteq> set (map fst (canonical_rows rows))"

lemma freeze_ok_sides: "freeze_ok files own dropped freeze locks \<longleftrightarrow>
    (\<exists>pinss data rows. locked files dropped locks pinss \<and> files freeze = Some data \<and> frozen own (file_lines data) rows
      \<and> map_of (canonical_rows rows) |` (- set (map canonical own))
        = map_of (pin_versions (concat pinss)) |` (- set (map canonical dropped)))"
  unfolding freeze_ok_def locked_def frozen_def by blast

lemma wanted_side:
  assumes "want_locks files locks ([], []) = Inr (e1, want1)"
    and "fold (\<lambda>name. pop_name DropNotPinned (canonical name)) dropped (e1, want1) = (e2, want2)"
  shows "e2 = [] \<longleftrightarrow> (\<exists>pinss. locked files dropped locks pinss)"
    and "locked files dropped locks pinss \<Longrightarrow>
      map_of want2 = map_of (pin_versions (concat pinss)) |` (- set (map canonical dropped))"
proof -
  note W = want_locks [OF assms(1)] and D = pop_names [OF assms(2)]
  have want1: "map_of want1 = map_of (pin_versions (concat pinss))"
    if "list_all2 (clean_lock files) locks pinss" "distinct (map p_name (concat pinss))" for pinss
    using W that map_of_rev_distinct [of "pin_versions (concat pinss)"] by (simp add: comp_def)
  have dom: "dom (map_of want1) = set (map p_name (concat pinss))"
    if "list_all2 (clean_lock files) locks pinss" "distinct (map p_name (concat pinss))" for pinss
    using want1 [OF that] by (simp add: dom_map_of_set comp_def)
  show iff: "e2 = [] \<longleftrightarrow> (\<exists>pinss. locked files dropped locks pinss)"
  proof
    assume "e2 = []"
    with D have "e1 = []" "distinct (map canonical dropped)" "set (map canonical dropped) \<subseteq> dom (map_of want1)" by auto
    moreover from this W obtain pinss where "list_all2 (clean_lock files) locks pinss" "distinct (map p_name (concat pinss))"
      by auto
    ultimately show "\<exists>pinss. locked files dropped locks pinss" using dom unfolding locked_def by auto
  next
    assume "\<exists>pinss. locked files dropped locks pinss"
    then obtain pinss where p: "list_all2 (clean_lock files) locks pinss" "distinct (map p_name (concat pinss))"
      and d: "distinct (map canonical dropped)" "set (map canonical dropped) \<subseteq> set (map p_name (concat pinss))"
      unfolding locked_def by blast
    from W p have "e1 = []" by auto
    with D d dom [OF p] show "e2 = []" by simp
  qed
  show "map_of want2 = map_of (pin_versions (concat pinss)) |` (- set (map canonical dropped))"
    if "locked files dropped locks pinss"
    using D iff that want1 unfolding locked_def by auto
qed

lemma frozen_side:
  assumes "fold (have_row freeze) (fst (ascii_lines freeze data)) (e2 @ snd (ascii_lines freeze data), []) = (e3, got3)"
    and "fold (\<lambda>name. pop_name OwnMissing (canonical name)) own (e3, got3) = (e4, got4)"
  shows "e4 = [] \<longleftrightarrow> e2 = [] \<and> (\<exists>rows. frozen own (file_lines data) rows)"
    and "e2 = [] \<Longrightarrow> frozen own (file_lines data) rows \<Longrightarrow>
      map_of got4 = map_of (canonical_rows rows) |` (- set (map canonical own))"
proof -
  note O = pop_names [OF assms(2)]
  have H: "(e3 = [] \<longleftrightarrow> e2 = [] \<and> (\<exists>rows. rows_read (file_lines data) rows \<and> distinct (map fst (canonical_rows rows))))
      \<and> (\<forall>rows. rows_read (file_lines data) rows \<longrightarrow> map_of got3 = map_of (rev (canonical_rows rows)))"
  proof (cases "list_all printable (file_lines data)")
    case True
    with assms(1) have "fold (have_row freeze) (enumerate 1 (map Some (file_lines data))) (e2, []) = (e3, got3)"
      using ascii_rows [of data freeze] ascii_errors [of freeze data] by simp
    from have_rows [OF this] show ?thesis by simp
  next
    case False
    then have "snd (ascii_lines freeze data) \<noteq> []" by (simp add: ascii_errors)
    with assms(1) have_rows_keep [of freeze "fst (ascii_lines freeze data)"] have "e3 \<noteq> []"
      by (metis append_is_Nil_conv fst_conv)
    with False rows_read_printable show ?thesis by blast
  qed
  have got3: "map_of got3 = map_of (canonical_rows rows)"
    if "rows_read (file_lines data) rows" "distinct (map fst (canonical_rows rows))" for rows
    using H that by (simp add: map_of_rev_distinct)
  then have dom: "dom (map_of got3) = set (map fst (canonical_rows rows))"
    if "rows_read (file_lines data) rows" "distinct (map fst (canonical_rows rows))" for rows
    using that by (simp add: dom_map_of_set)
  show iff: "e4 = [] \<longleftrightarrow> e2 = [] \<and> (\<exists>rows. frozen own (file_lines data) rows)"
    using H O dom unfolding frozen_def by metis
  show "map_of got4 = map_of (canonical_rows rows) |` (- set (map canonical own))"
    if "e2 = []" "frozen own (file_lines data) rows"
    using O iff that got3 unfolding frozen_def by auto
qed

text \<open>
  C25: \<open>freeze\<close> passes exactly if every lock is accepted, no name is pinned in two of them, each line of the
  freeze output is a plain pin of its own name, and the installed versions less \<open>--own\<close> are the pinned
  ones less \<open>--drop\<close>, as maps. It raises only if a file cannot be read.
\<close>

theorem freeze_exact:
  "case cmd_freeze files own dropped freeze locks of
     Inl e \<Rightarrow> e = OSErr \<and> (\<exists>path. files path = None)
   | Inr oc \<Rightarrow> oc_code oc = 0 \<longleftrightarrow> freeze_ok files own dropped freeze locks"
proof (cases "cmd_freeze files own dropped freeze locks")
  case (Inl e)
  with freeze_raises [OF Inl] show ?thesis by simp
next
  case (Inr oc)
  obtain e1 want1 e2 want2 data e3 got3 e4 got4 where
    w: "want_locks files locks ([], []) = Inr (e1, want1)"
      "fold (\<lambda>name. pop_name DropNotPinned (canonical name)) dropped (e1, want1) = (e2, want2)" and
    data: "files freeze = Some data" and
    g: "fold (have_row freeze) (fst (ascii_lines freeze data)) (e2 @ snd (ascii_lines freeze data), []) = (e3, got3)"
      "fold (\<lambda>name. pop_name OwnMissing (canonical name)) own (e3, got3) = (e4, got4)" and
    code: "oc_code oc = 0 \<longleftrightarrow> e4 @ compare_versions want2 got4 = []"
    using freeze_run [OF Inr] by metis
  have "oc_code oc = 0 \<longleftrightarrow> e4 = [] \<and> map_of want2 = map_of got4" using code by (auto simp: compare_Nil)
  also have "\<dots> \<longleftrightarrow> freeze_ok files own dropped freeze locks"
  proof
    assume l: "e4 = [] \<and> map_of want2 = map_of got4"
    then obtain rows pinss where f: "frozen own (file_lines data) rows" and p: "locked files dropped locks pinss"
      and e2: "e2 = []"
      using wanted_side(1) [OF w] frozen_side(1) [OF g] by blast
    have "map_of (canonical_rows rows) |` (- set (map canonical own))
        = map_of (pin_versions (concat pinss)) |` (- set (map canonical dropped))"
      using l wanted_side(2) [OF w p] frozen_side(2) [OF g e2 f] by simp
    with f p data show "freeze_ok files own dropped freeze locks" unfolding freeze_ok_sides by blast
  next
    assume "freeze_ok files own dropped freeze locks"
    then obtain pinss rows where l: "locked files dropped locks pinss" and f: "frozen own (file_lines data) rows"
      and eq: "map_of (canonical_rows rows) |` (- set (map canonical own))
        = map_of (pin_versions (concat pinss)) |` (- set (map canonical dropped))"
      using data unfolding freeze_ok_sides by auto
    have e2: "e2 = []" using wanted_side(1) [OF w] l by blast
    with f have "e4 = []" using frozen_side(1) [OF g] by blast
    with wanted_side(2) [OF w l] frozen_side(2) [OF g e2 f] eq show "e4 = [] \<and> map_of want2 = map_of got4" by simp
  qed
  finally show ?thesis using Inr by simp
qed

text \<open>
  \<open>only\<close> passes exactly if the lock is accepted and holds one pin, that of the given name, and the input
  file, where one is given, asks for just that version.
\<close>

theorem only_exact:
  "case cmd_only files name lock inp of
     Inl e \<Rightarrow> e \<in> {OSErr, UnicodeErr}
   | Inr oc \<Rightarrow> oc_code oc = 0 \<longleftrightarrow>
       (\<exists>p. clean_lock files lock [p] \<and> p_name p = canonical name \<and>
          (case inp of
             Some (i # is) \<Rightarrow> \<exists>text. read_ascii files (i # is) = Inr text
               \<and> requirement_lines text = [canonical name @ ''=='' @ p_version p]
           | _ \<Rightarrow> True))"
proof (cases "parse_file files lock")
  case (Inl e)
  then have "e = OSErr" by (auto simp: parse_file_def read_bytes_def split: option.splits)
  with Inl show ?thesis by (simp add: cmd_only_def)
next
  case (Inr r)
  obtain pins errs where r: "r = (pins, errs)" by fastforce
  have clean: "clean_lock files lock qs \<longleftrightarrow> errs = [] \<and> qs = pins" for qs using Inr r clean_lock_parse by simp
  have ascii: "read_ascii files path = Inl e \<Longrightarrow> e \<in> {OSErr, UnicodeErr}" for path e
    by (auto simp: read_ascii_def read_bytes_def split: option.splits if_splits)
  consider i js p where "inp = Some (i # js)" "pins = [p]"
    | "(case (inp, pins) of (Some (i # is), [p]) \<Rightarrow> False | _ \<Rightarrow> True)"
    by (cases inp; cases "the inp"; cases pins; cases "tl pins") auto
  then show ?thesis
  proof cases
    case asked: 1
    show ?thesis
    proof (cases "read_ascii files (i # js)")
      case (Inl e)
      with ascii [OF Inl] Inr r asked show ?thesis by (simp add: cmd_only_def Let_def)
    next
      case (Inr t)
      with \<open>parse_file files lock = Inr r\<close> r asked clean show ?thesis
        by (auto simp: cmd_only_def Let_def)
    qed
  next
    case plain: 2
    then have "(case (inp, pins) of
              (Some (i # is), [p]) \<Rightarrow>
                bindE (read_ascii files (i # is)) (\<lambda>text.
                let reqs = requirement_lines text in
                Inr (if reqs \<noteq> [canonical name @ ''=='' @ p_version p]
                     then [InputAsks lock (p_name p) (p_version p) (i # is) reqs] else []))
            | _ \<Rightarrow> Inr []) = Inr []"
      by (auto split: option.splits list.splits)
    then obtain ok where run: "cmd_only files name lock inp = Inr (report
        (errs @ (if map p_name pins \<noteq> [canonical name] then [NotOnlyPin lock name (map p_name pins)] else [])) ok)"
      using Inr r by (simp add: cmd_only_def Let_def)
    have "(\<exists>p. clean_lock files lock [p] \<and> p_name p = canonical name \<and>
          (case inp of
             Some (i # is) \<Rightarrow> \<exists>text. read_ascii files (i # is) = Inr text
               \<and> requirement_lines text = [canonical name @ ''=='' @ p_version p]
           | _ \<Rightarrow> True)) \<longleftrightarrow> errs = [] \<and> (\<exists>p. pins = [p] \<and> p_name p = canonical name)"
      unfolding clean using plain by (auto split: option.splits list.splits)
    then show ?thesis unfolding run by (auto simp: Cons_eq_map_conv map_eq_Cons_conv)
  qed
qed

text \<open>What the loops of \<open>pypi\<close> checked.\<close>

definition on_pypi :: "'n net \<Rightarrow> pin \<Rightarrow> string \<Rightarrow> bool" where
  "on_pypi urlopen p h \<longleftrightarrow> (\<exists>n n' doc known. urlopen (release_url p) n = (Inr doc, n')
     \<and> published_in p doc = Inr known \<and> PStr h \<in> set known)"

lemma fetch_answer:
  "fetch_attempts urlopen url attempts net = (Inr doc, net') \<Longrightarrow> \<exists>n n'. urlopen url n = (Inr doc, n')"
  by (induction attempts arbitrary: net) (auto split: prod.splits sum.splits fetch_error.splits if_splits)

lemma published_answer:
  assumes "published urlopen p net = (Inr known, net')" and "PStr h \<in> set known"
  shows "on_pypi urlopen p h"
proof -
  obtain r n where f: "fetch_json urlopen (release_url p) net = (r, n)" by fastforce
  with assms(1) obtain doc where "r = Inr doc" "published_in p doc = Inr known"
    by (auto simp: published_def bindE_Inr_iff)
  with f assms(2) fetch_answer show ?thesis unfolding on_pypi_def fetch_json_def by metis
qed

lemma check_hashes:
  "fst (fold (check_hash path p known) hs st) = [] \<Longrightarrow> fst st = [] \<and> (\<forall>h \<in> set hs. PStr h \<in> set known)"
proof (induction hs arbitrary: st)
  case (Cons h hs)
  then have ih: "fst (check_hash path p known h st) = []" "\<forall>h \<in> set hs. PStr h \<in> set known" by fastforce+
  then show ?case by (cases st) (auto simp: check_hash_def split: if_splits)
qed simp

lemma pypi_pins_sound:
  "pypi_pins urlopen path pins st net = (r, net') \<Longrightarrow>
    (case r of
       Inl oc \<Rightarrow> oc_code oc \<in> {1, 3}
     | Inr st' \<Rightarrow> fst st' = [] \<longrightarrow> fst st = [] \<and> (\<forall>p \<in> set pins. \<forall>h \<in> set (p_hashes p). on_pypi urlopen p h))"
proof (induction pins arbitrary: st net)
  case (Cons p pins)
  obtain q n where q: "published urlopen p net = (q, n)" by fastforce
  show ?case
  proof (cases q)
    case (Inl e)
    with Cons.prems q show ?thesis by (auto simp: report_def split: fetch_error.splits)
  next
    case (Inr known)
    with Cons.prems q have "pypi_pins urlopen path pins (fold (check_hash path p known) (p_hashes p) st) n = (r, net')"
      by simp
    from Cons.IH [OF this] check_hashes [of path p known "p_hashes p" st] published_answer [OF q [unfolded Inr]]
    show ?thesis by (cases r) auto
  qed
qed auto

lemma pypi_locks_sound:
  "pypi_locks urlopen files paths st net = Inr oc \<Longrightarrow> oc_code oc \<in> {0, 1, 3} \<and>
    (oc_code oc = 0 \<longrightarrow> fst st = [] \<and> (\<exists>pinss. list_all2 (clean_lock files) paths pinss
      \<and> (\<forall>p \<in> set (concat pinss). \<forall>h \<in> set (p_hashes p). on_pypi urlopen p h)))"
proof (induction paths arbitrary: st net)
  case Nil
  then show ?case by (auto simp: report_def split: if_splits)
next
  case (Cons path paths)
  then obtain pins errs where p: "parse_file files path = Inr (pins, errs)" by (auto simp: bindE_Inr_iff)
  show ?case
  proof (cases "errs = []")
    case False
    with Cons.prems p have "pypi_locks urlopen files paths (fst st @ errs, snd st) net = Inr oc" by simp
    from Cons.IH [OF this] False show ?thesis by auto
  next
    case True
    obtain r n where q: "pypi_pins urlopen path pins st net = (r, n)" by fastforce
    show ?thesis
    proof (cases r)
      case (Inl oc')
      with Cons.prems p True q pypi_pins_sound [OF q] show ?thesis by auto
    next
      case (Inr st')
      with Cons.prems p True q have "pypi_locks urlopen files paths st' n = Inr oc" by simp
      note ih = Cons.IH [OF this] and pins = pypi_pins_sound [OF q, unfolded Inr]
      have "clean_lock files path pins" using p True clean_lock_parse by simp
      have "\<exists>pinss. list_all2 (clean_lock files) (path # paths) pinss
          \<and> (\<forall>p \<in> set (concat pinss). \<forall>h \<in> set (p_hashes p). on_pypi urlopen p h)" if "oc_code oc = 0"
      proof -
        from that ih obtain pinss where "list_all2 (clean_lock files) paths pinss"
          "\<forall>p \<in> set (concat pinss). \<forall>h \<in> set (p_hashes p). on_pypi urlopen p h" and "fst st' = []" by blast
        with pins \<open>clean_lock files path pins\<close> show ?thesis by (intro exI [of _ "pins # pinss"]) auto
      qed
      moreover have "oc_code oc = 0 \<Longrightarrow> fst st = []" using ih pins by simp
      ultimately show ?thesis using ih by blast
    qed
  qed
qed


definition sample_pypi :: "nat net" where
  "sample_pypi = (\<lambda>url n. if n = 0 then (Inl NoReply, 1) else (Inr (PDict
     [(PStr ''info'', PDict [(PStr ''version'', PStr ''0.16.0'')]),
      (PStr ''urls'', PList [PDict [(PStr ''digests'', PDict [(PStr ''sha256'', PStr sample_hash)])]])]), n))"

definition sample_files :: files where
  "sample_files = (\<lambda>path. if path = ''l''
     then Some (join [LF] [pin_line ''h11'' ''0.16.0'', hash_text sample_hash False] @ [LF]) else None)"


end
