(* ===== verification/FileFacts.thy ===== *)
theory FileFacts
  imports FileSys
begin

text \<open>
  Facts on the file system calls: how a path is followed step by step, that only links decide it, and
  what directories and files a call adds.
\<close>

section \<open>Following a path\<close>

lemma joinrealpath_append:
  "joinrealpath fs avail p (a @ b) =
     (case joinrealpath fs avail p a of
        (q, False) \<Rightarrow> (q @ b, False)
      | (q, True) \<Rightarrow> joinrealpath fs avail q b)"
proof (induction fs avail p a rule: joinrealpath.induct)
  case (1 fs avail p)
  then show ?case by (simp add: joinrealpath.simps)
next
  case (2 fs avail p name rest)
  then show ?case
    by (auto simp: joinrealpath.simps split: option.split node.split prod.split bool.split)
qed

text \<open>Two trees with the same links lead everywhere the same way.\<close>

definition same_links :: "fs \<Rightarrow> fs \<Rightarrow> bool" where
  "same_links fs fs' \<longleftrightarrow> links_of fs' = links_of fs \<and>
     (\<forall>q t. map_of fs' q = Some (FLink t) \<longleftrightarrow> map_of fs q = Some (FLink t))"

lemma same_links_refl [simp]: "same_links fs fs"
  by (simp add: same_links_def)

lemma same_links_trans: "same_links a b \<Longrightarrow> same_links b c \<Longrightarrow> same_links a c"
  by (simp add: same_links_def)

lemma joinrealpath_same:
  assumes "\<forall>q t. map_of fs' q = Some (FLink t) \<longleftrightarrow> map_of fs q = Some (FLink t)"
  shows "joinrealpath fs' avail p rest = joinrealpath fs avail p rest"
  using assms
proof (induction fs avail p rest arbitrary: fs' rule: joinrealpath.induct)
  case (1 fs avail p)
  then show ?case by (simp add: joinrealpath.simps)
next
  case (2 fs avail p name rest)
  show ?case
  proof (cases "name = '''' \<or> name = ''.'' \<or> name = ''..''")
    case True
    show ?thesis
    proof (cases "name = ''..''")
      case dots: True
      then have "\<not> (name = '''' \<or> name = ''.'')" by simp
      from "2.IH"(2) [OF this dots "2.prems"] dots show ?thesis by (simp add: joinrealpath.simps)
    next
      case False
      with True have e: "name = '''' \<or> name = ''.''" by simp
      from "2.IH"(1) [OF e "2.prems"] e show ?thesis by (auto simp: joinrealpath.simps)
    qed
  next
    case plain: False
    show ?thesis
    proof (cases "\<exists>t. map_of fs (p @ [name]) = Some (FLink t)")
      case True
      then obtain t where t: "map_of fs (p @ [name]) = Some (FLink t)" by blast
      then have t': "map_of fs' (p @ [name]) = Some (FLink t)" using "2.prems" by simp
      show ?thesis
      proof (cases "p @ [name] \<in> set avail")
        case av: True
        from plain have n: "\<not> (name = '''' \<or> name = ''.'')" "name \<noteq> ''..''" by auto
        have nav: "\<not> p @ [name] \<notin> set avail" using av by simp
        note "2.IH"(6) [OF n t refl nav "2.prems"]
        moreover note "2.IH"(7) [OF n t refl nav _ _ "2.prems"]
        ultimately show ?thesis
          using plain t t' av by (auto simp: joinrealpath.simps split: prod.split bool.split)
      next
        case False
        then show ?thesis using plain t t' by (simp add: joinrealpath.simps)
      qed
    next
      case False
      then have none: "\<nexists>t. map_of fs' (p @ [name]) = Some (FLink t)" using "2.prems" by simp
      have n: "\<not> (name = '''' \<or> name = ''.'')" "name \<noteq> ''..''" using plain by auto
      have "joinrealpath fs' avail (p @ [name]) rest = joinrealpath fs avail (p @ [name]) rest"
      proof (cases "map_of fs (p @ [name])")
        case None
        from "2.IH"(3) [OF n None "2.prems"] show ?thesis .
      next
        case (Some nd)
        show ?thesis
        proof (cases nd)
          case (FFile a b)
          from "2.IH"(4) [OF n Some FFile "2.prems"] show ?thesis .
        next
          case (FDir a)
          from "2.IH"(5) [OF n Some FDir "2.prems"] show ?thesis .
        next
          case (FLink t)
          with Some False show ?thesis by blast
        qed
      qed
      then show ?thesis
        using plain False none by (auto simp: joinrealpath.simps split: option.split node.split)
    qed
  qed
qed

lemma follow_same: "same_links fs fs' \<Longrightarrow>
    joinrealpath fs' (links_of fs') p rest = joinrealpath fs (links_of fs) p rest"
  by (simp add: same_links_def joinrealpath_same)

lemma filter_update:
  "\<not> P (q, n) \<Longrightarrow> (\<And>m. map_of fs q = Some m \<Longrightarrow> \<not> P (q, m)) \<Longrightarrow>
     filter P (AList.update q n fs) = filter P fs"
  by (induction fs) (auto split: if_splits)

lemma links_of_update:
  assumes "\<not> is_link fs q" and "\<And>t. n \<noteq> FLink t"
  shows "links_of (AList.update q n fs) = links_of fs"
  unfolding links_of_def using assms
  by (subst filter_update) (auto simp: is_link_def split: node.splits option.splits)

lemma same_links_update:
  assumes "\<not> is_link fs q" and "\<And>t. n \<noteq> FLink t"
  shows "same_links fs (AList.update q n fs)"
  using assms links_of_update [OF assms] by (auto simp: same_links_def update_conv' is_link_def)

section \<open>Directories\<close>

text \<open>\<open>grown fs fs'\<close>: \<open>fs'\<close> is \<open>fs\<close> with new directories.\<close>

definition grown :: "fs \<Rightarrow> fs \<Rightarrow> bool" where
  "grown fs fs' \<longleftrightarrow> same_links fs fs' \<and>
     (\<forall>q. map_of fs' q = map_of fs q \<or> map_of fs q = None \<and> map_of fs' q = Some (FDir mode_dir))"

lemma grown_refl [simp]: "grown fs fs"
  by (simp add: grown_def)

lemma grown_trans: "grown a b \<Longrightarrow> grown b c \<Longrightarrow> grown a c"
  unfolding grown_def by (metis same_links_trans)

lemma grown_keeps: "grown fs fs' \<Longrightarrow> map_of fs q = Some n \<Longrightarrow> map_of fs' q = Some n"
  unfolding grown_def by (metis option.distinct(1))

lemma grown_follow: "grown fs fs' \<Longrightarrow>
    joinrealpath fs' (links_of fs') p rest = joinrealpath fs (links_of fs) p rest"
  by (simp add: grown_def follow_same)

lemma stat_Some:
  "stat fs p = Some n \<longleftrightarrow>
     (\<exists>q. joinrealpath fs (links_of fs) [] p = (q, True) \<and>
        (if q = [] then n = FDir 0 else map_of fs q = Some n))"
  by (auto simp: stat_def split: prod.splits)

lemma mkdir_grows: "mkdir head name fs = Inr fs' \<Longrightarrow> grown fs fs'"
  by (auto simp: mkdir_def grown_def update_conv' is_link_def intro!: same_links_update
      split: prod.splits bool.splits if_splits)

lemma mkdir_if_missing_grows: "mkdir_if_missing head name fs = Inr fs' \<Longrightarrow> grown fs fs'"
  by (auto simp: mkdir_if_missing_def dest: mkdir_grows split: sum.splits if_splits)

lemma makedirs_up_grows: "makedirs_up up fs = Inr fs' \<Longrightarrow> grown fs fs'"
proof (induction up arbitrary: fs')
  case (Cons name up)
  then show ?case
    by (auto split: if_splits sum.splits dest: mkdir_if_missing_grows intro: grown_trans)
qed simp

lemma makedirs_grows: "makedirs p fs = Inr fs' \<Longrightarrow> grown fs fs'"
  unfolding makedirs_def by (rule makedirs_up_grows)

lemma isdir_iff: "isdir fs p \<longleftrightarrow> (\<exists>m. stat fs p = Some (FDir m))"
  by (auto simp: isdir_def split: option.splits node.splits)

lemma mkdir_isdir:
  assumes "mkdir head name fs = Inr fs'" and "plain name"
  shows "isdir fs' (head @ [name])"
proof -
  obtain q where q: "joinrealpath fs (links_of fs) [] head = (q, True)"
    and new: "map_of fs (q @ [name]) = None" and fs': "fs' = AList.update (q @ [name]) (FDir mode_dir) fs"
    using assms(1) by (auto simp: mkdir_def split: prod.splits bool.splits if_splits)
  have "joinrealpath fs (links_of fs) [] (head @ [name]) = (q @ [name], True)"
    using assms(2) new by (simp add: joinrealpath_append q joinrealpath.simps plain_def)
  with mkdir_grows [OF assms(1)] have "joinrealpath fs' (links_of fs') [] (head @ [name]) = (q @ [name], True)"
    by (simp add: grown_follow)
  then show ?thesis by (simp add: isdir_iff stat_Some fs' update_conv')
qed

lemma makedirs_up_isdir:
  assumes "makedirs_up (name # up) fs = Inr fs'" and "plain name"
  shows "isdir fs' (rev up @ [name])"
proof -
  have "isdir b (rev up @ [name])" if "mkdir_if_missing (rev up) name a = Inr b" for a b
    using that assms(2) mkdir_isdir by (auto simp: mkdir_if_missing_def split: sum.splits if_splits)
  with assms show ?thesis by (auto simp: plain_def split: if_splits sum.splits)
qed

lemma joinrealpath_filter:
  "joinrealpath fs avail p (filter (\<lambda>c. c \<noteq> []) rest) = (q, True) \<longleftrightarrow> joinrealpath fs avail p rest = (q, True)"
proof (induction rest arbitrary: p)
  case (Cons c rest)
  show ?case
  proof (cases "c = []")
    case True
    then show ?thesis using Cons.IH by (simp add: joinrealpath.simps)
  next
    case False
    show ?thesis
      using False Cons.IH joinrealpath_append [of fs avail p "[c]" rest]
        joinrealpath_append [of fs avail p "[c]" "filter (\<lambda>c. c \<noteq> []) rest"]
      by (auto split: prod.splits bool.splits)
  qed
qed simp

lemma makedirs_isdir:
  assumes "makedirs (d @ [name]) fs = Inr fs'" and "plain name"
  shows "isdir fs' (d @ [name])"
proof -
  have "isdir fs' (filter (\<lambda>c. c \<noteq> []) (d @ [name]))"
    using assms makedirs_up_isdir [of name "filter (\<lambda>c. c \<noteq> []) (rev d)" fs fs']
    by (simp add: makedirs_def plain_def rev_filter)
  then show ?thesis by (auto simp: isdir_iff stat_Some joinrealpath_filter simp del: filter_append)
qed

section \<open>Below a directory\<close>

lemma resolved_not_link:
  "joinrealpath fs (links_of fs) [] p = (q, True) \<Longrightarrow> q \<noteq> [] \<Longrightarrow> \<not> is_link fs q"
  using joinrealpath_resolved [of fs "links_of fs" "[]" p q]
  by (auto simp: no_links_def is_link_def split: option.splits node.splits)

lemma follow_below:
  assumes "joinrealpath fs (links_of fs) [] d = (root, True)"
    and "no_links fs (root @ rest)" and "list_all plain rest"
  shows "joinrealpath fs (links_of fs) [] (d @ rest) = (root @ rest, True)"
  using assms by (simp add: joinrealpath_append joinrealpath_fixed)

lemma no_links_code [code]:
  "no_links fs p \<longleftrightarrow> list_all (\<lambda>q. q = [] \<or> \<not> is_link fs q) (prefixes p)"
  by (auto simp: no_links_def list_all_iff)

lemma no_links_same: "same_links fs fs' \<Longrightarrow> no_links fs' p = no_links fs p"
  by (simp add: same_links_def no_links_def is_link_def split: option.split node.split)

lemma write_mode_Inr:
  assumes "write_mode fs p c m = Inr fs'" and "joinrealpath fs (links_of fs) [] p = (q, True)"
  shows "fs' = AList.update q (FFile c m) fs"
  using assms by (auto simp: write_mode_def split: if_splits option.splits node.splits)

lemma write_mode_links: "write_mode fs p c m = Inr fs' \<Longrightarrow> same_links fs fs'"
  using write_mode_Inr resolved_not_link same_links_update
  by (auto simp: write_mode_def split: prod.splits bool.splits if_splits option.splits node.splits)

lemma chmod_at_Inr:
  assumes "chmod_at p m fs = Inr fs'" and "joinrealpath fs (links_of fs) [] p = (q, True)"
    and "map_of fs q = Some (FDir n)"
  shows "fs' = AList.update q (FDir m) fs"
  using assms by (auto simp: chmod_at_def chmod_def split: if_splits)

lemma chmod_at_links: "chmod_at p m fs = Inr fs' \<Longrightarrow> same_links fs fs'"
  by (auto simp: chmod_at_def chmod_def is_link_def intro!: same_links_update split: prod.splits bool.splits if_splits option.splits node.splits)

lemma fs_calls_raise:
  "write_mode fs p c m = Inl e \<Longrightarrow> is_os_error e"
  "chmod_at p m fs = Inl e \<Longrightarrow> is_os_error e"
  "mkdir h n fs = Inl e \<Longrightarrow> is_os_error e"
  by (auto simp: write_mode_def chmod_at_def mkdir_def is_os_error_def Let_def
      split: prod.splits bool.splits if_splits option.splits node.splits)

lemma makedirs_raises: "makedirs p fs = Inl e \<Longrightarrow> is_os_error e"
proof -
  have m: "mkdir_if_missing h n a = Inl e' \<Longrightarrow> is_os_error e'" for h n a e'
    using fs_calls_raise(3) by (auto simp: mkdir_if_missing_def split: sum.splits if_splits)
  have "makedirs_up up fs = Inl e \<Longrightarrow> is_os_error e" for up
    by (induction up arbitrary: e) (auto split: if_splits sum.splits dest: m)
  then show "makedirs p fs = Inl e \<Longrightarrow> is_os_error e" by (simp add: makedirs_def)
qed

text \<open>A directory made and set to a mode: \<open>q\<close> is it, and nothing else but missing parents is new.\<close>

lemma made_dir:
  assumes made: "makedirs (d @ [n]) fs = Inr fs1" and mode: "chmod_at (d @ [n]) m fs1 = Inr fs2"
    and d: "joinrealpath fs (links_of fs) [] d = (root, True)"
    and q: "no_links fs (root @ [n])" "plain n"
  shows "map_of fs2 (root @ [n]) = Some (FDir m)" and "same_links fs fs2"
    and "p \<noteq> root @ [n] \<Longrightarrow> map_of fs2 p = map_of fs p \<or> map_of fs p = None \<and> map_of fs2 p = Some (FDir mode_dir)"
proof -
  have g: "grown fs fs1" using made by (rule makedirs_grows)
  have to: "joinrealpath fs (links_of fs) [] (d @ [n]) = (root @ [n], True)"
    using follow_below [OF d q(1)] q(2) by simp
  with g have to1: "joinrealpath fs1 (links_of fs1) [] (d @ [n]) = (root @ [n], True)"
    by (simp add: grown_follow)
  moreover have "isdir fs1 (d @ [n])" using made q(2) by (rule makedirs_isdir)
  ultimately obtain k where "map_of fs1 (root @ [n]) = Some (FDir k)" by (auto simp: isdir_iff stat_Some)
  with mode to1 have fs2: "fs2 = AList.update (root @ [n]) (FDir m) fs1" by (auto intro: chmod_at_Inr)
  then show "map_of fs2 (root @ [n]) = Some (FDir m)" by (simp add: update_conv')
  show "same_links fs fs2" using g chmod_at_links [OF mode] unfolding grown_def by (blast intro: same_links_trans)
  show "map_of fs2 p = map_of fs p \<or> map_of fs p = None \<and> map_of fs2 p = Some (FDir mode_dir)"
    if "p \<noteq> root @ [n]"
    using g that by (simp add: fs2 update_conv' grown_def)
qed

end
