(* ===== verification/CertAuth.thy ===== *)
theory CertAuth
  imports Docker FileFacts
begin

text \<open>
  \<open>ca.py\<close>: the certificate authority of the RADIUS servers. The X.509 and RSA work is the
  \<open>cryptography\<close> package's: the functions of a record \<open>crypto\<close>, an argument of every definition that uses
  them. Keys, public keys, names and certificates are values of types that are parameters too. Randomness
  and the wall clock are part of the state of the services.
\<close>

definition CA_DIRNAME :: string where "CA_DIRNAME = ''ca''"
definition CA_KEY :: string where "CA_KEY = ''ca.key.pem''"
definition CA_CERT :: string where "CA_CERT = ''ca.cert.pem''"
definition EAP_CA_FILE :: string where "EAP_CA_FILE = ''ca.pem''"
definition EAP_CERT_FILE :: string where "EAP_CERT_FILE = ''server.pem''"
definition EAP_KEY_FILE :: string where "EAP_KEY_FILE = ''server.key''"
definition EAP_OVER_LAN_OID :: string where "EAP_OVER_LAN_OID = ''1.3.6.1.5.5.7.3.14''"
definition SERVER_AUTH_OID :: string where "SERVER_AUTH_OID = ''1.3.6.1.5.5.7.3.1''"
definition FQDN_RE :: re where "FQDN_RE = host_re"
definition CA_KEY_BITS :: int where "CA_KEY_BITS = 4096"
definition SERVER_KEY_BITS :: int where "SERVER_KEY_BITS = 2048"
definition PUBLIC_EXPONENT :: int where "PUBLIC_EXPONENT = 65537"

section \<open>Instants\<close>

text \<open>
  A \<open>datetime\<close> in UTC is the microseconds since 1970; outside the years 1 to 9999, and for a \<open>timedelta\<close>
  of more than 999999999 days, Python raises \<open>OverflowError\<close>.
\<close>

definition BACKDATE :: int where "BACKDATE = 5 * 60 * 1000000"

definition dt_add :: "int \<Rightarrow> int \<Rightarrow> pyerr + int" where
  "dt_add t d = (if -62135596800000000 \<le> t + d \<and> t + d \<le> 253402300799999999 then Inr (t + d) else Inl OtherErr)"

definition days :: "int \<Rightarrow> pyerr + int" where
  "days n = (if \<bar>n\<bar> \<le> 999999999 then Inr (n * 86400000000) else Inl OtherErr)"

text \<open>Year, month and day of a day counted from 1970, and \<open>isoformat\<close> without microseconds.\<close>

definition civil :: "int \<Rightarrow> int \<times> int \<times> int" where
  "civil n =
     (let z = n + 719468;
          era = z div 146097;
          doe = z mod 146097;
          yoe = (doe - doe div 1460 + doe div 36524 - doe div 146096) div 365;
          doy = doe - (365 * yoe + yoe div 4 - yoe div 100);
          mp = (5 * doy + 2) div 153;
          d = doy - (153 * mp + 2) div 5 + 1;
          m = (if mp < 10 then mp + 3 else mp - 9)
      in (yoe + era * 400 + (if m \<le> 2 then 1 else 0), m, d))"

definition padded :: "nat \<Rightarrow> int \<Rightarrow> string" where
  "padded k n = replicate (k - length (str_int n)) (CHR ''0'') @ str_int n"

definition iso :: "int \<Rightarrow> string" where
  "iso t =
     (let s = t div 1000000; r = s mod 86400 in
      case civil (s div 86400) of (y, m, d) \<Rightarrow>
        padded 4 y @ ''-'' @ padded 2 m @ ''-'' @ padded 2 d @ ''T'' @
        padded 2 (r div 3600) @ '':'' @ padded 2 (r mod 3600 div 60) @ '':'' @ padded 2 (r mod 60) @ ''+00:00'')"

lemma iso_examples:
  "iso 0 = ''1970-01-01T00:00:00+00:00''" "iso 951782400000000 = ''2000-02-29T00:00:00+00:00''"
  "iso 253402300799999999 = ''9999-12-31T23:59:59+00:00''" "iso (-1) = ''1969-12-31T23:59:59+00:00''"
  by code_simp+

text \<open>\<open>f"{n:x}"\<close>.\<close>

fun hex_nat :: "nat \<Rightarrow> string" where
  "hex_nat n = (if n < 16 then [] else hex_nat (n div 16)) @ [''0123456789abcdef'' ! (n mod 16)]"

declare hex_nat.simps [simp del]

definition hex_int :: "int \<Rightarrow> string" where
  "hex_int n = (if n < 0 then CHR ''-'' # hex_nat (nat (- n)) else hex_nat (nat n))"

section \<open>Certificates\<close>

record key_usage =
  ku_digital_signature :: bool
  ku_content_commitment :: bool
  ku_key_encipherment :: bool
  ku_data_encipherment :: bool
  ku_key_agreement :: bool
  ku_key_cert_sign :: bool
  ku_crl_sign :: bool
  ku_encipher_only :: bool
  ku_decipher_only :: bool

definition no_usage :: key_usage where
  "no_usage = \<lparr> ku_digital_signature = False, ku_content_commitment = False, ku_key_encipherment = False,
     ku_data_encipherment = False, ku_key_agreement = False, ku_key_cert_sign = False, ku_crl_sign = False,
     ku_encipher_only = False, ku_decipher_only = False \<rparr>"

text \<open>The extensions the service adds, of a public key of type \<open>'p\<close>.\<close>

datatype 'p extension =
    SubjectAlternativeName "string list"
  | BasicConstraints bool "nat option"
  | KeyUsage key_usage
  | ExtendedKeyUsage "string list"
  | AuthorityKeyIdentifier 'p
  | SubjectKeyIdentifier 'p

text \<open>A \<open>CertificateBuilder\<close>; an extension comes with its critical flag.\<close>

record ('p, 'n) builder =
  cb_subject :: 'n
  cb_issuer :: 'n
  cb_public :: 'p
  cb_serial :: int
  cb_not_before :: int
  cb_not_after :: int
  cb_extensions :: "('p extension \<times> bool) list"

text \<open>
  The package. \<open>k_now\<close>: \<open>datetime.now\<close>; \<open>k_generate\<close>: a new RSA key of an exponent and a size; \<open>k_serial_no\<close>:
  \<open>random_serial_number\<close>; \<open>k_cn\<close>: a \<open>Name\<close> of one common name; \<open>k_dns\<close>: whether \<open>DNSName\<close> takes a text; \<open>k_sign\<close>:
  \<open>sign\<close> with a private key and SHA-256; \<open>k_private\<close>: \<open>private_bytes\<close> in PEM, PKCS8, encrypted if there is a
  password; \<open>k_load_key\<close>: \<open>load_pem_private_key\<close>, with no value for a key that is no RSA key;
  \<open>k_san\<close>, \<open>k_basic\<close>: the DNS names and the \<open>ca\<close> flag of the extension, if the certificate has it.
\<close>

record ('k, 'p, 'n, 'c, 'd) crypto =
  k_now :: "'d \<Rightarrow> int"
  k_generate :: "int \<Rightarrow> int \<Rightarrow> 'd \<Rightarrow> 'k \<times> 'd"
  k_serial_no :: "'d \<Rightarrow> int \<times> 'd"
  k_public :: "'k \<Rightarrow> 'p"
  k_cn :: "string \<Rightarrow> pyerr + 'n"
  k_dns :: "string \<Rightarrow> bool"
  k_sign :: "('p, 'n) builder \<Rightarrow> 'k \<Rightarrow> pyerr + 'c"
  k_private :: "'k \<Rightarrow> string option \<Rightarrow> 'd \<Rightarrow> (pyerr + string) \<times> 'd"
  k_pem :: "'c \<Rightarrow> string"
  k_load_key :: "content \<Rightarrow> string \<Rightarrow> pyerr + 'k option"
  k_load :: "content \<Rightarrow> pyerr + 'c"
  k_load_all :: "string \<Rightarrow> pyerr + 'c list"
  k_subject :: "'c \<Rightarrow> 'n"
  k_issuer :: "'c \<Rightarrow> 'n"
  k_rfc4514 :: "'n \<Rightarrow> string"
  k_serial :: "'c \<Rightarrow> int"
  k_not_before :: "'c \<Rightarrow> int"
  k_not_after :: "'c \<Rightarrow> int"
  k_fingerprint :: "'c \<Rightarrow> string"
  k_san :: "'c \<Rightarrow> pyerr + string list option"
  k_basic :: "'c \<Rightarrow> pyerr + bool option"

record ca_view =
  cv_subject :: string
  cv_serial :: string
  cv_not_before :: string
  cv_not_after :: string
  cv_fingerprint :: string

record server_view =
  sv_subject :: string
  sv_san :: "string list"
  sv_issuer :: string
  sv_serial :: string
  sv_not_before :: string
  sv_not_after :: string

record bundle_cert =
  bc_subject :: string
  bc_issuer :: string
  bc_not_after :: string
  bc_fingerprint :: string
  bc_is_ca :: bool
  bc_trust_anchor :: bool

record pinned =
  pi_file :: string
  pi_certificates :: "bundle_cert list"
  pi_trust_anchor :: bool

definition describe_ca :: "('k, 'p, 'n, 'c, 'd) crypto \<Rightarrow> 'c \<Rightarrow> ca_view" where
  "describe_ca k cert = \<lparr>
     cv_subject = k_rfc4514 k (k_subject k cert),
     cv_serial = hex_int (k_serial k cert),
     cv_not_before = iso (k_not_before k cert),
     cv_not_after = iso (k_not_after k cert),
     cv_fingerprint = k_fingerprint k cert \<rparr>"

definition describe_server :: "('k, 'p, 'n, 'c, 'd) crypto \<Rightarrow> 'c \<Rightarrow> pyerr + server_view" where
  "describe_server k cert =
     bindE (k_san k cert) (\<lambda>san. Inr \<lparr>
       sv_subject = k_rfc4514 k (k_subject k cert),
       sv_san = (case san of None \<Rightarrow> [] | Some names \<Rightarrow> names),
       sv_issuer = k_rfc4514 k (k_issuer k cert),
       sv_serial = hex_int (k_serial k cert),
       sv_not_before = iso (k_not_before k cert),
       sv_not_after = iso (k_not_after k cert) \<rparr>)"

section \<open>Steps\<close>

text \<open>A step that draws randomness, and one that may raise too.\<close>

definition draw :: "('d \<Rightarrow> 'a \<times> 'd) \<Rightarrow> ('g, 'd, 'a) run" where
  "draw f = (\<lambda>w. case f (w_dk w) of (a, d) \<Rightarrow> (Inr a, w \<lparr> w_dk := d \<rparr>))"

definition draw_or_raise :: "('d \<Rightarrow> (pyerr + 'a) \<times> 'd) \<Rightarrow> ('g, 'd, 'a) run" where
  "draw_or_raise f = (\<lambda>w. case f (w_dk w) of (r, d) \<Rightarrow> (r, w \<lparr> w_dk := d \<rparr>))"

lemma draw_run [code]: "draw f w = (case f (w_dk w) of (a, d) \<Rightarrow> (Inr a, w \<lparr> w_dk := d \<rparr>))"
  by (simp add: draw_def)

lemma draw_or_raise_run [code]: "draw_or_raise f w = (case f (w_dk w) of (r, d) \<Rightarrow> (r, w \<lparr> w_dk := d \<rparr>))"
  by (simp add: draw_or_raise_def)

definition must :: "bool \<Rightarrow> ('g, 'd, unit) run" where
  "must b = (if b then returnP () else raiseP ValueErr)"

definition safe_name :: "string \<Rightarrow> ('g, 'd, unit) run" where
  "safe_name name =
     must (\<not> (name = [] \<or> CHR ''/'' \<in> set name \<or> CHR 0x5C \<in> set name \<or> sublist ''..'' name))"

definition write_to :: "path \<Rightarrow> content \<Rightarrow> nat \<Rightarrow> ('g, 'd, unit) run" where
  "write_to p data mode = on_fs (\<lambda>fs. write_mode fs p data mode)"

text \<open>\<open>os.makedirs(d, exist_ok=True)\<close> and \<open>os.chmod(d, 0o700)\<close>.\<close>

definition private_dir :: "path \<Rightarrow> ('g, 'd, unit) run" where
  "private_dir d = bindP (on_fs (makedirs d)) (\<lambda>_. on_fs (chmod_at d mode_700))"

text \<open>\<open>Path(p).read_bytes()\<close>.\<close>

definition read_raw :: "fs \<Rightarrow> path \<Rightarrow> pyerr + content" where
  "read_raw fs p =
     (case stat fs p of
        None \<Rightarrow> Inl FileNotFound
      | Some (FFile Unreadable _) \<Rightarrow> Inl PermissionErr
      | Some (FFile c _) \<Rightarrow> Inr c
      | Some _ \<Rightarrow> Inl OSErr)"

definition ca_dir :: "string \<Rightarrow> path" where "ca_dir certs_dir = comps certs_dir @ [CA_DIRNAME]"
definition ca_cert_path :: "string \<Rightarrow> path" where "ca_cert_path certs_dir = ca_dir certs_dir @ [CA_CERT]"
definition ca_key_path :: "string \<Rightarrow> path" where "ca_key_path certs_dir = ca_dir certs_dir @ [CA_KEY]"

text \<open>The validity that starts five minutes ago and ends after some days.\<close>

definition validity :: "int \<Rightarrow> int \<Rightarrow> pyerr + int \<times> int" where
  "validity from_now validity_days =
     bindE (dt_add from_now (- BACKDATE)) (\<lambda>nb.
     bindE (days validity_days) (\<lambda>d.
     bindE (dt_add from_now d) (\<lambda>na. Inr (nb, na))))"

section \<open>The certificate authority\<close>

definition ca_builder :: "'n \<Rightarrow> 'p \<Rightarrow> int \<Rightarrow> int \<Rightarrow> int \<Rightarrow> ('p, 'n) builder" where
  "ca_builder name public_key serial nb na = \<lparr>
     cb_subject = name, cb_issuer = name, cb_public = public_key, cb_serial = serial,
     cb_not_before = nb, cb_not_after = na,
     cb_extensions =
       [(BasicConstraints True (Some 0), True),
        (KeyUsage (no_usage \<lparr> ku_key_cert_sign := True, ku_crl_sign := True \<rparr>), True),
        (SubjectKeyIdentifier public_key, False)] \<rparr>"

definition init_ca ::
  "('k, 'p, 'n, 'c, 'd) crypto \<Rightarrow> string \<Rightarrow> string \<Rightarrow> string \<Rightarrow> int \<Rightarrow> ('g, 'd, ca_view) run" where
  "init_ca k certs_dir passphrase common_name validity_days =
     bindP (must (passphrase \<noteq> [])) (\<lambda>_.
     bindP (must (common_name \<noteq> [])) (\<lambda>_.
     bindP (must (1 \<le> validity_days)) (\<lambda>_.
     bindP (from_fs (\<lambda>fs. if stat fs (ca_cert_path certs_dir) \<noteq> None then Inl FileExists else Inr ())) (\<lambda>_.
     bindP (draw (k_generate k PUBLIC_EXPONENT CA_KEY_BITS)) (\<lambda>key.
     bindP (liftP (k_cn k common_name)) (\<lambda>name.
     bindP (getP (\<lambda>w. k_now k (w_dk w))) (\<lambda>now.
     bindP (draw (k_serial_no k)) (\<lambda>serial.
     bindP (liftP (validity now validity_days)) (\<lambda>(nb, na).
     bindP (liftP (k_sign k (ca_builder name (k_public k key) serial nb na) key)) (\<lambda>cert.
     bindP (draw_or_raise (k_private k key (Some passphrase))) (\<lambda>key_bytes.
     bindP (private_dir (ca_dir certs_dir)) (\<lambda>_.
     bindP (write_to (ca_key_path certs_dir) (Text key_bytes) mode_600) (\<lambda>_.
     bindP (write_to (ca_cert_path certs_dir) (Text (k_pem k cert)) mode_644) (\<lambda>_.
     returnP (describe_ca k cert)))))))))))))))"

definition ca_status :: "('k, 'p, 'n, 'c, 'd) crypto \<Rightarrow> string \<Rightarrow> ('g, 'd, ca_view option) run" where
  "ca_status k certs_dir = from_fs (\<lambda>fs.
     if \<not> isfile fs (ca_cert_path certs_dir) then Inr None
     else bindE (read_raw fs (ca_cert_path certs_dir)) (\<lambda>pem.
          bindE (k_load k pem) (\<lambda>cert. Inr (Some (describe_ca k cert)))))"

definition export_ca :: "string \<Rightarrow> ('g, 'd, string) run" where
  "export_ca certs_dir = from_fs (\<lambda>fs.
     if \<not> isfile fs (ca_cert_path certs_dir) then Inl FileNotFound else read_file fs (ca_cert_path certs_dir))"

section \<open>Server certificates\<close>

definition server_builder :: "'n \<Rightarrow> 'n \<Rightarrow> string \<Rightarrow> 'p \<Rightarrow> 'p \<Rightarrow> int \<Rightarrow> int \<Rightarrow> int \<Rightarrow> ('p, 'n) builder" where
  "server_builder subject issuer fqdn server_pub ca_pub serial nb na = \<lparr>
     cb_subject = subject, cb_issuer = issuer, cb_public = server_pub, cb_serial = serial,
     cb_not_before = nb, cb_not_after = na,
     cb_extensions =
       [(SubjectAlternativeName [fqdn], False),
        (BasicConstraints False None, True),
        (KeyUsage (no_usage \<lparr> ku_digital_signature := True, ku_key_encipherment := True \<rparr>), True),
        (ExtendedKeyUsage [SERVER_AUTH_OID, EAP_OVER_LAN_OID], False),
        (AuthorityKeyIdentifier ca_pub, False),
        (SubjectKeyIdentifier server_pub, False)] \<rparr>"

text \<open>The signing key; a wrong passphrase and a key of another kind are a \<open>ValueError\<close>.\<close>

definition unlock :: "('k, 'p, 'n, 'c, 'd) crypto \<Rightarrow> path \<Rightarrow> string \<Rightarrow> fs \<Rightarrow> pyerr + 'k" where
  "unlock k p passphrase fs =
     (case bindE (read_raw fs p) (\<lambda>c. k_load_key k c passphrase) of
        Inl e \<Rightarrow> if is_value_error e \<or> e = TypeErr then Inl ValueErr else Inl e
      | Inr None \<Rightarrow> Inl ValueErr
      | Inr (Some key) \<Rightarrow> Inr key)"

definition sign_server ::
  "('k, 'p, 'n, 'c, 'd) crypto \<Rightarrow> 'c \<Rightarrow> 'k \<Rightarrow> string \<Rightarrow> int \<Rightarrow> ('g, 'd, 'k \<times> 'c) run" where
  "sign_server k ca_cert ca_key fqdn validity_days =
     bindP (draw (k_generate k PUBLIC_EXPONENT SERVER_KEY_BITS)) (\<lambda>server_key.
     bindP (getP (\<lambda>w. k_now k (w_dk w))) (\<lambda>now.
     bindP (liftP (k_cn k fqdn)) (\<lambda>subject.
     bindP (draw (k_serial_no k)) (\<lambda>serial.
     bindP (liftP (validity now validity_days)) (\<lambda>(nb, na).
     bindP (must (k_dns k fqdn)) (\<lambda>_.
     bindP (liftP (k_sign k (server_builder subject (k_subject k ca_cert) fqdn (k_public k server_key)
                               (k_public k ca_key) serial nb na) ca_key)) (\<lambda>cert.
     returnP (server_key, cert))))))))"

definition install_cert ::
  "string \<Rightarrow> string \<Rightarrow> string \<Rightarrow> string \<Rightarrow> content \<Rightarrow> ('g, 'd, unit) run" where
  "install_cert certs_dir name key_pem cert_pem ca_pem =
     bindP (private_dir (comps certs_dir @ [name])) (\<lambda>_.
     bindP (write_to (comps certs_dir @ [name, EAP_KEY_FILE]) (Text key_pem) mode_600) (\<lambda>_.
     bindP (write_to (comps certs_dir @ [name, EAP_CERT_FILE]) (Text cert_pem) mode_644) (\<lambda>_.
     write_to (comps certs_dir @ [name, EAP_CA_FILE]) ca_pem mode_644)))"

definition issue_server_cert ::
  "('k, 'p, 'n, 'c, 'd) crypto \<Rightarrow> string \<Rightarrow> string \<Rightarrow> string \<Rightarrow> string \<Rightarrow> int \<Rightarrow> ('g, 'd, server_view) run" where
  "issue_server_cert k certs_dir name fqdn passphrase validity_days =
     bindP (safe_name name) (\<lambda>_.
     bindP (must (re_test FQDN_RE fqdn)) (\<lambda>_.
     bindP (must (passphrase \<noteq> [])) (\<lambda>_.
     bindP (must (1 \<le> validity_days)) (\<lambda>_.
     bindP (from_fs (\<lambda>fs. if isfile fs (ca_cert_path certs_dir) \<and> isfile fs (ca_key_path certs_dir)
                           then Inr () else Inl FileNotFound)) (\<lambda>_.
     bindP (from_fs (\<lambda>fs. read_raw fs (ca_cert_path certs_dir))) (\<lambda>ca_cert_pem.
     bindP (liftP (k_load k ca_cert_pem)) (\<lambda>ca_cert.
     bindP (from_fs (unlock k (ca_key_path certs_dir) passphrase)) (\<lambda>ca_key.
     bindP (sign_server k ca_cert ca_key fqdn validity_days) (\<lambda>(server_key, cert).
     bindP (draw_or_raise (k_private k server_key None)) (\<lambda>key_pem.
     bindP (install_cert certs_dir name key_pem (k_pem k cert) ca_cert_pem) (\<lambda>_.
     liftP (describe_server k cert))))))))))))"

definition cert_status ::
  "('k, 'p, 'n, 'c, 'd) crypto \<Rightarrow> string \<Rightarrow> string \<Rightarrow> ('g, 'd, server_view option) run" where
  "cert_status k certs_dir name =
     bindP (safe_name name) (\<lambda>_. from_fs (\<lambda>fs.
       if \<not> isfile fs (comps certs_dir @ [name, EAP_CERT_FILE]) then Inr None
       else bindE (read_raw fs (comps certs_dir @ [name, EAP_CERT_FILE])) (\<lambda>pem.
            bindE (k_load k pem) (\<lambda>cert.
            bindE (describe_server k cert) (\<lambda>v. Inr (Some v))))))"

section \<open>The certificates of the domain controllers\<close>

definition describe_bundle_cert :: "('k, 'p, 'n, 'c, 'd) crypto \<Rightarrow> 'c \<Rightarrow> pyerr + bundle_cert" where
  "describe_bundle_cert k cert =
     bindE (k_basic k cert) (\<lambda>basic. Inr \<lparr>
       bc_subject = k_rfc4514 k (k_subject k cert),
       bc_issuer = k_rfc4514 k (k_issuer k cert),
       bc_not_after = iso (k_not_after k cert),
       bc_fingerprint = k_fingerprint k cert,
       bc_is_ca = (basic = Some True),
       bc_trust_anchor = (k_subject k cert = k_issuer k cert) \<rparr>)"

primrec describe_all :: "('k, 'p, 'n, 'c, 'd) crypto \<Rightarrow> 'c list \<Rightarrow> pyerr + bundle_cert list" where
  "describe_all k [] = Inr []"
| "describe_all k (c # cs) =
     bindE (describe_bundle_cert k c) (\<lambda>v. bindE (describe_all k cs) (\<lambda>vs. Inr (v # vs)))"

definition describe_pem_bundle :: "('k, 'p, 'n, 'c, 'd) crypto \<Rightarrow> string \<Rightarrow> pyerr + bundle_cert list" where
  "describe_pem_bundle k pem =
     bindE (case k_load_all k pem of Inl e \<Rightarrow> Inl (if is_value_error e then ValueErr else e) | Inr cs \<Rightarrow> Inr cs)
       (describe_all k)"

definition write_ldap_ca :: "('k, 'p, 'n, 'c, 'd) crypto \<Rightarrow> string \<Rightarrow> string \<Rightarrow> string \<Rightarrow> ('g, 'd, pinned) run" where
  "write_ldap_ca k certs_dir name pem =
     bindP (safe_name name) (\<lambda>_.
     bindP (liftP (describe_pem_bundle k pem)) (\<lambda>certs.
     bindP (private_dir (comps certs_dir @ [name])) (\<lambda>_.
     bindP (write_to (comps certs_dir @ [name, LDAP_CA_FILE]) (Text pem) mode_600) (\<lambda>_.
     returnP \<lparr> pi_file = LDAP_CA_FILE, pi_certificates = certs,
       pi_trust_anchor = list_ex bc_trust_anchor certs \<rparr>))))"

end
