(* ===== verification/CertProps.thy ===== *)
theory CertProps
  imports CertAuth DockerExample
begin

text \<open>
  The properties of the certificate authority: a CA is never overwritten, only its passphrase opens it,
  and what it issues is what \<open>docker_service.py\<close> mounts.
\<close>

section \<open>How the steps run\<close>

lemma must_run [simp]: "must b w = (if b then Inr () else Inl ValueErr, w)"
  by (simp add: must_def)

lemma safe_name_run: "safe_name n w = (if unsafe_name n then Inl ValueErr else Inr (), w)"
  by (auto simp: safe_name_def unsafe_name_def)

lemma from_fs_run [simp]: "from_fs f w = (f (w_fs w), w)"
  by (simp add: from_fs_def)

lemma draw_Inr: "draw f w = (r, w') \<longleftrightarrow> (\<exists>a d. f (w_dk w) = (a, d) \<and> r = Inr a \<and> w' = w \<lparr> w_dk := d \<rparr>)"
  by (auto simp: draw_def split: prod.split)

lemma draw_or_raise_eq:
  "draw_or_raise f w = (r, w') \<longleftrightarrow> (\<exists>d. f (w_dk w) = (r, d) \<and> w' = w \<lparr> w_dk := d \<rparr>)"
  by (auto simp: draw_or_raise_def split: prod.split)

lemma keeps_draw [keeps_intros]: "apart v \<Longrightarrow> keeps v (draw f)"
  by (auto simp: keeps_def draw_def apart_dk split: prod.split)

lemma keeps_draw_or_raise [keeps_intros]: "apart v \<Longrightarrow> keeps v (draw_or_raise f)"
  by (auto simp: keeps_def draw_or_raise_def apart_dk split: prod.split)

lemma keeps_must [keeps_intros]: "keeps v (must b)"
  by (simp add: keeps_def)

lemma keeps_sign [keeps_intros]: "apart v \<Longrightarrow> keeps v (sign_server k c key fqdn n)"
  unfolding sign_server_def by (intro keeps_intros)

section \<open>Making a directory and writing below it\<close>

text \<open>\<open>opens fs d root\<close>: the path \<open>d\<close> leads to \<open>root\<close>; the service's directory below it has no links.\<close>

definition opens :: "fs \<Rightarrow> path \<Rightarrow> path \<Rightarrow> bool" where
  "opens fs d root \<longleftrightarrow> joinrealpath fs (links_of fs) [] d = (root, True)"

lemma opens_same: "same_links fs fs' \<Longrightarrow> opens fs' d root = opens fs d root"
  by (simp add: opens_def follow_same)

lemma opens_below:
  "opens fs d root \<Longrightarrow> no_links fs (root @ rest) \<Longrightarrow> list_all plain rest \<Longrightarrow> opens fs (d @ rest) (root @ rest)"
  unfolding opens_def by (rule follow_below)

lemma private_dir_Inr:
  assumes "private_dir (d @ [n]) w = (Inr u, w')" and "opens (w_fs w) d root"
    and "no_links (w_fs w) (root @ [n])" and "plain n"
  shows "map_of (w_fs w') (root @ [n]) = Some (FDir mode_700)" and "same_links (w_fs w) (w_fs w')"
    and "p \<noteq> root @ [n] \<Longrightarrow> map_of (w_fs w') p = map_of (w_fs w) p
      \<or> map_of (w_fs w) p = None \<and> map_of (w_fs w') p = Some (FDir mode_dir)"
proof -
  obtain fs1 where m: "makedirs (d @ [n]) (w_fs w) = Inr fs1" and c: "chmod_at (d @ [n]) mode_700 fs1 = Inr (w_fs w')"
    using assms(1) by (auto simp: private_dir_def run_bind on_fs_def split: sum.splits)
  note made_dir [OF m c assms(2) [unfolded opens_def] assms(3,4)]
  then show "map_of (w_fs w') (root @ [n]) = Some (FDir mode_700)" and "same_links (w_fs w) (w_fs w')"
    and "p \<noteq> root @ [n] \<Longrightarrow> map_of (w_fs w') p = map_of (w_fs w) p
      \<or> map_of (w_fs w) p = None \<and> map_of (w_fs w') p = Some (FDir mode_dir)"
    by blast+
qed

lemma write_to_Inr:
  assumes "write_to p c m w = (Inr u, w')" and "opens (w_fs w) p q"
  shows "w_fs w' = AList.update q (FFile c m) (w_fs w)" and "same_links (w_fs w) (w_fs w')"
  using assms write_mode_Inr write_mode_links
  by (auto simp: write_to_def on_fs_def opens_def split: sum.splits)

text \<open>Nothing but these steps raises an \<open>OSError\<close>, and they raise nothing else.\<close>

lemma steps_raise:
  "private_dir d w = (Inl e, w') \<Longrightarrow> is_os_error e"
  "write_to p c m w = (Inl e, w') \<Longrightarrow> is_os_error e"
  using fs_calls_raise makedirs_raises
  by (auto simp: private_dir_def write_to_def on_fs_def run_bind split: sum.splits)

text \<open>
  A run in such a directory: \<open>wrote\<close> lists the files written into the directory \<open>dir\<close>, each with its
  content and mode; apart from them only missing parents are new.
\<close>

definition wrote :: "fs \<Rightarrow> path \<Rightarrow> (string \<times> content \<times> nat) list \<Rightarrow> fs \<Rightarrow> bool" where
  "wrote fs dir files fs' \<longleftrightarrow> same_links fs fs' \<and>
     map_of fs' dir = Some (FDir mode_700) \<and>
     (\<forall>(f, c, m) \<in> set files. map_of fs' (dir @ [f]) = Some (FFile c m)) \<and>
     (\<forall>p. p \<noteq> dir \<and> p \<notin> (\<lambda>(f, _). dir @ [f]) ` set files \<longrightarrow>
        map_of fs' p = map_of fs p \<or> map_of fs p = None \<and> map_of fs' p = Some (FDir mode_dir))"

lemma wrote_dir:
  assumes "private_dir (d @ [n]) w = (Inr u, w')" and "opens (w_fs w) d root"
    and "no_links (w_fs w) (root @ [n])" and "plain n"
  shows "wrote (w_fs w) (root @ [n]) [] (w_fs w')"
  using private_dir_Inr [OF assms] unfolding wrote_def by auto

lemma wrote_file:
  assumes "wrote fs (root @ [n]) files (w_fs w)" and "write_to (d @ [n, f]) c m w = (Inr u, w')"
    and "opens fs d root" and "no_links fs (root @ [n, f])" and "plain n" "plain f"
    and "f \<notin> fst ` set files"
  shows "wrote fs (root @ [n]) (files @ [(f, c, m)]) (w_fs w')"
proof -
  have "opens fs (d @ [n, f]) (root @ [n, f])"
    using assms by (intro opens_below) simp_all
  moreover have links: "same_links fs (w_fs w)" using assms(1) by (simp add: wrote_def)
  ultimately have "opens (w_fs w) (d @ [n, f]) (root @ [n, f])" by (simp only: opens_same)
  note run = write_to_Inr [OF assms(2) this]
  have "same_links fs (w_fs w')" using links run(2) by (rule same_links_trans)
  have other: "g \<noteq> f" if "(g, x) \<in> set files" for g x
    using that assms(7) by (metis fst_conv image_eqI)
  have old: "map_of (w_fs w) (root @ [n, g]) = Some (FFile c' m')" if "(g, c', m') \<in> set files" for g c' m'
    using assms(1) that unfolding wrote_def by fastforce
  have frame: "map_of (w_fs w) p = map_of fs p \<or> map_of fs p = None \<and> map_of (w_fs w) p = Some (FDir mode_dir)"
    if "p \<noteq> root @ [n]" and "p \<notin> (\<lambda>(g, _). root @ [n, g]) ` set files" for p
    using assms(1) that unfolding wrote_def by simp
  have "map_of (w_fs w) (root @ [n]) = Some (FDir mode_700)" using assms(1) by (simp add: wrote_def)
  then show ?thesis
    using \<open>same_links fs (w_fs w')\<close> frame
    by (auto simp: wrote_def run(1) update_conv' old dest: other)
qed

section \<open>How the operations split\<close>

text \<open>What the package documents: a signed certificate carries what was asked for and reads back from its
  PEM text, and an encrypted key opens with its password only.\<close>

definition crypto_ok :: "('k, 'p, 'n, 'c, 'd) crypto \<Rightarrow> bool" where
  "crypto_ok k \<longleftrightarrow>
     (\<forall>b key c. k_sign k b key = Inr c \<longrightarrow>
        k_load k (Text (k_pem k c)) = Inr c \<and> k_subject k c = cb_subject b \<and> \<not> isl (k_san k c)) \<and>
     (\<forall>e n d key d1 p d2 s d3.
        k_generate k e n d = (key, d1) \<longrightarrow> k_private k key (Some p) d2 = (Inr s, d3) \<longrightarrow>
        (\<forall>p'. k_load_key k (Text s) p' = (if p' = p then Inr (Some key) else Inl ValueErr)))"

lemma describe_server_Inr: "crypto_ok k \<Longrightarrow> k_sign k b key = Inr c \<Longrightarrow> \<exists>v. describe_server k c = Inr v"
  by (cases "k_san k c") (force simp: crypto_ok_def describe_server_def)+

text \<open>What \<open>init_ca\<close> does up to its first write, and the writes.\<close>

definition init_plan ::
  "('k, 'p, 'n, 'c, 'd) crypto \<Rightarrow> string \<Rightarrow> string \<Rightarrow> string \<Rightarrow> int \<Rightarrow> ('g, 'd, 'c \<times> string) run" where
  "init_plan k certs_dir passphrase common_name validity_days =
     bindP (must (passphrase \<noteq> [])) (\<lambda>_.
     bindP (must (common_name \<noteq> [])) (\<lambda>_.
     bindP (must (1 \<le> validity_days)) (\<lambda>_.
     bindP (from_fs (\<lambda>fs. if stat fs (ca_cert_path certs_dir) \<noteq> None then Inl FileExists else Inr ())) (\<lambda>_.
     bindP (draw (k_generate k PUBLIC_EXPONENT CA_KEY_BITS)) (\<lambda>key.
     bindP (liftP (k_cn k common_name)) (\<lambda>name.
     bindP (getP (\<lambda>w. k_now k (w_dk w))) (\<lambda>now.
     bindP (draw (k_serial_no k)) (\<lambda>serial.
     bindP (liftP (validity now validity_days)) (\<lambda>(nb, na).
     bindP (liftP (k_sign k (ca_builder name (k_public k key) serial nb na) key)) (\<lambda>cert.
     bindP (draw_or_raise (k_private k key (Some passphrase))) (\<lambda>key_bytes.
     returnP (cert, key_bytes))))))))))))"

definition init_write :: "string \<Rightarrow> string \<Rightarrow> string \<Rightarrow> ('g, 'd, unit) run" where
  "init_write certs_dir key_bytes cert_pem =
     bindP (private_dir (ca_dir certs_dir)) (\<lambda>_.
     bindP (write_to (ca_key_path certs_dir) (Text key_bytes) mode_600) (\<lambda>_.
     write_to (ca_cert_path certs_dir) (Text cert_pem) mode_644))"

lemma init_ca_split:
  "init_ca k d p cn n = bindP (init_plan k d p cn n) (\<lambda>(cert, key_bytes).
     bindP (init_write d key_bytes (k_pem k cert)) (\<lambda>_. returnP (describe_ca k cert)))"
  by (simp add: init_ca_def init_plan_def init_write_def bind_assoc case_prod_unfold)

lemma keeps_init_plan: "keeps w_fs (init_plan k d p cn n)"
  unfolding init_plan_def by (intro keeps_intros) simp_all

lemma init_plan_Inr:
  assumes "init_plan k d p cn n w = (Inr (cert, s), w1)"
  obtains key name serial nb na d0 d1 d2 d3
  where "stat (w_fs w) (ca_cert_path d) = None" and "p \<noteq> []"
    and "k_generate k PUBLIC_EXPONENT CA_KEY_BITS d0 = (key, d1)"
    and "k_sign k (ca_builder name (k_public k key) serial nb na) key = Inr cert"
    and "k_private k key (Some p) d2 = (Inr s, d3)"
  using assms unfolding init_plan_def
  by (auto simp: bind_Inr_iff draw_Inr draw_or_raise_eq split: if_splits)

text \<open>The same for \<open>issue_server_cert\<close>.\<close>

definition issue_plan ::
  "('k, 'p, 'n, 'c, 'd) crypto \<Rightarrow> string \<Rightarrow> string \<Rightarrow> string \<Rightarrow> string \<Rightarrow> int \<Rightarrow>
     ('g, 'd, 'c \<times> string \<times> content) run" where
  "issue_plan k certs_dir name fqdn passphrase validity_days =
     bindP (safe_name name) (\<lambda>_.
     bindP (must (re_test FQDN_RE fqdn)) (\<lambda>_.
     bindP (must (passphrase \<noteq> [])) (\<lambda>_.
     bindP (must (1 \<le> validity_days)) (\<lambda>_.
     bindP (from_fs (\<lambda>fs. if isfile fs (ca_cert_path certs_dir) \<and> isfile fs (ca_key_path certs_dir)
                           then Inr () else Inl FileNotFound)) (\<lambda>_.
     bindP (from_fs (\<lambda>fs. read_raw fs (ca_cert_path certs_dir))) (\<lambda>ca_cert_pem.
     bindP (liftP (k_load k ca_cert_pem)) (\<lambda>ca_cert.
     bindP (from_fs (unlock k (ca_key_path certs_dir) passphrase)) (\<lambda>ca_key.
     bindP (sign_server k ca_cert ca_key fqdn validity_days) (\<lambda>(server_key, cert).
     bindP (draw_or_raise (k_private k server_key None)) (\<lambda>key_pem.
     returnP (cert, key_pem, ca_cert_pem)))))))))))"

lemma issue_split:
  "issue_server_cert k d n fqdn p t = bindP (issue_plan k d n fqdn p t) (\<lambda>(cert, key_pem, ca_pem).
     bindP (install_cert d n key_pem (k_pem k cert) ca_pem) (\<lambda>_. liftP (describe_server k cert)))"
  by (simp add: issue_server_cert_def issue_plan_def bind_assoc case_prod_unfold)

lemma keeps_safe_name [keeps_intros]: "keeps v (safe_name n)"
  unfolding safe_name_def by (intro keeps_intros)

lemma keeps_issue_plan: "keeps w_fs (issue_plan k d n fqdn p t)"
  unfolding issue_plan_def by (intro keeps_intros) simp_all

lemma issue_plan_Inr:
  assumes "issue_plan k d n fqdn p t w = (Inr (cert, key_pem, ca_pem), w1)"
  obtains ca_cert ca_key server_key subject serial nb na
  where "\<not> unsafe_name n" and "re_test FQDN_RE fqdn"
    and "read_raw (w_fs w) (ca_cert_path d) = Inr ca_pem" and "k_load k ca_pem = Inr ca_cert"
    and "unlock k (ca_key_path d) p (w_fs w) = Inr ca_key"
    and "k_sign k (server_builder subject (k_subject k ca_cert) fqdn (k_public k server_key)
           (k_public k ca_key) serial nb na) ca_key = Inr cert"
  using assms unfolding issue_plan_def sign_server_def
  by (auto simp: bind_Inr_iff draw_Inr draw_or_raise_eq safe_name_run split: if_splits)

text \<open>What the writing steps raise.\<close>

lemma writes_raise:
  "init_write d s c w = (Inl e, w') \<Longrightarrow> is_os_error e"
  "install_cert d n s c b w = (Inl e, w') \<Longrightarrow> is_os_error e"
  by (auto simp: init_write_def install_cert_def bind_Inl_iff dest: steps_raise)

section \<open>What is written\<close>

lemma plain_files [simp]:
  "plain CA_DIRNAME" "plain CA_KEY" "plain CA_CERT" "plain EAP_CA_FILE" "plain EAP_CERT_FILE" "plain EAP_KEY_FILE"
  "plain LDAP_CA_FILE"
  by (simp_all add: plain_def CA_DIRNAME_def CA_KEY_def CA_CERT_def EAP_CA_FILE_def EAP_CERT_FILE_def
      EAP_KEY_FILE_def LDAP_CA_FILE_def)

lemma init_write_Inr:
  assumes "init_write d s c w = (Inr u, w')" and "opens (w_fs w) (comps d) root"
    and "\<And>f. f \<in> {CA_KEY, CA_CERT} \<Longrightarrow> no_links (w_fs w) (root @ [CA_DIRNAME, f])"
  shows "wrote (w_fs w) (root @ [CA_DIRNAME]) [(CA_KEY, Text s, mode_600), (CA_CERT, Text c, mode_644)] (w_fs w')"
proof -
  obtain w1 w2 where 1: "private_dir (comps d @ [CA_DIRNAME]) w = (Inr (), w1)"
    and 2: "write_to (comps d @ [CA_DIRNAME, CA_KEY]) (Text s) mode_600 w1 = (Inr (), w2)"
    and 3: "write_to (comps d @ [CA_DIRNAME, CA_CERT]) (Text c) mode_644 w2 = (Inr u, w')"
    using assms(1) by (auto simp: init_write_def bind_Inr_iff ca_dir_def ca_key_path_def ca_cert_path_def)
  have dir: "no_links (w_fs w) (root @ [CA_DIRNAME])"
    using assms(3) [of CA_KEY] by (rule no_links_prefix) simp_all
  have "CA_CERT \<noteq> CA_KEY" by (simp add: CA_CERT_def CA_KEY_def)
  with wrote_file [OF wrote_file [OF wrote_dir [OF 1 assms(2) dir] 2 assms(2)] 3 assms(2)] assms(3)
  show ?thesis by simp
qed

lemma install_cert_Inr:
  assumes "install_cert d n s c b w = (Inr u, w')" and "opens (w_fs w) (comps d) root" and "plain n"
    and "\<And>f. f \<in> {EAP_KEY_FILE, EAP_CERT_FILE, EAP_CA_FILE} \<Longrightarrow> no_links (w_fs w) (root @ [n, f])"
  shows "wrote (w_fs w) (root @ [n])
    [(EAP_KEY_FILE, Text s, mode_600), (EAP_CERT_FILE, Text c, mode_644), (EAP_CA_FILE, b, mode_644)] (w_fs w')"
proof -
  obtain w1 w2 w3 where 1: "private_dir (comps d @ [n]) w = (Inr (), w1)"
    and 2: "write_to (comps d @ [n, EAP_KEY_FILE]) (Text s) mode_600 w1 = (Inr (), w2)"
    and 3: "write_to (comps d @ [n, EAP_CERT_FILE]) (Text c) mode_644 w2 = (Inr (), w3)"
    and 4: "write_to (comps d @ [n, EAP_CA_FILE]) b mode_644 w3 = (Inr u, w')"
    using assms(1) by (auto simp: install_cert_def bind_Inr_iff)
  have dir: "no_links (w_fs w) (root @ [n])"
    using assms(4) [of EAP_KEY_FILE] by (rule no_links_prefix) simp_all
  have "EAP_CERT_FILE \<noteq> EAP_KEY_FILE" "EAP_CA_FILE \<noteq> EAP_KEY_FILE" "EAP_CA_FILE \<noteq> EAP_CERT_FILE"
    by (simp_all add: EAP_CERT_FILE_def EAP_KEY_FILE_def EAP_CA_FILE_def)
  with wrote_file [OF wrote_file [OF wrote_file [OF wrote_dir [OF 1 assms(2) dir assms(3)] 2 assms(2)] 3 assms(2)]
      4 assms(2)] assms(3,4)
  show ?thesis by simp
qed

text \<open>A file in the written directory, seen through the path it was written by.\<close>

lemma wrote_stat:
  assumes "wrote fs dir files fs'" and "(f, c, m) \<in> set files" and "opens fs d dir"
    and "no_links fs (dir @ [f])" and "plain f"
  shows "stat fs' (d @ [f]) = Some (FFile c m)" and "opens fs' d dir" and "no_links fs' (dir @ [f])"
proof -
  have l: "same_links fs fs'" using assms(1) by (simp add: wrote_def)
  show "opens fs' d dir" using l assms(3) by (simp only: opens_same)
  show "no_links fs' (dir @ [f])" using l assms(4) by (simp only: no_links_same)
  have "opens fs (d @ [f]) (dir @ [f])" using assms by (intro opens_below) simp_all
  then have "opens fs' (d @ [f]) (dir @ [f])" using l by (simp only: opens_same)
  moreover have "map_of fs' (dir @ [f]) = Some (FFile c m)" using assms(1,2) unfolding wrote_def by fastforce
  ultimately show "stat fs' (d @ [f]) = Some (FFile c m)" by (auto simp: stat_Some opens_def)
qed

lemma resolve_under_name:
  assumes "opens fs d root" and "no_links fs (root @ [n])" and "plain n" and "CHR ''/'' \<notin> set n"
  shows "resolve_under fs d n = Inr (root @ [n])"
proof -
  have root: "no_links fs root" "list_all plain root"
    using assms(1) joinrealpath_resolved unfolding opens_def by fastforce+
  have "joinrealpath fs (links_of fs) [] (root @ [n]) = (root @ [n], True)"
    using assms root joinrealpath_fixed [of fs "[]" "root @ [n]"] by simp
  moreover have "join_path root n = root @ [n]"
    using assms(4) by (cases n) (auto simp: join_path_def is_abs_def comps_def split_on_none)
  ultimately have "realpath fs (join_path root n) = root @ [n]"
    using root assms(3) by (simp add: realpath_def normpath_plain)
  moreover have "realpath fs d = root" using assms(1) root by (simp add: realpath_def opens_def normpath_plain)
  ultimately show ?thesis by (simp add: resolve_under_def longest_common_prefix_eq)
qed

lemma obtain_Inr:
  assumes "case m of (r, _) \<Rightarrow> \<not> isl r" and "\<And>v w'. m = (Inr v, w') \<Longrightarrow> P"
  shows P
  using assms by (cases m; cases "fst m") auto

section \<open>A small certificate package\<close>

text \<open>
  For the examples: a certificate is its subject and its issuer, its text is both; an encrypted key is the
  key followed by its password.
\<close>

definition toy_load_key :: "content \<Rightarrow> string \<Rightarrow> pyerr + string option" where
  "toy_load_key c p =
     (case c of
        Text s \<Rightarrow> (case partition_on (CHR ''|'') s of
            (key, Some q) \<Rightarrow> if q = p then Inr (Some key) else Inl ValueErr
          | (_, None) \<Rightarrow> Inl TypeErr)
      | _ \<Rightarrow> Inl ValueErr)"

definition toy_load :: "content \<Rightarrow> pyerr + string list" where
  "toy_load c = (case c of Text s \<Rightarrow> Inr (split_on (CHR ''|'') s) | _ \<Rightarrow> Inl ValueErr)"

definition toy_sign :: "(string, string) builder \<Rightarrow> string \<Rightarrow> pyerr + string list" where
  "toy_sign b key =
     (if CHR ''|'' \<in> set (cb_subject b) \<union> set (cb_issuer b) then Inl ValueErr
      else Inr [cb_subject b, cb_issuer b])"

definition toy_generate :: "int \<Rightarrow> int \<Rightarrow> sim \<Rightarrow> string \<times> sim" where
  "toy_generate e bits d = (if bits = CA_KEY_BITS then ''ca-key'' else ''server-key'', d)"

definition toy_private :: "string \<Rightarrow> string option \<Rightarrow> sim \<Rightarrow> (pyerr + string) \<times> sim" where
  "toy_private key p d = (Inr (case p of None \<Rightarrow> key | Some q \<Rightarrow> key @ CHR ''|'' # q), d)"

definition toy_now :: "sim \<Rightarrow> int" where "toy_now d = 1700000000000000"
definition toy_serial_no :: "sim \<Rightarrow> int \<times> sim" where "toy_serial_no d = (7, d)"
definition toy_cn :: "string \<Rightarrow> pyerr + string" where "toy_cn s = Inr s"
definition toy_dns :: "string \<Rightarrow> bool" where "toy_dns s = True"
definition toy_public :: "string \<Rightarrow> string" where "toy_public key = ''public '' @ key"
definition toy_pem :: "string list \<Rightarrow> string" where "toy_pem c = join ''|'' c"
definition toy_load_all :: "string \<Rightarrow> pyerr + string list list" where
  "toy_load_all s = (if s = [] then Inl ValueErr else Inr [split_on (CHR ''|'') s])"
definition toy_rfc4514 :: "string \<Rightarrow> string" where "toy_rfc4514 s = ''CN='' @ s"
definition toy_serial :: "string list \<Rightarrow> int" where "toy_serial c = 7"
definition toy_time :: "string list \<Rightarrow> int" where "toy_time c = 1700000000000000"
definition toy_san :: "string list \<Rightarrow> pyerr + string list option" where "toy_san c = Inr (Some [hd c])"
definition toy_basic :: "string list \<Rightarrow> pyerr + bool option" where "toy_basic c = Inr None"

definition toy_crypto :: "(string, string, string, string list, sim) crypto" where
  "toy_crypto = \<lparr>
     k_now = toy_now, k_generate = toy_generate, k_serial_no = toy_serial_no, k_public = toy_public,
     k_cn = toy_cn, k_dns = toy_dns, k_sign = toy_sign, k_private = toy_private, k_pem = toy_pem,
     k_load_key = toy_load_key, k_load = toy_load, k_load_all = toy_load_all, k_subject = hd, k_issuer = last,
     k_rfc4514 = toy_rfc4514, k_serial = toy_serial, k_not_before = toy_time, k_not_after = toy_time,
     k_fingerprint = toy_pem, k_san = toy_san, k_basic = toy_basic \<rparr>"

lemma toy_ok: "crypto_ok toy_crypto"
  by (auto simp: crypto_ok_def toy_crypto_def toy_sign_def toy_load_def toy_pem_def toy_san_def toy_generate_def
      toy_private_def toy_load_key_def partition_on_Some split_on_append split: if_splits)

section \<open>Properties\<close>

text \<open>A second \<open>init_ca\<close>, and an issue with a passphrase that does not open the key, raise before anything is written.\<close>

lemma init_again_raises:
  assumes "stat (w_fs w) (ca_cert_path d) \<noteq> None" and "init_ca k d p cn n w = (r, w')"
  shows "isl r \<and> w_fs w' = w_fs w"
proof -
  obtain q w1 where q: "init_plan k d p cn n w = (q, w1)" by fastforce
  have "isl q" using q assms(1) by (cases q) (auto elim: init_plan_Inr)
  with assms(2) q keepsD [OF keeps_init_plan q] show ?thesis by (auto simp: init_ca_split run_bind split: sum.splits)
qed

lemma locked_issue_raises:
  assumes "isl (unlock k (ca_key_path d) p (w_fs w))" and "issue_server_cert k d m fqdn p t w = (r, w')"
  shows "isl r \<and> w_fs w' = w_fs w"
proof -
  obtain q w1 where q: "issue_plan k d m fqdn p t w = (q, w1)" by fastforce
  have "isl q" using q assms(1) by (cases q) (auto elim: issue_plan_Inr)
  with assms(2) q keepsD [OF keeps_issue_plan q] show ?thesis by (auto simp: issue_split run_bind split: sum.splits)
qed

text \<open>
  C14: A CA is minted once, and only its passphrase opens it. After a successful \<open>init_ca\<close>, exactly
  \<open>ca/ca.key.pem\<close> (mode 0600) and \<open>ca/ca.cert.pem\<close> (mode 0644) were written, in a directory of mode 0700; the
  certificate is the CA builder signed with the key that is in the key file; the status is the view that
  was returned; a second \<open>init_ca\<close> changes no file; and issuing with another passphrase fails and changes
  no file, while the right one gives the very key.
\<close>

theorem init_ca_roundtrip:
  assumes "crypto_ok k" and "init_ca k d p cn n w = (Inr v, w')" and "opens (w_fs w) (comps d) root"
    and "\<And>f. f \<in> {CA_KEY, CA_CERT} \<Longrightarrow> no_links (w_fs w) (root @ [CA_DIRNAME, f])"
  shows "\<exists>key cert s name serial nb na.
      k_sign k (ca_builder name (k_public k key) serial nb na) key = Inr cert
    \<and> wrote (w_fs w) (root @ [CA_DIRNAME])
        [(CA_KEY, Text s, mode_600), (CA_CERT, Text (k_pem k cert), mode_644)] (w_fs w')
    \<and> ca_status k d w' = (Inr (Some v), w')
    \<and> (\<forall>p2 cn2 n2 r w2. init_ca k d p2 cn2 n2 w' = (r, w2) \<longrightarrow> isl r \<and> w_fs w2 = w_fs w')
    \<and> (\<forall>q. unlock k (ca_key_path d) q (w_fs w') = (if q = p then Inr key else Inl ValueErr))
    \<and> (\<forall>q m fqdn t r w2. q \<noteq> p \<longrightarrow> issue_server_cert k d m fqdn q t w' = (r, w2) \<longrightarrow> isl r \<and> w_fs w2 = w_fs w')"
proof -
  obtain cert s w1 where plan: "init_plan k d p cn n w = (Inr (cert, s), w1)"
    and writes: "init_write d s (k_pem k cert) w1 = (Inr (), w')" and v: "v = describe_ca k cert"
    using assms(2) by (auto simp: init_ca_split bind_Inr_iff)
  have fs: "w_fs w1 = w_fs w" using keeps_init_plan plan by (rule keepsD)
  obtain key name serial nb na d0 d1 d2 d3 where
    key: "k_generate k PUBLIC_EXPONENT CA_KEY_BITS d0 = (key, d1)" "k_private k key (Some p) d2 = (Inr s, d3)"
    and sign: "k_sign k (ca_builder name (k_public k key) serial nb na) key = Inr cert"
    using plan by (rule init_plan_Inr)
  let ?files = "[(CA_KEY, Text s, mode_600), (CA_CERT, Text (k_pem k cert), mode_644)]"
  have wrote: "wrote (w_fs w) (root @ [CA_DIRNAME]) ?files (w_fs w')"
    using init_write_Inr [OF writes] assms(3,4) by (simp add: fs)
  have dir: "opens (w_fs w) (ca_dir d) (root @ [CA_DIRNAME])"
    using assms(3) no_links_prefix [OF assms(4) [of CA_KEY], of "root @ [CA_DIRNAME]"] unfolding ca_dir_def
    by (intro opens_below) simp_all
  have cert_file: "stat (w_fs w') (ca_cert_path d) = Some (FFile (Text (k_pem k cert)) mode_644)"
    using wrote_stat(1) [OF wrote _ dir, of CA_CERT] assms(4) by (simp add: ca_cert_path_def)
  have key_file: "stat (w_fs w') (ca_key_path d) = Some (FFile (Text s) mode_600)"
    using wrote_stat(1) [OF wrote _ dir, of CA_KEY] assms(4) by (simp add: ca_key_path_def)
  have load: "k_load k (Text (k_pem k cert)) = Inr cert" using assms(1) sign by (auto simp: crypto_ok_def)
  have open_key: "unlock k (ca_key_path d) q (w_fs w') = (if q = p then Inr key else Inl ValueErr)" for q
  proof -
    have "k_load_key k (Text s) q = (if q = p then Inr (Some key) else Inl ValueErr)"
      using assms(1) key unfolding crypto_ok_def by blast
    then show ?thesis by (simp add: unlock_def read_raw_def key_file is_value_error_def)
  qed
  have "ca_status k d w' = (Inr (Some v), w')"
    by (simp add: ca_status_def isfile_def read_raw_def cert_file load v)
  moreover have "isl r \<and> w_fs w2 = w_fs w'" if "init_ca k d p2 cn2 n2 w' = (r, w2)" for p2 cn2 n2 r w2
    by (rule init_again_raises [OF _ that]) (simp add: cert_file)
  moreover have "isl r \<and> w_fs w2 = w_fs w'"
    if "q \<noteq> p" and "issue_server_cert k d m fqdn q t w' = (r, w2)" for q m fqdn t r w2
    by (rule locked_issue_raises [OF _ that(2)]) (simp add: open_key that(1))
  ultimately show ?thesis using sign wrote open_key by blast
qed

theorem init_ca_roundtrip_witness:
  "\<exists>v w'. init_ca toy_crypto ''/c'' ''pw'' ''EAP CA'' 3652 dock_world = (Inr v, w')
    \<and> ca_status toy_crypto ''/c'' w' = (Inr (Some v), w')
    \<and> isl (fst (issue_server_cert toy_crypto ''/c'' ''a'' ''radius.lan'' ''guess'' 1095 w'))"
proof -
  have "case init_ca toy_crypto ''/c'' ''pw'' ''EAP CA'' 3652 dock_world of (r, _) \<Rightarrow> \<not> isl r" by code_simp
  then obtain v w' where run: "init_ca toy_crypto ''/c'' ''pw'' ''EAP CA'' 3652 dock_world = (Inr v, w')"
    by (elim obtain_Inr)
  have at: "opens (w_fs dock_world) (comps ''/c'') [''c'']"
    unfolding opens_def by code_simp
  have "no_links (w_fs dock_world) ([''c''] @ [CA_DIRNAME, CA_KEY])" "no_links (w_fs dock_world) ([''c''] @ [CA_DIRNAME, CA_CERT])"
    by code_simp+
  then have nl: "no_links (w_fs dock_world) ([''c''] @ [CA_DIRNAME, f])" if "f \<in> {CA_KEY, CA_CERT}" for f
    using that by auto
  obtain r w2 where "issue_server_cert toy_crypto ''/c'' ''a'' ''radius.lan'' ''guess'' 1095 w' = (r, w2)" by fastforce
  moreover have "''guess'' \<noteq> ''pw''" by simp
  moreover from init_ca_roundtrip [OF toy_ok run at nl]
  have "ca_status toy_crypto ''/c'' w' = (Inr (Some v), w')"
    and "\<forall>q m fqdn t r w2. q \<noteq> ''pw'' \<longrightarrow> issue_server_cert toy_crypto ''/c'' m fqdn q t w' = (r, w2) \<longrightarrow>
      isl r \<and> w_fs w2 = w_fs w'"
    by blast+
  ultimately show ?thesis using run by (metis fst_conv)
qed

text \<open>Once the three files of an instance are in place, its mounts succeed.\<close>

lemma eap_files_mount:
  assumes "wrote fs dir [(EAP_KEY_FILE, c1, m1), (EAP_CERT_FILE, c2, m2), (EAP_CA_FILE, c3, m3)] fs'" (is "wrote fs dir ?files fs'")
    and "opens fs dir dir" and "\<And>f. f \<in> {EAP_KEY_FILE, EAP_CERT_FILE, EAP_CA_FILE} \<Longrightarrow> no_links fs (dir @ [f])"
    and "{''EAP_CA'', ''EAP_CERT'', ''EAP_KEY''} \<subseteq> dom (map_of env)"
  shows "\<not> isl (eap_mounts fs' dir env True EAP_FILES vols)"
proof -
  have "isfile fs' (dir @ [f])" if "f \<in> {CA_FILE, CERT_FILE, KEY_FILE}" for f
  proof -
    have f: "f \<in> {EAP_KEY_FILE, EAP_CERT_FILE, EAP_CA_FILE}"
      using that by (auto simp: CA_FILE_def CERT_FILE_def KEY_FILE_def EAP_CA_FILE_def EAP_CERT_FILE_def EAP_KEY_FILE_def)
    have "plain f" using f plain_files(4-6) by blast
    moreover obtain c m where "(f, c, m) \<in> set ?files" using f by auto
    ultimately have "stat fs' (dir @ [f]) = Some (FFile c m)"
      using assms(3) [OF f] by (intro wrote_stat(1) [OF assms(1) _ assms(2)])
    then show ?thesis by (simp add: isfile_def)
  qed
  with assms(4) show ?thesis by (auto simp: EAP_FILES_def env_at_def)
qed

text \<open>
  C15: What \<open>issue_server_cert\<close> installs is what \<open>docker_service.py\<close> mounts. Exactly three files are written, in a
  directory of mode 0700: the key (0600), a certificate for the FQDN that the key of the CA signed, with
  the CA's subject as issuer, and a copy of the CA certificate; and the mounts of the EAP files, which
  fail where one of the three is missing, succeed for that directory.
\<close>

theorem issued_cert_mounts:
  assumes "issue_server_cert k d n fqdn p t w = (Inr v, w')" and "opens (w_fs w) (comps d) root" and "plain n"
    and "\<And>f. f \<in> {EAP_KEY_FILE, EAP_CERT_FILE, EAP_CA_FILE} \<Longrightarrow> no_links (w_fs w) (root @ [n, f])"
  shows "\<exists>ca_pem ca_cert ca_key server_key cert key_pem subject serial nb na.
      read_raw (w_fs w) (ca_cert_path d) = Inr ca_pem \<and> k_load k ca_pem = Inr ca_cert
    \<and> unlock k (ca_key_path d) p (w_fs w) = Inr ca_key
    \<and> k_sign k (server_builder subject (k_subject k ca_cert) fqdn (k_public k server_key) (k_public k ca_key)
        serial nb na) ca_key = Inr cert
    \<and> wrote (w_fs w) (root @ [n]) [(EAP_KEY_FILE, Text key_pem, mode_600),
        (EAP_CERT_FILE, Text (k_pem k cert), mode_644), (EAP_CA_FILE, ca_pem, mode_644)] (w_fs w')
    \<and> resolve_under (w_fs w') (comps d) n = Inr (root @ [n])
    \<and> (\<forall>env vols. {''EAP_CA'', ''EAP_CERT'', ''EAP_KEY''} \<subseteq> dom (map_of env) \<longrightarrow>
        \<not> isl (eap_mounts (w_fs w') (root @ [n]) env True EAP_FILES vols))"
proof -
  obtain cert key_pem ca_pem w1 where plan: "issue_plan k d n fqdn p t w = (Inr (cert, key_pem, ca_pem), w1)"
    and inst: "install_cert d n key_pem (k_pem k cert) ca_pem w1 = (Inr (), w')"
    using assms(1) by (auto simp: issue_split bind_Inr_iff)
  have fs: "w_fs w1 = w_fs w" using keeps_issue_plan plan by (rule keepsD)
  obtain ca_cert ca_key server_key subject serial nb na where safe: "\<not> unsafe_name n"
    and signed: "read_raw (w_fs w) (ca_cert_path d) = Inr ca_pem" "k_load k ca_pem = Inr ca_cert"
      "unlock k (ca_key_path d) p (w_fs w) = Inr ca_key"
      "k_sign k (server_builder subject (k_subject k ca_cert) fqdn (k_public k server_key) (k_public k ca_key)
        serial nb na) ca_key = Inr cert"
    using plan by (rule issue_plan_Inr)
  let ?files = "[(EAP_KEY_FILE, Text key_pem, mode_600), (EAP_CERT_FILE, Text (k_pem k cert), mode_644),
    (EAP_CA_FILE, ca_pem, mode_644)]"
  have wrote: "wrote (w_fs w) (root @ [n]) ?files (w_fs w')"
    using install_cert_Inr [OF inst] assms(2-4) by (simp add: fs)
  have below: "no_links (w_fs w) (root @ [n])"
    using assms(4) [of EAP_KEY_FILE] by (rule no_links_prefix) simp_all
  have dir: "opens (w_fs w) (root @ [n]) (root @ [n])"
    using assms(2,3) below joinrealpath_resolved joinrealpath_fixed [of "w_fs w" "[]" "root @ [n]"]
    unfolding opens_def by fastforce
  have "\<not> isl (eap_mounts (w_fs w') (root @ [n]) env True EAP_FILES vols)"
    if "{''EAP_CA'', ''EAP_CERT'', ''EAP_KEY''} \<subseteq> dom (map_of env)" for env vols
    using assms(4) by (intro eap_files_mount [OF wrote dir _ that]) simp
  moreover have "resolve_under (w_fs w') (comps d) n = Inr (root @ [n])"
  proof (rule resolve_under_name)
    have l: "same_links (w_fs w) (w_fs w')" using wrote by (simp add: wrote_def)
    show "opens (w_fs w') (comps d) root" using l assms(2) by (simp only: opens_same)
    show "no_links (w_fs w') (root @ [n])" using l below by (simp only: no_links_same)
  qed (use assms(3) safe in \<open>auto simp: unsafe_name_def\<close>)
  ultimately show ?thesis using signed wrote by blast
qed

theorem issued_cert_mounts_witness:
  "\<exists>v w' vols. issue_server_cert toy_crypto ''/c'' ''a'' ''radius.lan'' ''pw'' 1095
      (snd (init_ca toy_crypto ''/c'' ''pw'' ''EAP CA'' 3652 dock_world)) = (Inr v, w')
    \<and> eap_mounts (w_fs w') [''c'', ''a'']
        [(''EAP_CA'', ''/1''), (''EAP_CERT'', ''/2''), (''EAP_KEY'', ''/3'')] True EAP_FILES [] = Inr vols"
proof -
  define w where "w = snd (init_ca toy_crypto ''/c'' ''pw'' ''EAP CA'' 3652 dock_world)"
  have "case issue_server_cert toy_crypto ''/c'' ''a'' ''radius.lan'' ''pw'' 1095 w of (r, _) \<Rightarrow> \<not> isl r"
    unfolding w_def by code_simp
  then obtain v w' where run: "issue_server_cert toy_crypto ''/c'' ''a'' ''radius.lan'' ''pw'' 1095 w = (Inr v, w')"
    by (elim obtain_Inr)
  have at: "opens (w_fs w) (comps ''/c'') [''c'']"
    unfolding opens_def w_def by code_simp
  have "list_all (\<lambda>f. no_links (w_fs w) ([''c''] @ [''a'', f])) [EAP_KEY_FILE, EAP_CERT_FILE, EAP_CA_FILE]"
    unfolding w_def by code_simp
  then have nl: "no_links (w_fs w) ([''c''] @ [''a'', f])" if "f \<in> {EAP_KEY_FILE, EAP_CERT_FILE, EAP_CA_FILE}" for f
    using that by auto
  have "plain ''a''" by (simp add: plain_def)
  from issued_cert_mounts [OF run at this nl]
  have "\<forall>env vols. {''EAP_CA'', ''EAP_CERT'', ''EAP_KEY''} \<subseteq> dom (map_of env) \<longrightarrow>
      \<not> isl (eap_mounts (w_fs w') ([''c''] @ [''a'']) env True EAP_FILES vols)"
    by blast
  then have "\<not> isl (eap_mounts (w_fs w') [''c'', ''a'']
      [(''EAP_CA'', ''/1''), (''EAP_CERT'', ''/2''), (''EAP_KEY'', ''/3'')] True EAP_FILES [])"
    by (auto simp: dom_def)
  then show ?thesis using run unfolding w_def by (metis sum.collapse(2))
qed

text \<open>
  C35: A refused request leaves every file alone. If \<open>init_ca\<close> or \<open>issue_server_cert\<close> raises, no file has
  changed, unless the file system itself failed while the new files were written: and then there was no
  CA before \<open>init_ca\<close>, and a CA before \<open>issue_server_cert\<close>.
\<close>

theorem ca_refusals_keep_files:
  assumes "crypto_ok k"
  shows "(init_ca k d p cn n w = (Inl e, w') \<longrightarrow>
      w_fs w' = w_fs w \<or> is_os_error e \<and> stat (w_fs w) (ca_cert_path d) = None)
    \<and> (issue_server_cert k d m fqdn p n w = (Inl e, w') \<longrightarrow>
      w_fs w' = w_fs w \<or> is_os_error e \<and> isfile (w_fs w) (ca_cert_path d) \<and> isfile (w_fs w) (ca_key_path d))"
proof (intro conjI impI)
  assume run: "init_ca k d p cn n w = (Inl e, w')"
  obtain q w1 where q: "init_plan k d p cn n w = (q, w1)" by fastforce
  note fs = keepsD [OF keeps_init_plan q]
  show "w_fs w' = w_fs w \<or> is_os_error e \<and> stat (w_fs w) (ca_cert_path d) = None"
  proof (cases q)
    case (Inr a)
    moreover obtain cert s where "a = (cert, s)" by (cases a)
    ultimately have "init_write d s (k_pem k cert) w1 = (Inl e, w')" and "stat (w_fs w) (ca_cert_path d) = None"
      using run q by (auto simp: init_ca_split run_bind split: prod.splits sum.splits elim: init_plan_Inr)
    then show ?thesis using writes_raise(1) by blast
  qed (use run q fs in \<open>auto simp: init_ca_split run_bind\<close>)
next
  assume run: "issue_server_cert k d m fqdn p n w = (Inl e, w')"
  obtain q w1 where q: "issue_plan k d m fqdn p n w = (q, w1)" by fastforce
  note fs = keepsD [OF keeps_issue_plan q]
  show "w_fs w' = w_fs w \<or> is_os_error e \<and> isfile (w_fs w) (ca_cert_path d) \<and> isfile (w_fs w) (ca_key_path d)"
  proof (cases q)
    case (Inr a)
    moreover obtain cert s c where a: "a = (cert, s, c)" by (cases a)
    ultimately have plan: "issue_plan k d m fqdn p n w = (Inr (cert, s, c), w1)" using q by simp
    then have "isfile (w_fs w) (ca_cert_path d) \<and> isfile (w_fs w) (ca_key_path d)"
      unfolding issue_plan_def by (auto simp: bind_Inr_iff safe_name_run split: if_splits)
    moreover have "\<exists>v. describe_server k cert = Inr v"
      using describe_server_Inr [OF assms] issue_plan_Inr [OF plan] by metis
    moreover from this have "install_cert d m s (k_pem k cert) c w1 = (Inl e, w')"
      using run plan by (auto simp: issue_split run_bind split: prod.splits sum.splits)
    ultimately show ?thesis using writes_raise(2) by blast
  qed (use run q fs in \<open>auto simp: issue_split run_bind\<close>)
qed

theorem ca_refusals_keep_files_witness:
  "\<exists>e w'. issue_server_cert toy_crypto ''/c'' ''a'' ''radius.lan'' ''pw'' 1095 dock_world = (Inl e, w')
    \<and> w_fs w' = w_fs dock_world"
proof -
  have "case issue_server_cert toy_crypto ''/c'' ''a'' ''radius.lan'' ''pw'' 1095 dock_world of
      (Inl e, _) \<Rightarrow> True | _ \<Rightarrow> False" by code_simp
  then obtain e w' where run: "issue_server_cert toy_crypto ''/c'' ''a'' ''radius.lan'' ''pw'' 1095 dock_world = (Inl e, w')"
    by (auto split: prod.splits sum.splits)
  have "\<not> isfile (w_fs dock_world) (ca_cert_path ''/c'')" by code_simp
  with ca_refusals_keep_files [OF toy_ok] run show ?thesis by blast
qed

text \<open>
  C36: Pinning a domain controller's CA. The bundle is stored as it was sent, as \<open>ldap-ca.pem\<close> with mode 0600,
  only if every certificate in it could be described; the answer claims a trust anchor exactly if a
  certificate of the bundle is its own issuer; \<open>docker_service.py\<close> then finds the file under the name that
  was answered. A bundle that does not parse changes no file.
\<close>

theorem write_ldap_ca_pins:
  assumes "write_ldap_ca k d n pem w = (r, w')" and "opens (w_fs w) (comps d) root" and "plain n"
    and "no_links (w_fs w) (root @ [n, LDAP_CA_FILE])"
  shows "case r of
      Inl e \<Rightarrow> w_fs w' = w_fs w \<or> is_os_error e
    | Inr v \<Rightarrow> \<exists>cs. k_load_all k pem = Inr cs \<and> describe_all k cs = Inr (pi_certificates v)
        \<and> (pi_trust_anchor v \<longleftrightarrow> (\<exists>c \<in> set cs. k_subject k c = k_issuer k c))
        \<and> wrote (w_fs w) (root @ [n]) [(pi_file v, Text pem, mode_600)] (w_fs w')
        \<and> (\<exists>p. resolve_under (w_fs w') (root @ [n]) (pi_file v) = Inr p \<and> isfile (w_fs w') p)"
proof -
  have all: "describe_all k cs = Inr vs \<Longrightarrow> list_ex bc_trust_anchor vs \<longleftrightarrow> (\<exists>c \<in> set cs. k_subject k c = k_issuer k c)"
    for cs vs
    by (induction cs arbitrary: vs) (auto simp: bindE_Inr_iff describe_bundle_cert_def)
  show ?thesis
  proof (cases r)
    case (Inl e)
    then show ?thesis
      using assms(1)
      by (auto dest: steps_raise simp: write_ldap_ca_def run_bind safe_name_run split: prod.splits sum.splits if_splits)
  next
    case (Inr v)
    then obtain certs w1 where certs: "describe_pem_bundle k pem = Inr certs"
      and 1: "private_dir (comps d @ [n]) w = (Inr (), w1)"
      and 2: "write_to (comps d @ [n, LDAP_CA_FILE]) (Text pem) mode_600 w1 = (Inr (), w')"
      and v: "v = \<lparr> pi_file = LDAP_CA_FILE, pi_certificates = certs, pi_trust_anchor = list_ex bc_trust_anchor certs \<rparr>"
      using assms(1) by (auto simp: write_ldap_ca_def bind_Inr_iff safe_name_run split: if_splits)
    obtain cs where cs: "k_load_all k pem = Inr cs" "describe_all k cs = Inr certs"
      using certs by (auto simp: describe_pem_bundle_def bindE_Inr_iff split: sum.splits)
    have dir: "no_links (w_fs w) (root @ [n])" using assms(4) by (rule no_links_prefix) simp
    have wrote: "wrote (w_fs w) (root @ [n]) [(LDAP_CA_FILE, Text pem, mode_600)] (w_fs w')"
      using wrote_file [OF wrote_dir [OF 1 assms(2) dir assms(3)] 2 assms(2,4,3)] by simp
    have "opens (w_fs w) (root @ [n]) (root @ [n])"
      using assms(2,3) dir joinrealpath_resolved joinrealpath_fixed [of "w_fs w" "[]" "root @ [n]"]
      unfolding opens_def by fastforce
    note pinned = wrote_stat [OF wrote _ this, of LDAP_CA_FILE "Text pem" mode_600]
    have "CHR ''/'' \<notin> set LDAP_CA_FILE" by (simp add: LDAP_CA_FILE_def)
    then have "resolve_under (w_fs w') (root @ [n]) LDAP_CA_FILE = Inr ((root @ [n]) @ [LDAP_CA_FILE])"
      using pinned(2,3) assms(4) by (intro resolve_under_name) simp_all
    moreover have "isfile (w_fs w') ((root @ [n]) @ [LDAP_CA_FILE])"
      using pinned(1) assms(4) by (simp add: isfile_def)
    ultimately have "\<exists>p. resolve_under (w_fs w') (root @ [n]) LDAP_CA_FILE = Inr p \<and> isfile (w_fs w') p" by blast
    with Inr v cs all [OF cs(2)] wrote show ?thesis by simp
  qed
qed

theorem write_ldap_ca_pins_witness:
  "\<exists>v w'. write_ldap_ca toy_crypto ''/c'' ''a'' ''DC|DC'' dock_world = (Inr v, w') \<and> pi_trust_anchor v"
proof -
  have "case write_ldap_ca toy_crypto ''/c'' ''a'' ''DC|DC'' dock_world of (r, _) \<Rightarrow> \<not> isl r" by code_simp
  then obtain v w' where run: "write_ldap_ca toy_crypto ''/c'' ''a'' ''DC|DC'' dock_world = (Inr v, w')"
    by (elim obtain_Inr)
  have at: "opens (w_fs dock_world) (comps ''/c'') [''c'']" unfolding opens_def by code_simp
  have nl: "no_links (w_fs dock_world) ([''c''] @ [''a'', LDAP_CA_FILE])" by code_simp
  have "plain ''a''" by (simp add: plain_def)
  from write_ldap_ca_pins [OF run at this nl] obtain cs where "k_load_all toy_crypto ''DC|DC'' = Inr cs"
    and "pi_trust_anchor v \<longleftrightarrow> (\<exists>c \<in> set cs. k_subject toy_crypto c = k_issuer toy_crypto c)" by auto
  then have "pi_trust_anchor v" by (auto simp: toy_crypto_def toy_load_all_def)
  with run show ?thesis by blast
qed

end
