(* ===== verification/Health.thy ===== *)
theory Health
  imports Updater
begin

text \<open>
  The polling loops, from outside: how often a loop looks at its container, and that a container which becomes
  healthy in time is seen.
\<close>

section \<open>How often a loop looks\<close>

text \<open>The lookups of containers made so far.\<close>

definition is_look :: "call \<Rightarrow> bool" where
  "is_look c = (case c of CGet _ \<Rightarrow> True | _ \<Rightarrow> False)"

definition looks :: "('g, 'd) world \<Rightarrow> nat" where
  "looks w = length (filter is_look (w_log w))"

lemma looks_engine: "\<not> is_look c \<Longrightarrow> keeps looks (engine c f)"
  by (simp add: keeps_def run_engine looks_def)

lemma looks_get_container: "get_container x n w = (r, w') \<Longrightarrow> looks w' = Suc (looks w)"
  by (auto simp: get_container_def run_try run_bind run_engine looks_def is_look_def split: sum.splits if_splits)

lemma status_looks: "status x n w = (r, w') \<Longrightarrow> looks w' = Suc (looks w)"
proof -
  assume run: "status x n w = (r, w')"
  obtain q w1 where q: "get_container x n w = (q, w1)" by fastforce
  have "keeps looks (last_error x c)" for c
    unfolding last_error_def
    by (intro keeps_bind keeps_try keeps_if keeps_return keeps_raise looks_engine) (simp add: is_look_def)
  then have rest: "keeps looks (bindP (engine (CReload c) (x_reload x c)) (\<lambda>attrs.
         bindP (liftP (state_view attrs)) (\<lambda>v.
         bindP (engine (CImage c) (x_image x c)) (\<lambda>tags.
         bindP (if vw_crash_looping v then bindP (last_error x c) (\<lambda>l. returnP (Some l)) else returnP None)
           (\<lambda>err. returnP (f v tags err))))))" for c f
    by (intro keeps_bind keeps_if keeps_return keeps_lift looks_engine) (simp_all add: is_look_def)
  from run q have "looks w' = looks w1"
    by (cases q) (auto simp: status_def run_bind [of "get_container _ _"] split: option.splits dest!: keepsD [OF rest])
  with looks_get_container [OF q] show ?thesis by simp
qed

text \<open>The number of rounds is bounded by the time to the deadline, whatever the fuel.\<close>

lemma poll_looks:
  assumes "clock_ok x" and "timely x m" and "0 < pause"
    and "\<And>w r w'. m w = (r, w') \<Longrightarrow> looks w' = Suc (looks w)"
    and "deadline - x_now x (w_dk w) \<le> int k * pause"
    and "poll x m halt late pause deadline fuel w = (r, w')"
  shows "looks w' \<le> looks w + k + 1"
  using assms(5,6)
proof (induction fuel arbitrary: w k)
  case (Suc fuel)
  obtain q w1 where m: "m w = (q, w1)" by (cases "m w")
  note t = timelyD [OF assms(2) m] and one = assms(4) [OF m]
  show ?case
  proof (cases "\<exists>st. q = Inr st \<and> halt st = None \<and> \<not> deadline \<le> x_now x (w_dk w1)")
    case False
    with m Suc.prems(2) have "w' = w1"
      by (cases q) (auto simp: run_bind now_def split: option.splits if_splits)
    with one show ?thesis by simp
  next
    case True
    let ?w2 = "w1 \<lparr> w_dk := x_sleep x pause (w_dk w1) \<rparr>"
    have run: "poll x m halt late pause deadline fuel ?w2 = (r, w')"
      using True m Suc.prems(2) by (auto simp: run_bind [of m] now_def sleep_def)
    have "x_now x (w_dk w1) + pause \<le> x_now x (w_dk ?w2)" using assms(1) by (simp add: clock_ok_def)
    moreover have "0 < int k * pause" using t Suc.prems(1) True by linarith
    then obtain j where k: "k = Suc j" by (cases k) auto
    ultimately have "deadline - x_now x (w_dk ?w2) \<le> int j * pause"
      using t Suc.prems(1) by (simp add: algebra_simps)
    from Suc.IH [OF this run] one k show ?thesis by (simp add: looks_def)
  qed
qed simp

section \<open>What a loop sees\<close>

text \<open>The state in which the \<open>k\<close>-th round starts, if all rounds before it went on.\<close>

primrec nth_round :: "('g, 'd) ext \<Rightarrow> ('g, 'd, 's) run \<Rightarrow> int \<Rightarrow> nat \<Rightarrow> ('g, 'd) world \<Rightarrow> ('g, 'd) world" where
  "nth_round x m pause 0 w = w"
| "nth_round x m pause (Suc k) w =
     nth_round x m pause k (snd (m w) \<lparr> w_dk := x_sleep x pause (w_dk (snd (m w))) \<rparr>)"

definition goes_on :: "('g, 'd) ext \<Rightarrow> ('g, 'd, 's) run \<Rightarrow> ('s \<Rightarrow> 'a option) \<Rightarrow> int \<Rightarrow> ('g, 'd) world \<Rightarrow> bool" where
  "goes_on x m halt deadline w \<longleftrightarrow>
     (case m w of (Inl _, _) \<Rightarrow> False | (Inr st, w') \<Rightarrow> halt st = None \<and> x_now x (w_dk w') < deadline)"

lemma poll_reaches:
  assumes "clock_ok x" and "timely x m" and "0 < pause"
    and "deadline - x_now x (w_dk w) \<le> int f * pause"
    and "\<And>j. j < k \<Longrightarrow> goes_on x m halt deadline (nth_round x m pause j w)"
    and "m (nth_round x m pause k w) = (Inr st, w')" and "halt st = Some a"
  shows "poll x m halt late pause deadline (Suc f) w = (Inr a, w')"
  using assms(4-6)
proof (induction k arbitrary: w f)
  case 0
  with assms(7) show ?case by (simp add: run_bind)
next
  case (Suc k)
  obtain q w1 where m: "m w = (q, w1)" by (cases "m w")
  with Suc.prems(2) [of 0] obtain st0 where q: "q = Inr st0" "halt st0 = None" "x_now x (w_dk w1) < deadline"
    by (auto simp: goes_on_def split: sum.splits)
  let ?w2 = "w1 \<lparr> w_dk := x_sleep x pause (w_dk w1) \<rparr>"
  have slept: "x_now x (w_dk w1) + pause \<le> x_now x (w_dk ?w2)" using assms(1) by (simp add: clock_ok_def)
  have "0 < int f * pause" using timelyD [OF assms(2) m] Suc.prems(1) q(3) by linarith
  then obtain g where f: "f = Suc g" by (cases f) auto
  have "deadline - x_now x (w_dk ?w2) \<le> int g * pause"
    using timelyD [OF assms(2) m] Suc.prems(1) slept f by (simp add: algebra_simps)
  moreover have "goes_on x m halt deadline (nth_round x m pause j ?w2)" if "j < k" for j
    using Suc.prems(2) [of "Suc j"] that m by simp
  moreover have "m (nth_round x m pause k ?w2) = (Inr st, w')" using Suc.prems(3) m by simp
  ultimately have "poll x m halt late pause deadline (Suc g) ?w2 = (Inr a, w')" by (rule Suc.IH)
  with m q f show ?case
    unfolding poll.simps(2) [of _ _ _ _ _ _ f] by (simp add: run_bind [of m] now_def sleep_def del: poll.simps)
qed

section \<open>Properties\<close>

text \<open>
  C30: The health poll of an update is bounded. Whatever the fuel of the model, and whatever the engine answers,
  a timeout of \<open>k\<close> intervals makes the loop look at the container at most \<open>k + 1\<close> times (41 times for the
  120 s and 3 s of the code); more fuel than \<open>k\<close> is never used up; and the loop gives up only on a status that
  says so, or when the whole timeout has passed.
\<close>

theorem health_poll_bounded:
  assumes "clock_ok x" and "0 < up_poll_interval u" and "up_health_timeout u \<le> int k * up_poll_interval u"
    and "wait_healthy x u n w = (r, w')"
  shows "looks w' \<le> looks w + k + 1 \<and> (k < up_fuel u \<longrightarrow> r \<noteq> Inl NoFuel)
    \<and> (r = Inr False \<longrightarrow> (\<exists>w1 st. status x n w1 = (Inr st, w')
        \<and> (health_verdict st = Some False \<or> x_now x (w_dk w) + up_health_timeout u \<le> x_now x (w_dk w'))))"
proof -
  let ?deadline = "x_now x (w_dk w) + up_health_timeout u"
  let ?poll = "poll x (status x n) health_verdict (\<lambda>_. False) (up_poll_interval u) ?deadline"
  have run: "?poll (up_fuel u) w = (r, w')" using assms(4) by (simp add: wait_healthy_def now_def health_loop_poll)
  note clock = assms(1) timely_status [OF assms(1)] assms(2)
  have "looks w' \<le> looks w + k + 1"
    using poll_looks [OF clock status_looks _ run] assms(3) by simp
  moreover have "r \<noteq> Inl NoFuel" if "k < up_fuel u"
  proof -
    obtain f where f: "up_fuel u = Suc f" using \<open>k < up_fuel u\<close> by (cases "up_fuel u") auto
    then have "int k * up_poll_interval u \<le> int f * up_poll_interval u" using that assms(2) by simp
    with assms(3) have "?deadline - x_now x (w_dk w) \<le> int f * up_poll_interval u" by linarith
    from poll_ends [OF clock this run [unfolded f]] show ?thesis by simp
  qed
  moreover have "\<exists>w1 st. status x n w1 = (Inr st, w') \<and> (health_verdict st = Some False \<or> ?deadline \<le> x_now x (w_dk w'))"
    if "r = Inr False" using poll_last [OF run [unfolded that]] by blast
  ultimately show ?thesis by blast
qed

theorem health_poll_bounded_witness:
  "\<exists>r w'. wait_healthy dock_ext default_updater ''a'' dock_world = (r, w') \<and> looks w' \<le> 41 \<and> r \<noteq> Inl NoFuel"
proof -
  obtain r w' where run: "wait_healthy dock_ext default_updater ''a'' dock_world = (r, w')" by fastforce
  have "looks dock_world = 0" by (simp add: looks_def dock_world_def)
  with health_poll_bounded [OF sim_clock _ _ run, of 40] run show ?thesis by (auto simp: default_updater_def)
qed

text \<open>
  C9: A good update gets through. If the container of the new image starts, and in some round of the poll it is
  healthy, with every round before it undecided and before the deadline, then the update succeeds: it
  reports the new image and the one before, the record has the new image, and the update ends with that
  round, without waiting on or going back.
\<close>

theorem healthy_in_time_updates:
  assumes "clock_ok x" and "0 < up_poll_interval u" and "0 < up_fuel u"
    and "up_health_timeout u \<le> (int (up_fuel u) - 1) * up_poll_interval u"
    and "look_inst x w (i_name i) = Inr (Some i)" and "storable x (with_image i img)"
    and "apply_inst x c (with_image i img)
      (w \<lparr> w_insts := AList.update (prev_file (i_name i)) (Text (i_image i)) (w_insts w) \<rparr>) = (Inr st0, w1)"
    and "\<And>j. j < k \<Longrightarrow> goes_on x (status x (i_name i)) health_verdict (x_now x (w_dk w1) + up_health_timeout u)
      (nth_round x (status x (i_name i)) (up_poll_interval u) j w1)"
    and "status x (i_name i) (nth_round x (status x (i_name i)) (up_poll_interval u) k w1) = (Inr st, w2)"
    and "st_health st = Some ''healthy''"
  shows "\<exists>res. update_image x c u (i_name i) img w = (Inr res, w2)
    \<and> ur_updated res \<and> ur_image res = Some img \<and> ur_previous_image res = Some (i_image i)
    \<and> look_inst x w2 = (look_inst x w)(i_name i := Inr (Some (with_image i img)))"
proof -
  let ?n = "i_name i"
  let ?w0 = "w \<lparr> w_insts := AList.update (prev_file ?n) (Text (i_image i)) (w_insts w) \<rparr>"
  obtain f where f: "up_fuel u = Suc f" using assms(3) by (cases "up_fuel u") auto
  have "poll x (status x ?n) health_verdict (\<lambda>_. False) (up_poll_interval u)
      (x_now x (w_dk w1) + up_health_timeout u) (Suc f) w1 = (Inr True, w2)"
    by (rule poll_reaches [OF assms(1) timely_status [OF assms(1)] assms(2) _ assms(8,9)])
      (use assms(4,10) f in \<open>simp_all add: health_verdict_def\<close>)
  then have healthy: "wait_healthy x u ?n w1 = (Inr True, w2)"
    by (simp add: wait_healthy_def now_def health_loop_poll f del: poll.simps)
  obtain r w' where run: "update_image x c u ?n img w = (r, w')" by fastforce
  from update_runs [OF run assms(5) refl assms(7)] healthy have
    "w' = w2" "r = Inr ((blank_result ?n) \<lparr> ur_updated := True, ur_image := Some img, ur_previous_image := Some (i_image i) \<rparr>)"
    by simp_all
  moreover have "look_inst x w2 = (look_inst x w)(?n := Inr (Some (with_image i img)))"
  proof -
    have "keeps (look_inst x) (wait_healthy x u ?n)" by (intro keeps_wait_healthy) simp
    from keepsD [OF this healthy] apply_look [OF assms(6,7)] show ?thesis by simp
  qed
  ultimately show ?thesis using run by simp
qed

text \<open>For the witness, an engine whose containers take two seconds to get healthy.\<close>

definition slow_reload :: "string \<Rightarrow> sim \<Rightarrow> (pyerr + (pyval \<times> pyval) list) \<times> sim" where
  "slow_reload c d = (Inr (if d_clock d < 2000 then starting_attrs else healthy_attrs), d)"

definition slow_ext :: "(unit, sim) ext" where
  "slow_ext = dock_ext \<lparr> x_reload := slow_reload \<rparr>"

definition hasty_conf :: conf where
  "hasty_conf = sample_conf \<lparr> c_settle_timeout := 0 \<rparr>"

lemma slow_clock: "clock_ok slow_ext"
  by (auto simp: clock_ok_def slow_ext_def slow_reload_def sim_defs split: option.splits)

lemma slow_start:
  "case apply_inst slow_ext hasty_conf (with_image dock_inst ''s:1'')
      (dock_world \<lparr> w_insts := AList.update (prev_file (i_name dock_inst)) (Text (i_image dock_inst)) (w_insts dock_world) \<rparr>) of
    (Inl e, w1) \<Rightarrow> False
  | (Inr st0, w1) \<Rightarrow>
      goes_on slow_ext (status slow_ext (i_name dock_inst)) health_verdict
        (x_now slow_ext (w_dk w1) + up_health_timeout default_updater) w1
      \<and> (case status slow_ext (i_name dock_inst)
           (nth_round slow_ext (status slow_ext (i_name dock_inst)) (up_poll_interval default_updater) (Suc 0) w1) of
          (Inl e, w2) \<Rightarrow> False | (Inr st, w2) \<Rightarrow> st_health st = Some ''healthy'')"
  by code_simp

theorem healthy_in_time_updates_witness:
  "\<exists>res w2. update_image slow_ext hasty_conf default_updater ''a'' ''s:1'' dock_world = (Inr res, w2) \<and> ur_updated res"
proof -
  let ?n = "i_name dock_inst"
  let ?w0 = "dock_world \<lparr> w_insts := AList.update (prev_file ?n) (Text (i_image dock_inst)) (w_insts dock_world) \<rparr>"
  have name: "?n = ''a''" by (simp add: dock_inst_def)
  obtain st0 w1 st w2 where run: "apply_inst slow_ext hasty_conf (with_image dock_inst ''s:1'') ?w0 = (Inr st0, w1)"
    and first: "goes_on slow_ext (status slow_ext ?n) health_verdict
        (x_now slow_ext (w_dk w1) + up_health_timeout default_updater) w1"
    and second: "status slow_ext ?n (nth_round slow_ext (status slow_ext ?n) (up_poll_interval default_updater) (Suc 0) w1) = (Inr st, w2)"
    and healthy: "st_health st = Some ''healthy''"
    using slow_start by (auto split: prod.splits sum.splits simp del: nth_round.simps)
  have look: "look_inst slow_ext dock_world ?n = Inr (Some dock_inst)" by code_simp
  have st: "storable slow_ext (with_image dock_inst ''s:1'')" by code_simp
  have "goes_on slow_ext (status slow_ext ?n) health_verdict (x_now slow_ext (w_dk w1) + up_health_timeout default_updater)
      (nth_round slow_ext (status slow_ext ?n) (up_poll_interval default_updater) j w1)" if "j < Suc 0" for j
    using that first by simp
  from healthy_in_time_updates [OF slow_clock _ _ _ look st run this second healthy]
  show ?thesis by (auto simp: name default_updater_def)
qed

end
