(* ===== verification/Api.thy ===== *)
theory Api
  imports CertAuth Updater
begin

text \<open>
  \<open>api.py\<close> and \<open>security.py\<close>: the routes of the control plane. A request is the route it is for, with its
  path and query parameters and its body as pydantic types them; FastAPI's own refusals (an unknown
  path, malformed JSON, values of the wrong type) happen before. A handler raises an \<open>HTTPException\<close> with
  its status, or lets an exception of the components pass, which the registered handlers turn into a
  status; the details of error answers are texts and left out. Audit lines are no effect of the model.
\<close>

section \<open>Requests and answers\<close>

datatype request =
    Health
  | Version
  | ReconcileAll
  | UpdateAll
  | CreateInstance inst_create
  | ListInstances
  | GetInstance string
  | PatchInstance string inst_patch
  | DeleteInstance string
  | SetLdapCa string string
  | StartInstance string
  | StopInstance string
  | RestartInstance string
  | InstanceStatus string
  | InstanceLogs string int "int option" "int option" "string option"
  | UpdateInstance string string
  | RollbackInstance string
  | InitCa ca_init_request
  | GetCa
  | ExportCa
  | TestInstance string test_request
  | IssueCert string cert_issue_request
  | GetCert string

datatype payload =
    HealthOk
  | VersionIs string
  | Reconciled "status list"
  | Results "update_result list"
  | Applied inst status "pinned option"
  | Instances "inst list"
  | OneInstance inst
  | Removed string leave_result
  | StatusIs status
  | LogText string
  | Updated update_result
  | RolledBack string string
  | CaIs ca_view
  | PemText string
  | Tested test_result
  | CertIs server_view

text \<open>What a handler raises: an \<open>HTTPException\<close> of a status, or an exception of a component.\<close>

datatype api_error = Http int | Raised pyerr

type_synonym ('g, 'd, 'a) handler = "(('g, 'd) world, api_error, 'a) prog"

text \<open>
  The application: its token, the version of the installed package, and the components that \<open>main\<close> gives to
  \<open>create_app\<close>; the certificates directory is the one of the Docker service.
\<close>

record app =
  a_token :: string
  a_version :: string
  a_conf :: conf
  a_updater :: updater

definition a_certs_dir :: "app \<Rightarrow> string" where
  "a_certs_dir a = c_certs_dir (a_conf a)"

text \<open>A component's operation in a handler, and one with \<open>except\<close> clauses.\<close>

definition service_or :: "(pyerr \<Rightarrow> api_error) \<Rightarrow> ('g, 'd, 'a) run \<Rightarrow> ('g, 'd, 'a) handler" where
  "service_or h m = (\<lambda>w. case m w of (Inl e, w') \<Rightarrow> (Inl (h e), w') | (Inr a, w') \<Rightarrow> (Inr a, w'))"

abbreviation service :: "('g, 'd, 'a) run \<Rightarrow> ('g, 'd, 'a) handler" where
  "service \<equiv> service_or Raised"

section \<open>Guards\<close>

text \<open>\<open>credentials\<close> is what \<open>HTTPBearer(auto_error=False)\<close> read from the request.\<close>

definition verify_token :: "app \<Rightarrow> string option \<Rightarrow> ('g, 'd, unit) handler" where
  "verify_token a credentials =
     (case credentials of
        None \<Rightarrow> raiseP (Http 401)
      | Some c \<Rightarrow> if c = [] then raiseP (Http 401)
                  else if c \<noteq> a_token a then raiseP (Http 403)
                  else returnP ())"

text \<open>The dependencies of a route come before its body is validated, and both before the handler.\<close>

definition secured ::
  "app \<Rightarrow> string option \<Rightarrow> string list \<Rightarrow> ('g, 'd, payload) handler \<Rightarrow> ('g, 'd, payload) handler" where
  "secured a credentials errors h =
     bindP (verify_token a credentials) (\<lambda>_. if errors \<noteq> [] then raiseP (Http 422) else h)"

definition NAME_PARAM_RE :: re where
  "NAME_PARAM_RE = name_re"

definition require :: "('g, 'd) ext \<Rightarrow> string \<Rightarrow> ('g, 'd, inst) handler" where
  "require x name =
     (if \<not> re_test NAME_PARAM_RE name then raiseP (Http 422)
      else bindP (service (store_get x name)) (\<lambda>found.
        case found of None \<Rightarrow> raiseP (Http 404) | Some i \<Rightarrow> returnP i))"

definition check_log_params :: "int \<Rightarrow> string option \<Rightarrow> ('g, 'd, unit) handler" where
  "check_log_params tail grep =
     (if \<not> (1 \<le> tail \<and> tail \<le> 10000) then raiseP (Http 422)
      else if (case grep of None \<Rightarrow> False | Some g \<Rightarrow> 200 < length g) then raiseP (Http 422)
      else returnP ())"

text \<open>\<open>Instance.model_validate\<close>; inside a handler its failure is no request error.\<close>

definition validated :: "inst \<Rightarrow> ('g, 'd, inst) handler" where
  "validated i = (case model_validate i of Inl _ \<Rightarrow> raiseP (Raised ValidationErr) | Inr j \<Rightarrow> returnP j)"

section \<open>Instances\<close>

definition pin_ldap_ca ::
  "('k, 'p, 'n, 'c, 'd) crypto \<Rightarrow> app \<Rightarrow> string \<Rightarrow> string \<Rightarrow> ('g, 'd, pinned) handler" where
  "pin_ldap_ca k a name pem =
     service_or (\<lambda>e. if is_value_error e then Http 422 else Raised e) (write_ldap_ca k (a_certs_dir a) name pem)"

definition create_instance ::
  "('k, 'p, 'n, 'c, 'd) crypto \<Rightarrow> ('g, 'd) ext \<Rightarrow> app \<Rightarrow> inst_create \<Rightarrow> ('g, 'd, payload) handler" where
  "create_instance k x a body =
     bindP (validated (c_inst body)) (\<lambda>i.
     bindP (case c_ldap_ca_pem body of
              Some pem \<Rightarrow> bindP (pin_ldap_ca k a (i_name i) pem) (\<lambda>p.
                returnP (i \<lparr> i_ldap_ca := Some (pi_file p) \<rparr>, Some p))
            | None \<Rightarrow> if is_ldaps (i_ldap_server i) \<and> i_ldap_ca i = None then raiseP (Http 422)
                      else returnP (i, None)) (\<lambda>(i, pinned).
     bindP (service (apply_inst x (a_conf a) i)) (\<lambda>st.
     returnP (Applied i st pinned))))"

text \<open>
  The merge of a PATCH: a field that is left out keeps its value; an explicit null is a value of the
  merged record, which only \<open>ldap_ca\<close> accepts.
\<close>

definition merged_field :: "'a \<Rightarrow> 'a option option \<Rightarrow> 'a option" where
  "merged_field old new = (case new of None \<Rightarrow> Some old | Some v \<Rightarrow> v)"

definition merge_patch :: "inst \<Rightarrow> inst_patch \<Rightarrow> inst option" where
  "merge_patch i p =
     (case (merged_field (i_realm i) (p_realm p), merged_field (i_workgroup i) (p_workgroup p),
            merged_field (i_server_fqdn i) (p_server_fqdn p), merged_field (i_ldap_server i) (p_ldap_server p),
            merged_field (i_ldap_base_dn i) (p_ldap_base_dn p), merged_field (i_ldap_bind_dn i) (p_ldap_bind_dn p),
            merged_field (i_wifi_group i) (p_wifi_group p)) of
       (Some realm, Some workgroup, Some fqdn, Some server, Some base_dn, Some bind_dn, Some wifi) \<Rightarrow>
         (case (merged_field (i_client_subnets i) (p_client_subnets p), merged_field (i_ssids i) (p_ssids p),
                merged_field (i_join_secret i) (p_join_secret p),
                merged_field (i_ldap_bind_secret i) (p_ldap_bind_secret p),
                merged_field (i_radius_secret i) (p_radius_secret p), merged_field (i_image i) (p_image p)) of
           (Some subnets, Some ssids, Some join_secret, Some bind_secret, Some radius_secret, Some img) \<Rightarrow>
             Some (i \<lparr> i_realm := realm, i_workgroup := workgroup, i_server_fqdn := fqdn, i_ldap_server := server,
               i_ldap_base_dn := base_dn, i_ldap_bind_dn := bind_dn, i_wifi_group := wifi,
               i_client_subnets := subnets, i_ssids := ssids, i_join_secret := join_secret,
               i_ldap_bind_secret := bind_secret, i_radius_secret := radius_secret, i_image := img,
               i_ldap_ca := (case p_ldap_ca p of None \<Rightarrow> i_ldap_ca i | Some v \<Rightarrow> v) \<rparr>)
         | _ \<Rightarrow> None)
     | _ \<Rightarrow> None)"

text \<open>The only validators of a PATCH body are those of its SSIDs.\<close>

definition patch_errors :: "inst_patch \<Rightarrow> string list" where
  "patch_errors p = (case p_ssids p of Some (Some ssids) \<Rightarrow> concat (map ssid_errors ssids) | _ \<Rightarrow> [])"

definition patch_instance ::
  "('g, 'd) ext \<Rightarrow> app \<Rightarrow> string \<Rightarrow> inst_patch \<Rightarrow> ('g, 'd, payload) handler" where
  "patch_instance x a name patch =
     bindP (require x name) (\<lambda>existing.
     bindP (case merge_patch existing patch of
              None \<Rightarrow> raiseP (Raised ValidationErr) | Some i \<Rightarrow> validated i) (\<lambda>merged.
     bindP (service (apply_inst x (a_conf a) merged)) (\<lambda>st.
     returnP (Applied merged st None))))"

definition delete_instance :: "('g, 'd) ext \<Rightarrow> app \<Rightarrow> string \<Rightarrow> ('g, 'd, payload) handler" where
  "delete_instance x a name =
     bindP (require x name) (\<lambda>_.
     bindP (service (recon_remove x (a_conf a) name)) (\<lambda>leave. returnP (Removed name leave)))"

definition set_ldap_ca ::
  "('k, 'p, 'n, 'c, 'd) crypto \<Rightarrow> ('g, 'd) ext \<Rightarrow> app \<Rightarrow> string \<Rightarrow> string \<Rightarrow> ('g, 'd, payload) handler" where
  "set_ldap_ca k x a name pem =
     bindP (require x name) (\<lambda>existing.
     bindP (pin_ldap_ca k a name pem) (\<lambda>p.
     bindP (service (apply_inst x (a_conf a) (existing \<lparr> i_ldap_ca := Some (pi_file p) \<rparr>))) (\<lambda>st.
     returnP (Applied (existing \<lparr> i_ldap_ca := Some (pi_file p) \<rparr>) st (Some p)))))"

definition lifecycle ::
  "('g, 'd) ext \<Rightarrow> string \<Rightarrow> (string \<Rightarrow> ('g, 'd, status) run) \<Rightarrow> ('g, 'd, payload) handler" where
  "lifecycle x name f = bindP (require x name) (\<lambda>_. bindP (service (f name)) (\<lambda>st. returnP (StatusIs st)))"

definition instance_logs ::
  "('g, 'd) ext \<Rightarrow> string \<Rightarrow> int \<Rightarrow> int option \<Rightarrow> int option \<Rightarrow> string option \<Rightarrow> ('g, 'd, payload) handler" where
  "instance_logs x name tail since until grep =
     bindP (require x name) (\<lambda>_.
     bindP (check_log_params tail grep) (\<lambda>_.
     bindP (service (logs_of x name tail since until grep)) (\<lambda>text. returnP (LogText text))))"

definition update_instance :: "('g, 'd) ext \<Rightarrow> app \<Rightarrow> string \<Rightarrow> string \<Rightarrow> ('g, 'd, payload) handler" where
  "update_instance x a name img =
     bindP (require x name) (\<lambda>_.
     bindP (service (update_image x (a_conf a) (a_updater a) name img)) (\<lambda>r. returnP (Updated r)))"

definition rollback_instance :: "('g, 'd) ext \<Rightarrow> app \<Rightarrow> string \<Rightarrow> ('g, 'd, payload) handler" where
  "rollback_instance x a name =
     bindP (require x name) (\<lambda>_.
     bindP (service_or (\<lambda>e. if e = FileNotFound then Http 409 else Raised e) (rollback x (a_conf a) name))
       (\<lambda>(n, img). returnP (RolledBack n img)))"

definition test_instance ::
  "('g, 'd) ext \<Rightarrow> string \<Rightarrow> test_request \<Rightarrow> ('g, 'd, payload) handler" where
  "test_instance x name body =
     bindP (require x name) (\<lambda>i.
     bindP (service (test x i (t_user body) (t_password body))) (\<lambda>r. returnP (Tested r)))"

section \<open>The certificate authority\<close>

definition found_or :: "int \<Rightarrow> 'a option \<Rightarrow> ('g, 'd, 'a) handler" where
  "found_or s r = (case r of None \<Rightarrow> raiseP (Http s) | Some v \<Rightarrow> returnP v)"

definition init_ca_route ::
  "('k, 'p, 'n, 'c, 'd) crypto \<Rightarrow> app \<Rightarrow> ca_init_request \<Rightarrow> ('g, 'd, payload) handler" where
  "init_ca_route k a body =
     bindP (service_or (\<lambda>e. if e = FileExists then Http 409 else if is_value_error e then Http 422 else Raised e)
       (init_ca k (a_certs_dir a) (ci_passphrase body) (ci_common_name body) (ci_validity_days body)))
       (\<lambda>v. returnP (CaIs v))"

definition get_ca :: "('k, 'p, 'n, 'c, 'd) crypto \<Rightarrow> app \<Rightarrow> ('g, 'd, payload) handler" where
  "get_ca k a =
     bindP (service (ca_status k (a_certs_dir a))) (\<lambda>r. bindP (found_or 404 r) (\<lambda>v. returnP (CaIs v)))"

definition export_ca_route :: "app \<Rightarrow> ('g, 'd, payload) handler" where
  "export_ca_route a =
     bindP (service_or (\<lambda>e. if e = FileNotFound then Http 404 else Raised e) (export_ca (a_certs_dir a)))
       (\<lambda>text. returnP (PemText text))"

definition issue_cert ::
  "('k, 'p, 'n, 'c, 'd) crypto \<Rightarrow> ('g, 'd) ext \<Rightarrow> app \<Rightarrow> string \<Rightarrow> cert_issue_request \<Rightarrow> ('g, 'd, payload) handler" where
  "issue_cert k x a name body =
     bindP (require x name) (\<lambda>i.
     let fqdn = (case ce_fqdn body of Some (f # fs) \<Rightarrow> f # fs | _ \<Rightarrow> i_server_fqdn i) in
     bindP (service_or (\<lambda>e. if e = FileNotFound then Http 409 else if is_value_error e then Http 422 else Raised e)
       (issue_server_cert k (a_certs_dir a) name fqdn (ce_passphrase body) (ce_validity_days body)))
       (\<lambda>v. returnP (CertIs v)))"

definition get_cert ::
  "('k, 'p, 'n, 'c, 'd) crypto \<Rightarrow> ('g, 'd) ext \<Rightarrow> app \<Rightarrow> string \<Rightarrow> ('g, 'd, payload) handler" where
  "get_cert k x a name =
     bindP (require x name) (\<lambda>_.
     bindP (service (cert_status k (a_certs_dir a) name)) (\<lambda>r. bindP (found_or 404 r) (\<lambda>v. returnP (CertIs v))))"

section \<open>Routes\<close>

text \<open>\<open>health\<close> alone has no dependency on the token.\<close>

fun route ::
  "('k, 'p, 'n, 'c, 'd) crypto \<Rightarrow> ('g, 'd) ext \<Rightarrow> app \<Rightarrow> string option \<Rightarrow> request \<Rightarrow> ('g, 'd, payload) handler" where
  "route k x a cred Health = returnP HealthOk"
| "route k x a cred Version = secured a cred [] (returnP (VersionIs (a_version a)))"
| "route k x a cred ReconcileAll = secured a cred []
     (bindP (service (reconcile_all x (a_conf a))) (\<lambda>sts. returnP (Reconciled sts)))"
| "route k x a cred UpdateAll = secured a cred []
     (bindP (service (update_all x (a_conf a) (a_updater a) DEFAULT_IMAGE)) (\<lambda>rs. returnP (Results rs)))"
| "route k x a cred (CreateInstance body) = secured a cred (create_errors body) (create_instance k x a body)"
| "route k x a cred ListInstances = secured a cred []
     (bindP (service (store_list x)) (\<lambda>insts. returnP (Instances insts)))"
| "route k x a cred (GetInstance name) = secured a cred []
     (bindP (require x name) (\<lambda>i. returnP (OneInstance i)))"
| "route k x a cred (PatchInstance name patch) = secured a cred (patch_errors patch) (patch_instance x a name patch)"
| "route k x a cred (DeleteInstance name) = secured a cred [] (delete_instance x a name)"
| "route k x a cred (SetLdapCa name pem) = secured a cred (failed ''pem'' (v_pem pem)) (set_ldap_ca k x a name pem)"
| "route k x a cred (StartInstance name) = secured a cred [] (lifecycle x name (start x))"
| "route k x a cred (StopInstance name) = secured a cred [] (lifecycle x name (stop x))"
| "route k x a cred (RestartInstance name) = secured a cred [] (lifecycle x name (restart x))"
| "route k x a cred (InstanceStatus name) = secured a cred [] (lifecycle x name (status x))"
| "route k x a cred (InstanceLogs name tail since until grep) = secured a cred []
     (instance_logs x name tail since until grep)"
| "route k x a cred (UpdateInstance name img) = secured a cred (failed ''image'' (v_image img))
     (update_instance x a name img)"
| "route k x a cred (RollbackInstance name) = secured a cred [] (rollback_instance x a name)"
| "route k x a cred (InitCa body) = secured a cred (ca_init_errors body) (init_ca_route k a body)"
| "route k x a cred GetCa = secured a cred [] (get_ca k a)"
| "route k x a cred ExportCa = secured a cred [] (export_ca_route a)"
| "route k x a cred (TestInstance name body) = secured a cred (test_request_errors body) (test_instance x name body)"
| "route k x a cred (IssueCert name body) = secured a cred (cert_issue_errors body) (issue_cert k x a name body)"
| "route k x a cred (GetCert name) = secured a cred [] (get_cert k x a name)"

text \<open>
  The status of an answer. The handler of \<open>DockerException\<close> also takes the engine's errors that are
  \<open>OSError\<close>s; an exception without a handler is a 500.
\<close>

fun success_status :: "request \<Rightarrow> int" where
  "success_status (CreateInstance _) = 201"
| "success_status (InitCa _) = 201"
| "success_status (IssueCert _ _) = 201"
| "success_status _ = 200"

fun error_status :: "pyerr \<Rightarrow> int" where
  "error_status (DockerErr _) = 503"
| "error_status FileNotFound = 409"
| "error_status PermissionErr = 409"
| "error_status StoreErr = 500"
| "error_status _ = 500"

definition handle ::
  "('k, 'p, 'n, 'c, 'd) crypto \<Rightarrow> ('g, 'd) ext \<Rightarrow> app \<Rightarrow> string option \<Rightarrow> request \<Rightarrow> ('g, 'd) world \<Rightarrow>
     (int \<times> payload option) \<times> ('g, 'd) world" where
  "handle k x a cred req w =
     (case route k x a cred req w of
        (Inr p, w') \<Rightarrow> ((success_status req, Some p), w')
      | (Inl (Http s), w') \<Rightarrow> ((s, None), w')
      | (Inl (Raised e), w') \<Rightarrow> ((error_status e, None), w'))"

end
