(* ===== verification/Halves.thy ===== *)
theory Halves
  imports Api
begin

text \<open>
  Requests by their parts: the instance a request is for, the checks of its body, and the handlers that write a
  record they have read, cut in two where other requests can come in between.
\<close>

section \<open>What a request is about\<close>

text \<open>The instance a request is for.\<close>

fun target :: "request \<Rightarrow> string option" where
  "target (CreateInstance b) = Some (i_name (c_inst b))"
| "target (GetInstance n) = Some n"
| "target (PatchInstance n _) = Some n"
| "target (DeleteInstance n) = Some n"
| "target (SetLdapCa n _) = Some n"
| "target (StartInstance n) = Some n"
| "target (StopInstance n) = Some n"
| "target (RestartInstance n) = Some n"
| "target (InstanceStatus n) = Some n"
| "target (InstanceLogs n _ _ _ _) = Some n"
| "target (UpdateInstance n _) = Some n"
| "target (RollbackInstance n) = Some n"
| "target (TestInstance n _) = Some n"
| "target (IssueCert n _) = Some n"
| "target (GetCert n) = Some n"
| "target _ = None"

text \<open>The body errors of a request, which are answered before its handler runs.\<close>

fun body_errors :: "request \<Rightarrow> string list" where
  "body_errors (CreateInstance b) = create_errors b"
| "body_errors (PatchInstance _ p) = patch_errors p"
| "body_errors (SetLdapCa _ pem) = failed ''pem'' (v_pem pem)"
| "body_errors (UpdateInstance _ img) = failed ''image'' (v_image img)"
| "body_errors (InitCa b) = ca_init_errors b"
| "body_errors (TestInstance _ b) = test_request_errors b"
| "body_errors (IssueCert _ b) = cert_issue_errors b"
| "body_errors _ = []"

section \<open>Handlers in two halves\<close>

text \<open>The requests that can be overtaken: their handler writes the record it has read; and what they do after \<open>_require\<close>.\<close>

fun overtaken :: "request \<Rightarrow> bool" where
  "overtaken (PatchInstance _ _) = True"
| "overtaken (DeleteInstance _) = True"
| "overtaken (SetLdapCa _ _) = True"
| "overtaken (UpdateInstance _ _) = True"
| "overtaken (RollbackInstance _) = True"
| "overtaken _ = False"

fun after_read ::
  "('k, 'p, 'n, 'c, 'd) crypto \<Rightarrow> ('g, 'd) ext \<Rightarrow> app \<Rightarrow> request \<Rightarrow> inst \<Rightarrow> ('g, 'd, payload) handler" where
  "after_read k x a (PatchInstance name patch) = (\<lambda>existing.
     bindP (case merge_patch existing patch of
              None \<Rightarrow> raiseP (Raised ValidationErr) | Some i \<Rightarrow> validated i) (\<lambda>merged.
     bindP (service (apply_inst x (a_conf a) merged)) (\<lambda>st. returnP (Applied merged st None))))"
| "after_read k x a (DeleteInstance name) = (\<lambda>existing.
     bindP (service (recon_remove x (a_conf a) name)) (\<lambda>leave. returnP (Removed name leave)))"
| "after_read k x a (SetLdapCa name pem) = (\<lambda>existing.
     bindP (pin_ldap_ca k a name pem) (\<lambda>p.
     bindP (service (apply_inst x (a_conf a) (existing \<lparr> i_ldap_ca := Some (pi_file p) \<rparr>))) (\<lambda>st.
     returnP (Applied (existing \<lparr> i_ldap_ca := Some (pi_file p) \<rparr>) st (Some p)))))"
| "after_read k x a (UpdateInstance name img) = (\<lambda>existing.
     bindP (service (update_image x (a_conf a) (a_updater a) name img)) (\<lambda>r. returnP (Updated r)))"
| "after_read k x a (RollbackInstance name) = (\<lambda>existing.
     bindP (service_or (\<lambda>e. if e = FileNotFound then Http 409 else Raised e) (rollback x (a_conf a) name))
       (\<lambda>(n, img). returnP (RolledBack n img)))"
| "after_read k x a _ = (\<lambda>existing. returnP (OneInstance existing))"

lemma route_halves:
  assumes "overtaken req" and "target req = Some n"
  shows "route k x a cred req = secured a cred (body_errors req) (bindP (require x n) (after_read k x a req))"
  using assms
  by (cases req) (simp_all add: patch_instance_def delete_instance_def set_ldap_ca_def update_instance_def rollback_instance_def)

text \<open>
  An update up to the point where it starts watching the new container (or has rolled back already), and
  from there on. The record to go back to is the one read at the start.
\<close>

definition update_start :: "('g, 'd) ext \<Rightarrow> conf \<Rightarrow> string \<Rightarrow> string \<Rightarrow> ('g, 'd, inst + update_result) run" where
  "update_start x c name img =
     bindP (store_get x name) (\<lambda>found.
     case found of
       None \<Rightarrow> raiseP (KeyErr name)
     | Some i \<Rightarrow>
         bindP (write_inst_file (prev_file name) (i_image i)) (\<lambda>_.
         bindP (tryP (bindP (apply_inst x c (with_image i img)) (\<lambda>_. returnP None))
                  (\<lambda>e. if is_exception e then bindP (apply_inst x c i) (\<lambda>_. returnP (Some e)) else raiseP e))
           (\<lambda>failed.
           case failed of
             Some e \<Rightarrow> returnP (Inr ((blank_result name)
               \<lparr> ur_rolled_back_to := Some (i_image i), ur_failed_image := Some img, ur_error := Some e \<rparr>))
           | None \<Rightarrow> returnP (Inl i))))"

definition update_finish ::
  "('g, 'd) ext \<Rightarrow> conf \<Rightarrow> updater \<Rightarrow> string \<Rightarrow> string \<Rightarrow> inst \<Rightarrow> ('g, 'd, update_result) run" where
  "update_finish x c u name img i =
     bindP (wait_healthy x u name) (\<lambda>ok.
     if ok then returnP ((blank_result name)
       \<lparr> ur_updated := True, ur_image := Some img, ur_previous_image := Some (i_image i) \<rparr>)
     else bindP (apply_inst x c i) (\<lambda>_. returnP ((blank_result name)
       \<lparr> ur_rolled_back_to := Some (i_image i), ur_failed_image := Some img \<rparr>)))"

lemma bind_same: "(\<And>a. f a = g a) \<Longrightarrow> bindP m f = bindP m g"
  by (rule arg_cong2 [where f = bindP]) auto

lemma update_halves:
  "update_image x c u name img =
     bindP (update_start x c name img)
       (\<lambda>s. case s of Inl i \<Rightarrow> update_finish x c u name img i | Inr r \<Rightarrow> returnP r)"
  unfolding update_image_def update_start_def bind_assoc
  by (intro bind_same) (auto simp: bind_assoc update_finish_def intro!: bind_same split: option.split)

text \<open>The second half of a PATCH: the merged record is applied, or refused.\<close>

lemma after_patch:
  "after_read k x a (PatchInstance n p) i =
     (case merge_patch i p of
        None \<Rightarrow> raiseP (Raised ValidationErr)
      | Some j \<Rightarrow> if inst_errors j \<noteq> [] then raiseP (Raised ValidationErr)
          else bindP (service (apply_inst x (a_conf a) j)) (\<lambda>st. returnP (Applied j st None)))"
  by (simp add: validated_def model_validate_def split: option.split)

text \<open>An update starts from the record that is stored.\<close>

lemma update_start_old: "update_start x c n img w = (Inr (Inl i), w') \<Longrightarrow> look_inst x w n = Inr (Some i)"
  by (auto simp: update_start_def bind_Inr_iff store_get_run split: option.splits)

end
