(* ===== verification/ApiFacts.thy ===== *)
theory ApiFacts
  imports Halves CertProps
begin

text \<open>
  Facts on the routes: how guards run, and how the stored records can change. A change of the state is
  described by a reflexive and transitive relation between states; the locale collects how programs
  compose under one.
\<close>

section \<open>Programs that move along a relation\<close>

definition moves :: "('s \<Rightarrow> 's \<Rightarrow> bool) \<Rightarrow> ('s, 'e, 'a) prog \<Rightarrow> bool" where
  "moves R m \<longleftrightarrow> (\<forall>s. R s (snd (m s)))"

lemma movesD: "moves R m \<Longrightarrow> m s = (r, s') \<Longrightarrow> R s s'"
  unfolding moves_def by (metis snd_conv)

locale evolution =
  fixes R :: "'s \<Rightarrow> 's \<Rightarrow> bool"
  assumes same: "R s s"
    and chain: "R s t \<Longrightarrow> R t u \<Longrightarrow> R s u"
begin

lemma moves_return: "moves R (returnP a)"
  by (simp add: moves_def same)

lemma moves_raise: "moves R (raiseP e)"
  by (simp add: moves_def same)

lemma moves_get: "moves R (getP f)"
  by (simp add: moves_def same)

lemma moves_lift: "moves R (liftP r)"
  by (simp add: moves_def same)

lemma moves_bind_Inr:
  assumes "moves R m" and "\<And>s a t. m s = (Inr a, t) \<Longrightarrow> moves R (f a)"
  shows "moves R (bindP m f)"
  unfolding moves_def
proof
  fix s
  obtain r t where m: "m s = (r, t)" by (cases "m s")
  then have "R s t" by (rule movesD [OF assms(1)])
  with m assms(2) [of s] show "R s (snd (bindP m f s))"
    by (cases r) (auto simp: run_bind moves_def intro: chain)
qed

lemma moves_bind: "moves R m \<Longrightarrow> (\<And>a. moves R (f a)) \<Longrightarrow> moves R (bindP m f)"
  by (rule moves_bind_Inr)

lemma moves_try:
  assumes "moves R m" and "\<And>e. moves R (h e)"
  shows "moves R (tryP m h)"
  unfolding moves_def
proof
  fix s
  obtain r t where m: "m s = (r, t)" by (cases "m s")
  then have "R s t" by (rule movesD [OF assms(1)])
  with m assms(2) show "R s (snd (tryP m h s))"
    by (cases r) (auto simp: run_try moves_def intro: chain)
qed

lemma moves_if: "moves R m \<Longrightarrow> moves R n \<Longrightarrow> moves R (if b then m else n)"
  by simp

lemma moves_option: "moves R m \<Longrightarrow> (\<And>a. moves R (f a)) \<Longrightarrow> moves R (case z of None \<Rightarrow> m | Some a \<Rightarrow> f a)"
  by (cases z) auto

lemma moves_pair: "(\<And>a b. moves R (f a b)) \<Longrightarrow> moves R (case z of (a, b) \<Rightarrow> f a b)"
  by (cases z) auto

lemma moves_map: "(\<And>a. moves R (f a)) \<Longrightarrow> moves R (mapP f as)"
  by (induction as) (auto intro!: moves_bind moves_return)

lemmas moves_intros = moves_return moves_raise moves_get moves_lift moves_bind moves_try moves_if
  moves_option moves_pair moves_map

end

section \<open>How the guards run\<close>

lemma service_run: "service_or h m w = (case m w of (Inl e, w') \<Rightarrow> (Inl (h e), w') | (Inr a, w') \<Rightarrow> (Inr a, w'))"
  by (simp add: service_or_def)

lemma moves_service: "moves R m \<Longrightarrow> moves R (service_or h m)"
  by (auto simp: moves_def service_or_def split: prod.splits sum.splits) (metis snd_conv)+

definition authorised :: "app \<Rightarrow> string option \<Rightarrow> bool" where
  "authorised a cred \<longleftrightarrow> cred = Some (a_token a) \<and> a_token a \<noteq> []"

lemma verify_run:
  "verify_token a cred w =
     (if authorised a cred then Inr () else if cred = None \<or> cred = Some [] then Inl (Http 401) else Inl (Http 403), w)"
  by (auto simp: verify_token_def authorised_def split: option.split)

lemma secured_run:
  "authorised a cred \<Longrightarrow> secured a cred errors h w = (if errors \<noteq> [] then (Inl (Http 422), w) else h w)"
  by (simp add: secured_def run_bind verify_run)

lemma secured_refused:
  "\<not> authorised a cred \<Longrightarrow>
     secured a cred errors h w = (Inl (Http (if cred = None \<or> cred = Some [] then 401 else 403)), w)"
  by (auto simp: secured_def run_bind verify_run)

lemma require_run:
  "require x n w =
     (if \<not> re_test name_re n then Inl (Http 422)
      else (case look_inst x w n of
        Inl e \<Rightarrow> Inl (Raised e) | Inr None \<Rightarrow> Inl (Http 404) | Inr (Some i) \<Rightarrow> Inr i), w)"
  by (auto simp: require_def NAME_PARAM_RE_def service_run run_bind store_get_run split: sum.split option.split)

text \<open>The halves in a row do what the request does.\<close>

lemma halves_in_a_row:
  assumes "overtaken req" and "target req = Some n" and "authorised a cred" and "body_errors req = []"
    and "require x n w = (Inr i, w1)"
  shows "route k x a cred req w = after_read k x a req i w1"
  using assms by (simp add: route_halves secured_run run_bind)

section \<open>How the records change\<close>

text \<open>What PyYAML is relied on for: the text written for a record reads back as that record.\<close>

definition yaml_ok :: "('g, 'd) ext \<Rightarrow> bool" where
  "yaml_ok x \<longleftrightarrow> (\<forall>i. x_load x (universal_newlines (x_dump x (model_dump i))) = Inr (model_dump i))"

lemma yaml_ok_storable: "yaml_ok x \<Longrightarrow> inst_errors i = [] \<Longrightarrow> storable x i"
  by (simp add: yaml_ok_def storable_def)

lemma inst_of_any_dump:
  "model_dump i = PDict d \<Longrightarrow> inst_of_val lax d = (if inst_errors i = [] then Inr i else Inl ValidationErr)"
  by (cases i) (auto simp: model_dump_def inst_of_val_def inst_fields_def str_field_def model_validate_def)

lemma read_any_dump:
  assumes "yaml_ok x"
  shows "read_record x (Text (x_dump x (model_dump i))) = (if inst_errors i = [] then Inr (Some i) else Inl ValidationErr)"
proof -
  obtain d where d: "model_dump i = PDict d" by (simp add: model_dump_def)
  have "x_load x (universal_newlines (x_dump x (model_dump i))) = Inr (PDict d)"
    using assms [unfolded yaml_ok_def, THEN spec, of i] by (simp only: d)
  with inst_of_any_dump [OF d] show ?thesis
    by (simp add: read_record_def load_record_def read_content_def)
qed

text \<open>
  \<open>only x n w w'\<close>: no record but that of \<open>n\<close> has changed, and if that is a new record, it is named \<open>n\<close>.
\<close>

definition only :: "('g, 'd) ext \<Rightarrow> string \<Rightarrow> ('g, 'd) world \<Rightarrow> ('g, 'd) world \<Rightarrow> bool" where
  "only x n w w' \<longleftrightarrow> (\<forall>m. m \<noteq> n \<longrightarrow> look_inst x w' m = look_inst x w m)
     \<and> (look_inst x w' n = look_inst x w n \<or> (\<forall>i. look_inst x w' n = Inr (Some i) \<longrightarrow> i_name i = n))"

text \<open>Every record carries the name it is stored under.\<close>

definition names_ok :: "('g, 'd) ext \<Rightarrow> ('g, 'd) world \<Rightarrow> bool" where
  "names_ok x w \<longleftrightarrow> (\<forall>n i. look_inst x w n = Inr (Some i) \<longrightarrow> i_name i = n)"

definition names_kept :: "('g, 'd) ext \<Rightarrow> ('g, 'd) world \<Rightarrow> ('g, 'd) world \<Rightarrow> bool" where
  "names_kept x w w' \<longleftrightarrow> (names_ok x w \<longrightarrow> names_ok x w')"

interpretation one: evolution "only x n" for x :: "('g, 'd) ext" and n
  by unfold_locales (auto simp: only_def)

interpretation named: evolution "names_kept x" for x :: "('g, 'd) ext"
  by unfold_locales (auto simp: names_kept_def)

lemma only_names: "only x n w w' \<Longrightarrow> names_kept x w w'"
  unfolding only_def names_kept_def names_ok_def by metis

text \<open>The same, if all records are named as they are stored; then the record read for \<open>n\<close> is named \<open>n\<close>.\<close>

definition tidy :: "('g, 'd) ext \<Rightarrow> string \<Rightarrow> ('g, 'd) world \<Rightarrow> ('g, 'd) world \<Rightarrow> bool" where
  "tidy x n w w' \<longleftrightarrow> (names_ok x w \<longrightarrow> only x n w w')"

interpretation tidily: evolution "tidy x n" for x :: "('g, 'd) ext" and n
proof unfold_locales
  fix w1 w2 w3 :: "('g, 'd) world"
  assume "tidy x n w1 w2" and "tidy x n w2 w3"
  then show "tidy x n w1 w3" using only_names [of x n w1 w2] one.chain unfolding tidy_def names_kept_def by blast
qed (simp add: tidy_def one.same)

lemma moves_tidy: "moves (only x n) m \<Longrightarrow> moves (tidy x n) m"
  by (simp add: moves_def tidy_def)

lemma tidy_names: "moves (tidy x n) m \<Longrightarrow> moves (names_kept x) m"
  using only_names unfolding moves_def tidy_def names_kept_def by blast

lemma tidy_get:
  assumes "\<And>found. (\<And>i. found = Some i \<Longrightarrow> i_name i = n) \<Longrightarrow> moves (tidy x n) (f found)"
  shows "moves (tidy x n) (bindP (store_get x n) f)"
  unfolding moves_def
proof
  fix w
  show "tidy x n w (snd (bindP (store_get x n) f w))"
  proof (cases "look_inst x w n")
    case (Inl e)
    then show ?thesis by (simp add: run_bind store_get_run tidily.same)
  next
    case (Inr found)
    then have "names_ok x w \<Longrightarrow> moves (tidy x n) (f found)" using assms by (simp add: names_ok_def)
    with Inr show ?thesis by (auto simp: run_bind store_get_run moves_def tidy_def)
  qed
qed

lemma tidy_found:
  assumes "moves (tidy x n) m" and "\<And>i. i_name i = n \<Longrightarrow> moves (tidy x n) (f i)"
  shows "moves (tidy x n) (bindP (store_get x n) (\<lambda>found. case found of None \<Rightarrow> m | Some i \<Rightarrow> f i))"
  using assms by (intro tidy_get) (auto split: option.split)

lemma tidy_require:
  assumes "\<And>i. i_name i = n \<Longrightarrow> moves (tidy x n) (f i)"
  shows "moves (tidy x n) (bindP (require x n) f)"
  unfolding moves_def
proof
  fix w
  show "tidy x n w (snd (bindP (require x n) f w))"
  proof (cases "re_test name_re n \<and> (\<exists>i. look_inst x w n = Inr (Some i))")
    case True
    then obtain i where i: "re_test name_re n" "look_inst x w n = Inr (Some i)" by blast
    then have "names_ok x w \<Longrightarrow> moves (tidy x n) (f i)" using assms by (simp add: names_ok_def)
    with i show ?thesis by (auto simp: run_bind require_run moves_def tidy_def)
  next
    case False
    then show ?thesis
      by (auto simp: run_bind require_run tidily.same split: sum.split option.split)
  qed
qed

lemma moves_keeps: "keeps (look_inst x) m \<Longrightarrow> moves (only x n) m"
  by (simp add: moves_def only_def keeps_def)

lemma put_moves:
  assumes "yaml_ok x"
  shows "moves (only x (i_name i)) (store_put x i)"
  unfolding moves_def
proof
  fix w
  obtain r w' where run: "store_put x i w = (r, w')" by fastforce
  show "only x (i_name i) w (snd (store_put x i w))"
  proof (cases "unsafe_name (i_name i)")
    case True
    then show ?thesis by (simp add: put_unsafe one.same)
  next
    case False
    with put_run(1) [OF run] have "look_inst x w' = (look_inst x w)(i_name i :=
        (if inst_errors i = [] then Inr (Some i) else Inl ValidationErr))"
      by (auto simp: look_inst_def update_conv' read_any_dump [OF assms])
    with run show ?thesis by (simp add: only_def)
  qed
qed

lemma delete_moves: "moves (only x n) (store_delete x n)"
  unfolding moves_def
proof
  fix w
  obtain r w' where run: "store_delete x n w = (r, w')" by fastforce
  show "only x n w (snd (store_delete x n w))"
    using delete_look_inst [OF run] store_delete_raises [of x n w ValueErr w'] run
    by (cases "r = Inl ValueErr") (auto simp: only_def)
qed

lemma apply_moves: "yaml_ok x \<Longrightarrow> moves (only x (i_name i)) (apply_inst x c i)"
  unfolding apply_inst_def
  by (intro one.moves_intros put_moves moves_keeps dock.deploy_look)

lemma remove_moves: "moves (only x n) (recon_remove x c n)"
  unfolding recon_remove_def
  by (intro one.moves_intros delete_moves moves_keeps remove_look) (simp add: keeps_def store_get_run)

lemma prev_moves: "moves (only x n) (write_inst_file (prev_file m) t)"
  by (simp add: moves_def write_prev_run only_def)

text \<open>An operation that leaves the records alone moves along every such relation.\<close>

lemma tidy_keeps: "keeps (look_inst x) m \<Longrightarrow> moves (tidy x n) (service_or h m)"
  by (intro moves_service moves_tidy moves_keeps)

lemma update_moves:
  assumes "yaml_ok x"
  shows "moves (tidy x n) (update_image x c u n img)"
proof -
  have ap: "i_name i = n \<Longrightarrow> moves (tidy x n) (apply_inst x c (with_image i t))" for i t
    using apply_moves [OF assms, of "with_image i t" c] by (simp add: moves_tidy)
  have ap': "i_name i = n \<Longrightarrow> moves (tidy x n) (apply_inst x c i)" for i
    using apply_moves [OF assms, of i c] by (simp add: moves_tidy)
  have "moves (tidy x n) (wait_healthy x u n)"
    by (intro moves_tidy moves_keeps keeps_wait_healthy) simp
  then show ?thesis
    unfolding update_image_def
    by (intro tidy_found tidily.moves_intros moves_tidy [OF prev_moves] ap ap')
qed

lemma rollback_moves:
  assumes "yaml_ok x"
  shows "moves (tidy x n) (rollback x c n)"
proof -
  have ap: "i_name i = n \<Longrightarrow> moves (tidy x n) (apply_inst x c (with_image i t))" for i t
    using apply_moves [OF assms, of "with_image i t" c] by (simp add: moves_tidy)
  show ?thesis
    unfolding rollback_def
    by (intro tidy_found tidily.moves_intros ap)
qed

lemma update_all_moves:
  assumes "yaml_ok x"
  shows "moves (names_kept x) (update_all x c u img)"
proof -
  have "moves (names_kept x) (update_one x c u img i)" for i
    unfolding update_one_def
    by (intro named.moves_intros tidy_names [OF update_moves [OF assms]])
  moreover have "moves (names_kept x) (store_list x)"
    unfolding moves_def using store_list_run(1) named.same by (metis prod.collapse)
  ultimately show ?thesis unfolding update_all_def by (intro named.moves_intros)
qed

section \<open>What the routes do to the records\<close>

text \<open>A view that neither the engine nor the files determine; that of the records is one.\<close>

definition aloof :: "(('g, 'd) world \<Rightarrow> 'v) \<Rightarrow> bool" where
  "aloof v \<longleftrightarrow> apart v \<and> (\<forall>w fs. v (w \<lparr> w_fs := fs \<rparr>) = v w)"

lemma aloof_look: "aloof (look_inst x)"
  by (simp add: aloof_def)

lemma keeps_writes [keeps_intros]:
  "aloof v \<Longrightarrow> keeps v (private_dir d)" "aloof v \<Longrightarrow> keeps v (write_to p c m)"
  unfolding private_dir_def write_to_def by (intro keeps_intros; simp add: aloof_def)+

lemma keeps_init_ca [keeps_intros]: "aloof v \<Longrightarrow> keeps v (init_ca k d p cn n)"
  unfolding init_ca_def by (intro keeps_intros) (simp_all add: aloof_def)

lemma keeps_issue [keeps_intros]: "aloof v \<Longrightarrow> keeps v (issue_server_cert k d n fqdn p t)"
  unfolding issue_server_cert_def install_cert_def by (intro keeps_intros) (simp_all add: aloof_def)

lemma keeps_ldap_ca [keeps_intros]: "aloof v \<Longrightarrow> keeps v (write_ldap_ca k d n pem)"
  unfolding write_ldap_ca_def by (intro keeps_intros) (simp_all add: aloof_def)

lemma keeps_ca_reads [keeps_intros]:
  "keeps v (ca_status k d)" "keeps v (export_ca d)" "keeps v (cert_status k d n)"
  unfolding ca_status_def export_ca_def cert_status_def by (intro keeps_intros)+

lemma keeps_lifecycle [keeps_intros]:
  "aloof v \<Longrightarrow> keeps v (start x n)" "aloof v \<Longrightarrow> keeps v (stop x n)" "aloof v \<Longrightarrow> keeps v (restart x n)"
  unfolding start_def stop_def restart_def by (intro keeps_intros; simp add: aloof_def)+

lemma keeps_logs_of [keeps_intros]: "aloof v \<Longrightarrow> keeps v (logs_of x n t since until g)"
  unfolding logs_of_def by (intro keeps_intros) (simp_all add: aloof_def)

lemma keeps_test [keeps_intros]: "aloof v \<Longrightarrow> keeps v (test x i u p)"
  unfolding test_def exec_in_def gate_of_def Let_def by (intro keeps_intros) (simp_all add: aloof_def)

lemma keeps_store_list [keeps_intros]: "keeps v (store_list x)"
  unfolding keeps_def using store_list_run(1) by (metis prod.collapse)

lemma keeps_reconcile_all [keeps_intros]: "aloof v \<Longrightarrow> keeps v (reconcile_all x c)"
  unfolding reconcile_all_def by (intro keeps_intros keeps_ensure) (simp_all add: aloof_def)

lemma merge_patch_name: "merge_patch i p = Some j \<Longrightarrow> i_name j = i_name i"
  by (auto simp: merge_patch_def split: option.splits)

lemma moves_secured: "moves (tidy x n) h \<Longrightarrow> moves (tidy x n) (secured a cred errors h)"
  unfolding secured_def
  by (intro tidily.moves_intros) (simp_all add: moves_def verify_run tidily.same)

lemma moves_validated: "moves (tidy x n) (validated i)"
  by (auto simp: moves_def validated_def tidily.same split: sum.split)

lemma tidy_apply:
  assumes "yaml_ok x" and "i_name i = n"
  shows "moves (tidy x n) (service (apply_inst x c i))"
  using apply_moves [OF assms(1), of i c] assms(2) by (auto intro: moves_service moves_tidy)

lemma create_moves:
  assumes "yaml_ok x"
  shows "moves (tidy x (i_name (c_inst b))) (create_instance k x a b)"
proof (cases "inst_errors (c_inst b) = []")
  case True
  then have v: "validated (c_inst b) = returnP (c_inst b)" by (simp add: validated_def model_validate_def)
  have pin: "moves (tidy x n) (pin_ldap_ca k a m pem)" for n m pem
    unfolding pin_ldap_ca_def by (intro tidy_keeps keeps_intros aloof_look)
  show ?thesis
  proof (cases "c_ldap_ca_pem b")
    case None
    then show ?thesis
      unfolding create_instance_def v bind_return_left
      by (auto intro!: tidily.moves_raise tidily.moves_return tidily.moves_bind tidy_apply [OF assms])
  next
    case (Some pem)
    then show ?thesis
      unfolding create_instance_def v bind_return_left
      by (auto simp: bind_assoc intro!: tidily.moves_return tidily.moves_bind tidy_apply [OF assms] pin)
  qed
next
  case False
  then show ?thesis by (simp add: create_instance_def validated_def model_validate_def tidily.moves_raise)
qed

lemma pin_moves: "moves (tidy x n) (pin_ldap_ca k a m pem)"
  unfolding pin_ldap_ca_def by (intro tidy_keeps keeps_intros aloof_look)

text \<open>The second halves of the handlers that write the record they have read, and the parts of an update.\<close>

lemma tidy_after:
  assumes "yaml_ok x" and "target req = Some n" and "i_name i = n"
  shows "moves (tidy x n) (after_read k x a req i)"
proof (cases req)
  case (PatchInstance m p)
  have "moves (tidy x n) (after_read k x a (PatchInstance m p) i)"
    unfolding after_patch using merge_patch_name [of i p] assms
    by (auto intro!: tidily.moves_raise tidily.moves_bind tidily.moves_return tidy_apply split: option.split)
  with PatchInstance show ?thesis by simp
next
  case (DeleteInstance m)
  then show ?thesis
    using assms(2) by (auto intro!: tidily.moves_bind tidily.moves_return moves_service moves_tidy [OF remove_moves])
next
  case (SetLdapCa m pem)
  then show ?thesis
    using assms by (auto intro!: tidily.moves_bind tidily.moves_return tidy_apply pin_moves)
next
  case (UpdateInstance m img)
  then show ?thesis
    using assms by (auto intro!: tidily.moves_bind tidily.moves_return moves_service update_moves)
next
  case (RollbackInstance m)
  then show ?thesis
    using assms by (auto intro!: tidily.moves_bind tidily.moves_return moves_service rollback_moves)
qed (simp_all add: tidily.moves_return)

lemma tidy_apply_named: "yaml_ok x \<Longrightarrow> i_name i = n \<Longrightarrow> moves (tidy x n) (apply_inst x c i)"
  using apply_moves [of x i c] moves_tidy by blast

lemma tidy_start:
  assumes "yaml_ok x"
  shows "moves (tidy x n) (update_start x c n img)"
  unfolding update_start_def
  by (intro tidy_found tidily.moves_intros moves_tidy [OF prev_moves] tidy_apply_named assms) simp_all

lemma tidy_finish:
  assumes "yaml_ok x" and "i_name i = n"
  shows "moves (tidy x n) (update_finish x c u n img i)"
proof -
  have "moves (tidy x n) (wait_healthy x u n)" by (intro moves_tidy moves_keeps keeps_wait_healthy) simp
  then show ?thesis
    unfolding update_finish_def by (intro tidily.moves_intros tidy_apply_named assms)
qed

text \<open>A route that only looks at an instance, or changes what is no record.\<close>

lemma look_only_moves:
  assumes "keeps (look_inst x) m"
  shows "moves (tidy x n) (bindP (service_or h m) (\<lambda>r. returnP (f r)))"
  using assms by (intro tidily.moves_intros tidy_keeps)

lemma lifecycle_moves:
  assumes "keeps (look_inst x) (f n)"
  shows "moves (tidy x n) (lifecycle x n f)"
  unfolding lifecycle_def using assms by (intro tidy_require look_only_moves)

lemma found_or_moves: "moves (tidy x n) (bindP (found_or s r) (\<lambda>v. returnP (f v)))"
  unfolding found_or_def by (intro tidily.moves_intros)

lemma route_moves:
  assumes "yaml_ok x" and "target req = Some n"
  shows "moves (tidy x n) (route k x a cred req)"
proof (cases "overtaken req")
  case True
  show ?thesis
    unfolding route_halves [OF True assms(2)] by (intro moves_secured tidy_require tidy_after assms)
next
  case False
  have params: "moves (tidy x m) (check_log_params t g)" for m t g
    unfolding check_log_params_def by (intro tidily.moves_intros)
  from assms False show ?thesis
    by (cases req) (auto simp: instance_logs_def test_instance_def issue_cert_def get_cert_def Let_def
      intro!: moves_secured create_moves lifecycle_moves tidy_require tidily.moves_bind tidily.moves_return params
        tidy_keeps found_or_moves look_only_moves keeps_intros aloof_look)
qed

text \<open>The other requests leave the records alone, but for the update of all instances.\<close>

lemma route_rest_moves:
  assumes "target req = None" and "req \<noteq> UpdateAll"
  shows "moves (tidy x n) (route k x a cred req)"
  using assms
  by (cases req) (auto simp: init_ca_route_def get_ca_def export_ca_route_def
      intro!: moves_secured look_only_moves tidily.moves_return tidily.moves_bind tidy_keeps found_or_moves
        keeps_intros aloof_look)

lemma route_names:
  assumes "yaml_ok x"
  shows "moves (names_kept x) (route k x a cred req)"
proof (cases "target req")
  case (Some n)
  then show ?thesis using route_moves [OF assms] by (intro tidy_names)
next
  case None
  have sec: "moves (names_kept x) (secured a cred errors h)" if "moves (names_kept x) h" for errors h
    using that unfolding secured_def
    by (intro named.moves_intros) (simp_all add: moves_def verify_run named.same)
  have kept: "moves (names_kept x) (service_or h m)" if "keeps (look_inst x) m" for h m
    using tidy_names [OF tidy_keeps [OF that]] by blast
  have found: "moves (names_kept x) (found_or s r)" for s r
    unfolding found_or_def by (intro named.moves_intros)
  have all: "moves (names_kept x) (service (update_all x (a_conf a) (a_updater a) DEFAULT_IMAGE))"
    by (intro moves_service update_all_moves assms)
  from None show ?thesis
    by (cases req) (auto simp: init_ca_route_def get_ca_def export_ca_route_def
        intro!: sec named.moves_return named.moves_bind kept found all keeps_intros aloof_look)
qed

section \<open>What a request is answered with\<close>

lemma handle_answers:
  assumes "route k x a cred req w = (r, u)" and "handle k x a cred req w = ((s, answer), w')"
  shows "w' = u" and "r = Inr q \<Longrightarrow> answer = Some q \<and> s = success_status req"
    and "r = Inl (Raised e) \<Longrightarrow> answer = None \<and> s = error_status e" and "r = Inl (Http t) \<Longrightarrow> answer = None \<and> s = t"
  using assms by (auto simp: handle_def split: sum.splits api_error.splits)

lemma error_status_ge: "error_status e \<ge> 400"
  by (cases e) auto

lemma apply_service:
  assumes "storable x i" and "bindP (service (apply_inst x c i)) (\<lambda>st. returnP (f st)) w = (r, w')"
  shows "look_inst x w' = (look_inst x w)(i_name i := Inr (Some i))"
    and "r = Inr p \<Longrightarrow> \<exists>st. p = f st"
proof -
  obtain q w1 where q: "apply_inst x c i w = (q, w1)" by fastforce
  then have "w' = w1" using assms(2) by (cases q) (auto simp: run_bind service_run)
  with apply_look [OF assms(1) q] show "look_inst x w' = (look_inst x w)(i_name i := Inr (Some i))" by simp
  show "r = Inr p \<Longrightarrow> \<exists>st. p = f st"
    using assms(2) q by (cases q) (auto simp: run_bind service_run)
qed

text \<open>A new instance with LDAPS that names no CA, neither a stored one nor a bundle; and the record to be stored.\<close>

definition unpinned :: "inst_create \<Rightarrow> bool" where
  "unpinned b \<longleftrightarrow> c_ldap_ca_pem b = None \<and> is_ldaps (i_ldap_server (c_inst b)) \<and> i_ldap_ca (c_inst b) = None"

definition created :: "inst_create \<Rightarrow> inst" where
  "created b = (case c_ldap_ca_pem b of None \<Rightarrow> c_inst b | Some _ \<Rightarrow> (c_inst b) \<lparr> i_ldap_ca := Some LDAP_CA_FILE \<rparr>)"

lemma write_ldap_ca_file: "write_ldap_ca k d n pem w = (Inr v, w') \<Longrightarrow> pi_file v = LDAP_CA_FILE"
  by (auto simp: write_ldap_ca_def bind_Inr_iff)

lemma create_valid: "create_errors b = [] \<Longrightarrow> validated (c_inst b) = returnP (c_inst b)"
  by (simp add: create_errors_def validated_def model_validate_def)

lemma create_unpinned:
  "create_errors b = [] \<Longrightarrow> unpinned b \<Longrightarrow> create_instance k x a b w = (Inl (Http 422), w)"
  by (simp add: create_instance_def create_valid run_bind unpinned_def)

lemma create_Http: "create_errors b = [] \<Longrightarrow> create_instance k x a b w = (Inl (Http t), u) \<Longrightarrow> t = 422"
  by (auto simp: create_instance_def create_valid run_bind service_run pin_ldap_ca_def
      split: option.splits if_splits prod.splits sum.splits)

text \<open>Creating ends with applying the record to be stored.\<close>

lemma create_applies:
  assumes "create_errors b = []" and "\<not> unpinned b" and "create_instance k x a b w = (Inr q, u)"
  shows "\<exists>pinned w1. bindP (service (apply_inst x (a_conf a) (created b)))
    (\<lambda>st. returnP (Applied (created b) st pinned)) w1 = (Inr q, u)"
proof (cases "c_ldap_ca_pem b")
  case None
  then have "\<not> (is_ldaps (i_ldap_server (c_inst b)) \<and> i_ldap_ca (c_inst b) = None)"
    using assms(2) by (simp add: unpinned_def)
  then have "bindP (service (apply_inst x (a_conf a) (created b))) (\<lambda>st. returnP (Applied (created b) st None)) w = (Inr q, u)"
    using assms(1,3) None by (auto simp: create_instance_def create_valid created_def)
  then show ?thesis by blast
next
  case (Some pem)
  then obtain p w1 where p: "pin_ldap_ca k a (i_name (c_inst b)) pem w = (Inr p, w1)"
    and rest: "bindP (service (apply_inst x (a_conf a) ((c_inst b) \<lparr> i_ldap_ca := Some (pi_file p) \<rparr>)))
      (\<lambda>st. returnP (Applied ((c_inst b) \<lparr> i_ldap_ca := Some (pi_file p) \<rparr>) st (Some p))) w1 = (Inr q, u)"
    using assms(1,3) by (auto simp: create_instance_def create_valid bind_assoc bind_Inr_iff)
  have "pi_file p = LDAP_CA_FILE"
    using p write_ldap_ca_file by (fastforce simp: pin_ldap_ca_def service_run split: prod.splits sum.splits)
  with rest Some show ?thesis by (auto simp: created_def)
qed

lemma create_Inr:
  assumes "create_errors b = []" and "\<not> unpinned b" and "storable x (created b)"
    and "create_instance k x a b w = (Inr q, u)"
  shows "look_inst x u (i_name (c_inst b)) = Inr (Some (created b))"
    and "\<exists>st pinned. q = Applied (created b) st pinned"
    and "is_ldaps (i_ldap_server (created b)) \<Longrightarrow> i_ldap_ca (created b) \<noteq> None"
proof -
  from create_applies [OF assms(1,2,4)] obtain pinned w1 where
    run: "bindP (service (apply_inst x (a_conf a) (created b))) (\<lambda>st. returnP (Applied (created b) st pinned)) w1 = (Inr q, u)"
    by blast
  have "i_name (created b) = i_name (c_inst b)" by (simp add: created_def split: option.split)
  with apply_service(1) [OF assms(3) run] show "look_inst x u (i_name (c_inst b)) = Inr (Some (created b))" by simp
  from apply_service(2) [OF assms(3) run refl] show "\<exists>st pinned. q = Applied (created b) st pinned" by blast
  show "is_ldaps (i_ldap_server (created b)) \<Longrightarrow> i_ldap_ca (created b) \<noteq> None"
    using assms(2) by (auto simp: created_def unpinned_def split: option.splits)
qed

end
