(* ===== verification/Validity.thy ===== *)
theory Validity
  imports ApiFacts
begin

text \<open>
  What keeps the stored records readable: every operation that writes a record writes a valid one, and
  every rollback pointer names an image that a valid record may have.
\<close>

section \<open>Images\<close>

lemma universal_newlines_id: "CR \<notin> set s \<Longrightarrow> universal_newlines s = s"
  by (induction s) auto

definition image_tail :: "string \<Rightarrow> bool" where
  "image_tail t \<longleftrightarrow>
     (\<exists>d q. t = CHR '':'' # d # q \<and> cls_has alnum d \<and> list_all (cls_has (plus_chars alnum ''._-'')) q \<and> length q \<le> 127)
   \<or> (\<exists>q. t = ''@sha256:'' @ q \<and> list_all (cls_has hex_cls) q \<and> length q = 64)"

lemma in_Cls: "t \<in> ends (Cls rs) s \<longleftrightarrow> (\<exists>c. s = c # t \<and> cls_has rs c)"
  by (cases s) auto

lemma in_Rep_Cls:
  "t \<in> ends (Rep m n (Cls rs)) s \<longleftrightarrow> (\<exists>p. s = p @ t \<and> list_all (cls_has rs) p \<and> m \<le> length p \<and> within n (length p))"
  by (simp add: ends_Rep_Cls)

lemma ends_tag:
  "v \<in> ends (seqs [lit CHR '':'', Cls alnum, up_to 127 (Cls (plus_chars alnum ''._-''))]) u \<longleftrightarrow>
     (\<exists>d q. u = CHR '':'' # d # q @ v \<and> cls_has alnum d \<and> list_all (cls_has (plus_chars alnum ''._-'')) q \<and> length q \<le> 127)"
proof -
  have lit: "t \<in> ends (lit c) s \<longleftrightarrow> s = c # t" for t s c by (simp add: ends_lit)
  show ?thesis
    unfolding seqs_def foldr.simps o_apply id_apply in_ends in_Cls in_Rep_Cls lit within_simps by blast
qed

lemma ends_digest:
  "v \<in> ends (seqs [lits ''@sha256:'', Rep 64 (Some 64) (Cls hex_cls)]) u \<longleftrightarrow>
     (\<exists>q. u = ''@sha256:'' @ q @ v \<and> list_all (cls_has hex_cls) q \<and> length q = 64)"
  unfolding seqs_def foldr.simps o_apply id_apply in_ends in_Cls in_Rep_Cls within_simps eq_iff [of "length _" 64]
  by blast

lemma ends_image_tail:
  "v \<in> ends (Alt (seqs [lit CHR '':'', Cls alnum, up_to 127 (Cls (plus_chars alnum ''._-''))])
      (seqs [lits ''@sha256:'', Rep 64 (Some 64) (Cls hex_cls)])) u
    \<longleftrightarrow> (\<exists>t. u = t @ v \<and> image_tail t)"
proof -
  have "(\<exists>d q. u = CHR '':'' # d # q @ v \<and> P d q) \<longleftrightarrow> (\<exists>t. u = t @ v \<and> (\<exists>d q. t = CHR '':'' # d # q \<and> P d q))" for P
    by auto
  moreover have "(\<exists>q. u = ''@sha256:'' @ q @ v \<and> Q q) \<longleftrightarrow> (\<exists>t. u = t @ v \<and> (\<exists>q. t = ''@sha256:'' @ q \<and> Q q))" for Q
    by auto
  ultimately show ?thesis unfolding in_Alt ends_tag ends_digest image_tail_def by (simp only: conj_disj_distribL ex_disj_distrib)
qed

lemma image_iff:
  "re_test image_re s \<longleftrightarrow>
     (\<exists>c p t nl. s = c # p @ t @ nl \<and> cls_has lownum c \<and> list_all (cls_has (plus_chars lownum ''._/:-'')) p
        \<and> image_tail t \<and> (nl = [] \<or> nl = [LF]))"
proof -
  let ?P = "list_all (cls_has (plus_chars lownum ''._/:-''))"
  have "re_test image_re s \<longleftrightarrow> (\<exists>v u1 u2. u1 \<in> ends (Cls lownum) s
      \<and> u2 \<in> ends (star (Cls (plus_chars lownum ''._/:-''))) u1
      \<and> v \<in> ends (Alt (seqs [lit CHR '':'', Cls alnum, up_to 127 (Cls (plus_chars alnum ''._-''))])
          (seqs [lits ''@sha256:'', Rep 64 (Some 64) (Cls hex_cls)])) u2 \<and> (v = [] \<or> v = [LF]))"
    unfolding image_re_def re_test_ex seqs_def [of "[Cls _, _, _, _]"] foldr.simps o_apply id_apply in_Seq in_Eos in_Eps by blast
  also have "\<dots> \<longleftrightarrow> (\<exists>v u1 u2 c p t. s = c # u1 \<and> u1 = p @ u2 \<and> u2 = t @ v \<and> cls_has lownum c \<and> ?P p
      \<and> image_tail t \<and> (v = [] \<or> v = [LF]))"
    unfolding ends_image_tail by (simp only: in_Cls in_Rep_Cls within_simps le0 simp_thms) blast
  also have "\<dots> \<longleftrightarrow> (\<exists>c p t v. s = c # p @ t @ v \<and> cls_has lownum c \<and> ?P p \<and> image_tail t \<and> (v = [] \<or> v = [LF]))"
    by blast
  finally show ?thesis .
qed

lemma word_char_no_space:
  assumes "cls_has alnum c \<or> c \<in> set ''._/:-@''"
  shows "\<not> is_space c"
proof -
  have "in_range c (CHR 0x21, CHR 0x7E)"
    using assms by (auto simp: cls_has_def alnum_def in_range_def less_eq_char_def)
  then show ?thesis by (auto simp: is_space_def in_range_def less_eq_char_def)
qed

lemma image_no_space:
  assumes "cls_has lownum c" and "list_all (cls_has (plus_chars lownum ''._/:-'')) p" and "image_tail t"
  shows "list_all (\<lambda>x. \<not> is_space x) (c # p @ t)"
proof -
  have low: "cls_has lownum x \<Longrightarrow> cls_has alnum x" for x by (auto simp: cls_has_def lownum_def alnum_def)
  have hex: "cls_has hex_cls x \<Longrightarrow> cls_has alnum x" for x
    by (auto simp: cls_has_def hex_cls_def alnum_def in_range_def less_eq_char_def)
  have plus: "cls_has (plus_chars rs cs) x \<longleftrightarrow> cls_has rs x \<or> x \<in> set cs" for rs cs x
    by (auto simp: cls_has_def plus_chars_def in_range_def list_ex_iff intro: bexI [of _ "(x, x)"])
  have "\<not> is_space x" if "x \<in> set (c # p @ t)" for x
  proof (rule word_char_no_space)
    have "x = c \<or> x \<in> set p \<or> x \<in> set t" using that by simp
    then show "cls_has alnum x \<or> x \<in> set ''._/:-@''"
    proof (elim disjE)
      assume "x = c"
      with assms(1) low show ?thesis by simp
    next
      assume "x \<in> set p"
      with assms(2) low show ?thesis by (auto simp: list_all_iff plus)
    next
      assume "x \<in> set t"
      moreover have "cls_has alnum (CHR ''s'')" "cls_has alnum (CHR ''h'')" "cls_has alnum (CHR ''a'')"
        "cls_has alnum (CHR ''2'')" "cls_has alnum (CHR ''5'')" "cls_has alnum (CHR ''6'')" by code_simp+
      ultimately show ?thesis using assms(3) hex unfolding image_tail_def
        by (elim disjE exE conjE) (auto simp: list_all_iff plus)
    qed
  qed
  then show ?thesis by (simp add: list_all_iff)
qed

text \<open>Written to the rollback pointer and read again, an accepted image is still accepted.\<close>

lemma image_pointer:
  assumes "re_test image_re s"
  shows "re_test image_re (strip (universal_newlines s))"
proof -
  obtain c p t nl where s: "s = (c # p @ t) @ nl" "nl = [] \<or> nl = [LF]"
    and parts: "cls_has lownum c" "list_all (cls_has (plus_chars lownum ''._/:-'')) p" "image_tail t"
    using assms unfolding image_iff by auto
  let ?x = "c # p @ t"
  note sp = image_no_space [OF parts]
  have CR_space: "is_space CR" by code_simp
  have "CR \<notin> set s" using s sp CR_space by (auto simp: list_all_iff)
  then have "universal_newlines s = s" by (rule universal_newlines_id)
  moreover have "last ?x \<in> set ?x" by (rule last_in_set) simp
  with sp have "\<not> is_space (last ?x)" unfolding list_all_iff by blast
  then have "strip s = ?x" unfolding s(1) using sp by (intro strip_nl s(2)) simp_all
  moreover have "re_test image_re ?x" unfolding image_iff using parts
    by (intro exI [of _ c] exI [of _ p] exI [of _ t] exI [of _ "[]"]) simp
  ultimately show ?thesis by simp
qed

section \<open>Records that read back\<close>

text \<open>
  Every record reads, no record is invalid, and every rollback pointer holds, as \<open>rollback\<close> reads it, the name
  of an image that a record may have.
\<close>

definition fit :: "('g, 'd) ext \<Rightarrow> ('g, 'd) world \<Rightarrow> bool" where
  "fit x w \<longleftrightarrow> (\<forall>n. \<not> unsafe_name n \<longrightarrow> \<not> isl (look_inst x w n))
     \<and> (\<forall>n c t. map_of (w_insts w) (prev_file n) = Some c \<longrightarrow> read_content c = Inr t \<longrightarrow> re_test image_re (strip t))"

definition fit_kept :: "('g, 'd) ext \<Rightarrow> ('g, 'd) world \<Rightarrow> ('g, 'd) world \<Rightarrow> bool" where
  "fit_kept x w w' \<longleftrightarrow> (fit x w \<longrightarrow> fit x w')"

interpretation fitting: evolution "fit_kept x" for x :: "('g, 'd) ext"
  by unfold_locales (auto simp: fit_kept_def)

lemma look_valid:
  assumes "look_inst x w n = Inr (Some i)"
  shows "inst_errors i = []"
  using assms
  by (auto simp: look_inst_def read_record_def inst_of_val_def model_validate_def map_sum_def bindE_Inr_iff
      split: if_splits option.splits sum.splits)

lemma with_image_valid: "inst_errors i = [] \<Longrightarrow> re_test image_re t \<Longrightarrow> inst_errors (with_image i t) = []"
  by (simp add: inst_valid_iff)

lemma pinned_valid: "inst_errors i = [] \<Longrightarrow> inst_errors (i \<lparr> i_ldap_ca := Some LDAP_CA_FILE \<rparr>) = []"
proof -
  have "secret_ok LDAP_CA_FILE" by code_simp
  then show "inst_errors i = [] \<Longrightarrow> inst_errors (i \<lparr> i_ldap_ca := Some LDAP_CA_FILE \<rparr>) = []"
    by (simp add: inst_valid_iff)
qed

text \<open>What leaves the files of the store alone keeps them readable.\<close>

lemma aloof_insts: "aloof w_insts"
  by (simp add: aloof_def apart_def)

lemma fit_keeps: "keeps w_insts m \<Longrightarrow> moves (fit_kept x) m"
  unfolding moves_def fit_kept_def keeps_def fit_def look_inst_def by simp

lemma fit_service: "keeps w_insts m \<Longrightarrow> moves (fit_kept x) (service_or h m)"
  by (intro moves_service fit_keeps)

section \<open>What writes records\<close>

lemma fit_put:
  assumes "yaml_ok x" and "inst_errors i = []"
  shows "moves (fit_kept x) (store_put x i)"
  unfolding moves_def fit_kept_def
proof (intro allI impI)
  fix w
  assume fit: "fit x w"
  obtain r w' where run: "store_put x i w = (r, w')" by fastforce
  have st: "storable x i" using yaml_ok_storable [OF assms] .
  then have safe: "\<not> unsafe_name (i_name i)" using valid_name_safe by (simp add: storable_def)
  have "prev_file n \<noteq> i_name i @ ''.yaml''" for n
    using yaml_not_prev [of "i_name i" n] unfolding prev_file_def by (rule not_sym)
  then have "map_of (w_insts w') (prev_file n) = map_of (w_insts w) (prev_file n)" for n
    using put_run(1) [OF run safe] by (simp add: update_conv')
  moreover have "look_inst x w' = (look_inst x w)(i_name i := Inr (Some i))"
    by (rule put_look_inst [OF st run])
  ultimately show "fit x (snd (store_put x i w))" using fit run by (simp add: fit_def)
qed

lemma fit_delete: "moves (fit_kept x) (store_delete x n)"
  unfolding moves_def fit_kept_def
proof (intro allI impI)
  fix w
  assume fit: "fit x w"
  obtain r w' where run: "store_delete x n w = (r, w')" by fastforce
  show "fit x (snd (store_delete x n w))"
  proof (cases "unsafe_name n")
    case True
    then show ?thesis using fit by (simp add: delete_unsafe)
  next
    case False
    have "look_inst x w' m \<in> {look_inst x w m, Inr None}" for m
      using delete_look_inst [OF run] delete_run(4) [OF run False] by auto
    moreover have "map_of (w_insts w') f = Some c \<Longrightarrow> map_of (w_insts w) f = Some c" for f c
      using delete_run(1) [OF run False] by (auto split: if_splits)
    ultimately show ?thesis using fit run unfolding fit_def by (metis insertE isl_def singletonD snd_conv sum.distinct(1))
  qed
qed

lemma fit_apply:
  assumes "yaml_ok x" and "inst_errors i = []"
  shows "moves (fit_kept x) (apply_inst x c i)"
  unfolding apply_inst_def
  by (intro fitting.moves_intros fit_put assms fit_keeps keeps_ensure) simp_all

text \<open>An instance that was read is valid.\<close>

lemma fit_found:
  assumes "moves (fit_kept x) m" and "\<And>i. inst_errors i = [] \<Longrightarrow> moves (fit_kept x) (f i)"
  shows "moves (fit_kept x) (bindP (store_get x n) (\<lambda>found. case found of None \<Rightarrow> m | Some i \<Rightarrow> f i))"
  unfolding moves_def
proof
  fix w
  show "fit_kept x w (snd (bindP (store_get x n) (\<lambda>found. case found of None \<Rightarrow> m | Some i \<Rightarrow> f i) w))"
    using assms look_valid [of x w n]
    by (auto simp: run_bind store_get_run moves_def fitting.same split: sum.split option.split)
qed

lemma fit_require:
  assumes "\<And>i. inst_errors i = [] \<Longrightarrow> moves (fit_kept x) (f i)"
  shows "moves (fit_kept x) (bindP (require x n) f)"
  unfolding moves_def
proof
  fix w
  show "fit_kept x w (snd (bindP (require x n) f w))"
    using assms look_valid [of x w n]
    by (auto simp: run_bind require_run moves_def fitting.same split: sum.split option.split)
qed

lemma fit_prev:
  assumes "re_test image_re t"
  shows "moves (fit_kept x) (write_inst_file (prev_file n) t)"
  unfolding moves_def fit_kept_def
proof (intro allI impI)
  fix w
  assume fit: "fit x w"
  let ?w = "w \<lparr> w_insts := AList.update (prev_file n) (Text t) (w_insts w) \<rparr>"
  from fit have "fit x ?w"
    using image_pointer [OF assms] by (auto simp: fit_def update_conv' read_content_def)
  then show "fit x (snd (write_inst_file (prev_file n) t w))" by (simp add: write_prev_run)
qed

lemma fit_wait: "moves (fit_kept x) (wait_healthy x u n)"
  by (intro fit_keeps keeps_wait_healthy) (simp add: apart_def)

lemma fit_start:
  assumes "yaml_ok x" and "re_test image_re img"
  shows "moves (fit_kept x) (update_start x c n img)"
proof -
  have "moves (fit_kept x) (apply_inst x c i)" "moves (fit_kept x) (apply_inst x c (with_image i img))"
    if "inst_errors i = []" for i
    using that assms with_image_valid by (simp_all add: fit_apply)
  then show ?thesis
    unfolding update_start_def
    by (intro fit_found fitting.moves_intros fit_prev) (simp_all add: inst_valid_iff)
qed

lemma fit_finish:
  assumes "yaml_ok x" and "inst_errors i = []"
  shows "moves (fit_kept x) (update_finish x c u n img i)"
  unfolding update_finish_def by (intro fitting.moves_intros fit_wait fit_apply assms)

lemma fit_update:
  assumes "yaml_ok x" and "re_test image_re img"
  shows "moves (fit_kept x) (update_image x c u n img)"
  unfolding update_halves
  by (intro fitting.moves_bind_Inr [OF fit_start [OF assms]])
    (auto intro!: fit_finish assms(1) fitting.moves_return dest!: update_start_old look_valid split: sum.split)

lemma fit_rollback:
  assumes "yaml_ok x"
  shows "moves (fit_kept x) (rollback x c n)"
  unfolding rollback_def
proof (rule fit_found [OF fitting.moves_raise])
  fix i
  assume valid: "inst_errors i = []"
  let ?restore = "\<lambda>t. bindP (apply_inst x c (with_image i (strip t))) (\<lambda>_. returnP (n, strip t))"
  let ?read = "\<lambda>d. bindP (liftP (read_content d)) ?restore"
  let ?go = "bindP (getP (\<lambda>w. map_of (w_insts w) (prev_file n)))
    (\<lambda>present. case present of None \<Rightarrow> raiseP FileNotFound | Some d \<Rightarrow> ?read d)"
  have "fit_kept x w (snd (?go w))" for w
  proof (cases "\<exists>d t. map_of (w_insts w) (prev_file n) = Some d \<and> read_content d = Inr t \<and> fit x w")
    case True
    then obtain d t where d: "map_of (w_insts w) (prev_file n) = Some d" "read_content d = Inr t"
      and "re_test image_re (strip t)" by (auto simp: fit_def)
    then have "moves (fit_kept x) (?restore t)"
      using valid by (intro fitting.moves_bind fitting.moves_return fit_apply assms with_image_valid)
    with d show ?thesis by (simp add: run_bind [of "getP _"] run_bind [of "liftP _"] moves_def)
  next
    case False
    then show ?thesis
      by (cases "map_of (w_insts w) (prev_file n)")
        (auto simp: run_bind [of "getP _"] run_bind [of "liftP _"] fit_kept_def split: sum.split)
  qed
  then show "moves (fit_kept x) ?go" by (simp add: moves_def)
qed

lemma fit_update_all:
  assumes "yaml_ok x" and "re_test image_re img"
  shows "moves (fit_kept x) (update_all x c u img)"
proof -
  have "moves (fit_kept x) (update_one x c u img i)" for i
    unfolding update_one_def by (intro fitting.moves_intros fit_update assms)
  then show ?thesis
    unfolding update_all_def
    by (intro fitting.moves_bind [OF fit_keeps [OF keeps_store_list]] fitting.moves_map)
qed

end
