(* ===== verification/ApiProps.thy ===== *)
theory ApiProps
  imports Validity "HOL-Library.Countable"
begin

text \<open>
  The properties of the routes: who gets in, what is answered for instances that are not there, what
  creating and patching do, and what no history of requests can do to the records.
\<close>

section \<open>Who gets in\<close>


definition example_app :: app where
  "example_app = \<lparr> a_token = ''secret'', a_version = ''7.3.1'', a_conf = sample_conf, a_updater = default_updater \<rparr>"


section \<open>Instances that are not there\<close>

text \<open>
  C34: A bad body, a bad name and an unknown instance are refused before anything is done: 422 if a field of
  the body is invalid or the name in the path has not the shape of an instance name (so it never reaches
  a file name or the engine), 404 if there is no such record; the state is as before.
\<close>

theorem refused_before_anything:
  assumes "authorised a cred"
    and "body_errors req \<noteq> [] \<or>
      target req = Some n \<and> (\<forall>b. req \<noteq> CreateInstance b) \<and> (re_test name_re n \<longrightarrow> look_inst x w n = Inr None)"
  shows "handle k x a cred req w =
    ((if body_errors req = [] \<and> re_test name_re n then 404 else 422, None), w)"
proof -
  have "route k x a cred req w =
      (Inl (Http (if body_errors req = [] \<and> re_test name_re n then 404 else 422)), w)"
    using assms
    by (cases req) (auto simp: secured_run run_bind require_run patch_instance_def delete_instance_def
        set_ldap_ca_def lifecycle_def instance_logs_def update_instance_def rollback_instance_def
        test_instance_def issue_cert_def get_cert_def)
  then show ?thesis by (simp add: handle_def)
qed

theorem refused_before_anything_witness:
  "handle toy_crypto dock_ext example_app (Some ''secret'') (RestartInstance ''b'') dock_world
     = ((404, None), dock_world)"
proof -
  have auth: "authorised example_app (Some ''secret'')" by (simp add: authorised_def example_app_def)
  have "re_test name_re ''b''" and "look_inst dock_ext dock_world ''b'' = Inr None" by code_simp+
  with refused_before_anything [OF auth, of "RestartInstance ''b''" "''b''" dock_ext dock_world toy_crypto]
  show ?thesis by simp
qed

section \<open>Creating and patching\<close>


text \<open>In the witness only the image is given.\<close>

definition no_change :: inst_patch where
  "no_change = \<lparr> p_realm = None, p_workgroup = None, p_server_fqdn = None, p_ldap_server = None,
     p_ldap_base_dn = None, p_ldap_bind_dn = None, p_wifi_group = None, p_client_subnets = None,
     p_ssids = None, p_join_secret = None, p_ldap_bind_secret = None, p_radius_secret = None,
     p_image = None, p_ldap_ca = None \<rparr>"

definition new_image :: inst_patch where
  "new_image = no_change \<lparr> p_image := Some (Some ''s:1'') \<rparr>"


text \<open>
  C18: Creating demands a pin. A new instance that speaks LDAPS and names no CA is refused with 422 and nothing
  changes; and where the answer is 201, the record that was asked for, with the pinned bundle as its CA if one
  was sent, is what is stored and answered, and if it speaks LDAPS it has a CA to verify it against.
\<close>

theorem create_demands_pin:
  assumes "authorised a cred" and "create_errors b = []" and "\<not> unpinned b \<Longrightarrow> storable x (created b)"
    and "handle k x a cred (CreateInstance b) w = ((s, answer), w')"
  shows "if unpinned b then s = 422 \<and> w' = w
    else s = 201 \<longrightarrow> look_inst x w' (i_name (c_inst b)) = Inr (Some (created b))
      \<and> (\<exists>st pinned. answer = Some (Applied (created b) st pinned))
      \<and> (is_ldaps (i_ldap_server (created b)) \<longrightarrow> i_ldap_ca (created b) \<noteq> None)"
proof -
  obtain r u where c: "create_instance k x a b w = (r, u)" by fastforce
  then have route: "route k x a cred (CreateInstance b) w = (r, u)" using assms(1,2) by (simp add: secured_run)
  note run = handle_answers [OF route assms(4)]
  show ?thesis
  proof (cases "unpinned b")
    case True
    then have "r = Inl (Http 422)" and "u = w" using create_unpinned [OF assms(2), of k x a w] c by auto
    with True run(1,4) show ?thesis by auto
  next
    case False
    note done1 = create_Inr [OF assms(2) False assms(3) [OF False]]
    have "\<exists>q. r = Inr q" if "s = 201"
    proof (cases r)
      case (Inl e)
      have "s \<noteq> 201"
      proof (cases e)
        case (Http t)
        with Inl run(4) create_Http [OF assms(2), of k x a w t u] c show ?thesis by auto
      next
        case (Raised f)
        with run(3) Inl error_status_ge [of f] show ?thesis by auto
      qed
      with that show ?thesis by contradiction
    qed blast
    then show ?thesis using False run(1,2) c done1 by auto
  qed
qed

theorem create_demands_pin_witness:
  "\<exists>answer. handle toy_crypto dock_ext example_app (Some ''secret'')
      (CreateInstance \<lparr> c_inst = dock_inst \<lparr> i_ldap_ca := None \<rparr>, c_ldap_ca_pem = None \<rparr>) dock_world
    = ((422, answer), dock_world)"
proof -
  let ?b = "\<lparr> c_inst = dock_inst \<lparr> i_ldap_ca := None \<rparr>, c_ldap_ca_pem = None \<rparr>"
  have auth: "authorised example_app (Some ''secret'')" by (simp add: authorised_def example_app_def)
  have body: "create_errors ?b = []" by code_simp
  have un: "unpinned ?b" by code_simp
  obtain s answer w' where run: "handle toy_crypto dock_ext example_app (Some ''secret'') (CreateInstance ?b) dock_world
      = ((s, answer), w')" by (metis surj_pair)
  from create_demands_pin [OF auth body _ run] un have "s = 422 \<and> w' = dock_world" by simp
  with run show ?thesis by blast
qed

section \<open>Histories\<close>

text \<open>What a server can come to from a state, by any requests with any credentials.\<close>

inductive served :: "('k, 'p, 'n, 'c, 'd) crypto \<Rightarrow> ('g, 'd) ext \<Rightarrow> app \<Rightarrow> ('g, 'd) world \<Rightarrow> ('g, 'd) world \<Rightarrow> bool"
  for k x a w where
  nothing: "served k x a w w"
| request: "served k x a w u \<Longrightarrow> handle k x a cred req u = (resp, v) \<Longrightarrow> served k x a w v"

lemma handle_moves:
  assumes "moves R (route k x a cred req)" and "handle k x a cred req w = (resp, w')"
  shows "R w w'"
proof -
  obtain r u where "route k x a cred req w = (r, u)" by fastforce
  with assms(2) movesD [OF assms(1) this] show ?thesis
    by (auto simp: handle_def split: sum.splits api_error.splits)
qed

lemma served_names:
  "served k x a w w' \<Longrightarrow> yaml_ok x \<Longrightarrow> names_ok x w \<Longrightarrow> names_ok x w'"
proof (induction rule: served.induct)
  case (request u cred req resp v)
  with handle_moves [OF route_names request.hyps(2)] show ?case by (simp add: names_kept_def)
qed

text \<open>
  C6: Identities are kept. Starting from records that are each stored under their own name, no history of
  requests, authorised or not, successful or not, leads to a record under another name; and on the way each
  request changes no record but the one of the instance it is for (the update of all instances apart), and
  a request for no instance changes none.
\<close>

theorem history_keeps_identities:
  assumes "yaml_ok x" and "names_ok x w" and "served k x a w u" and "handle k x a cred req u = (resp, v)"
  shows "names_ok x v \<and>
    (case target req of
       Some n \<Rightarrow> \<forall>m. m \<noteq> n \<longrightarrow> look_inst x v m = look_inst x u m
     | None \<Rightarrow> req = UpdateAll \<or> look_inst x v = look_inst x u)"
proof -
  have u: "names_ok x u" using served_names [OF assms(3,1,2)] .
  have "names_ok x v" using handle_moves [OF route_names [OF assms(1)] assms(4)] u by (simp add: names_kept_def)
  moreover have "look_inst x v m = look_inst x u m" if "target req = Some n" "m \<noteq> n" for m n
    using handle_moves [OF route_moves [OF assms(1) that(1)] assms(4)] u that(2) by (simp add: tidy_def only_def)
  moreover have "look_inst x v m = look_inst x u m" if "target req = None" "req \<noteq> UpdateAll" for m
    using handle_moves [OF route_rest_moves [OF that, of x "CHR ''a'' # m"] assms(4)] u
    by (simp add: tidy_def only_def)
  ultimately show ?thesis by (auto split: option.split)
qed

text \<open>For the witness, a codec that reads back all it writes: the number of a value.\<close>

instance pyval :: countable
  by countable_datatype

definition number_load :: "string \<Rightarrow> pyerr + pyval" where
  "number_load s = Inr (from_nat (nat (digits_val s)))"

definition number_dump :: "pyval \<Rightarrow> string" where
  "number_dump v = dec_digits (int (to_nat v))"

definition number_ext :: "(unit, sim) ext" where
  "number_ext = dock_ext \<lparr> x_load := number_load, x_dump := number_dump \<rparr>"

lemma number_yaml_ok: "yaml_ok number_ext"
proof -
  have "CR \<notin> set (number_dump v)" for v
    using all_digits_dec [of "int (to_nat v)"] by (auto simp: number_dump_def list_all_iff is_digit_def in_range_def)
  then show ?thesis
    by (simp add: yaml_ok_def number_ext_def number_load_def universal_newlines_id)
      (simp add: number_dump_def digits_val_dec)
qed

theorem history_keeps_identities_witness:
  "\<exists>resp v. handle toy_crypto number_ext example_app (Some ''secret'')
      (CreateInstance \<lparr> c_inst = dock_inst, c_ldap_ca_pem = None \<rparr>) (dock_world \<lparr> w_insts := [] \<rparr>) = (resp, v)
    \<and> names_ok number_ext v \<and> look_inst number_ext v ''b'' = Inr None"
proof -
  let ?req = "CreateInstance \<lparr> c_inst = dock_inst, c_ldap_ca_pem = None \<rparr>" and ?w = "dock_world \<lparr> w_insts := [] \<rparr>"
  obtain resp v where run: "handle toy_crypto number_ext example_app (Some ''secret'') ?req ?w = (resp, v)"
    by (metis surj_pair)
  have "names_ok number_ext ?w" by (auto simp: names_ok_def look_inst_def)
  note names = history_keeps_identities [OF number_yaml_ok this served.nothing run]
  have "look_inst number_ext ?w ''b'' = Inr None" by (simp add: look_inst_def unsafe_name_def sublist_def)
  moreover have "i_name dock_inst = ''a''" by (simp add: dock_inst_def)
  ultimately show ?thesis using names run by auto
qed

end
