(* ===== verification/Races.thy ===== *)
theory Races
  imports ApiProps
begin

text \<open>
  Requests that overlap. FastAPI runs the handlers that block in threads of a pool, and no lock guards the
  store: a handler that reads a record, and writes what it made of it, can be overtaken in between. Here a
  request is a thread that takes turns on the shared state: a handler that writes records reads in one turn and
  does the rest in another, and an update lets others in once more, while it watches the new container.
\<close>

section \<open>Turns\<close>

text \<open>
  \<open>Asked\<close>: a request that has done nothing yet. \<open>Holding\<close>: its guards passed and the record was read.
  \<open>Watching\<close>: an update of an instance to an image waits for health, with the record to go back to.
\<close>

datatype thread =
    Asked "string option" request
  | Holding request inst
  | Watching string string inst
  | Answered "api_error + payload"

inductive turn ::
  "('k, 'p, 'n, 'c, 'd) crypto \<Rightarrow> ('g, 'd) ext \<Rightarrow> app \<Rightarrow>
     ('g, 'd) world \<times> thread list \<Rightarrow> ('g, 'd) world \<times> thread list \<Rightarrow> bool"
  for k x a where
  whole: "j < length ts \<Longrightarrow> ts ! j = Asked cred req \<Longrightarrow> route k x a cred req w = (r, w')
    \<Longrightarrow> turn k x a (w, ts) (w', ts[j := Answered r])"
| read: "j < length ts \<Longrightarrow> ts ! j = Asked cred req \<Longrightarrow> overtaken req \<Longrightarrow> target req = Some n
    \<Longrightarrow> authorised a cred \<Longrightarrow> body_errors req = [] \<Longrightarrow> require x n w = (Inr i, w')
    \<Longrightarrow> turn k x a (w, ts) (w', ts[j := Holding req i])"
| resume: "j < length ts \<Longrightarrow> ts ! j = Holding req i \<Longrightarrow> after_read k x a req i w = (r, w')
    \<Longrightarrow> turn k x a (w, ts) (w', ts[j := Answered r])"
| start: "j < length ts \<Longrightarrow> ts ! j = Holding (UpdateInstance n img) i
    \<Longrightarrow> update_start x (a_conf a) n img w = (Inr (Inl old), w')
    \<Longrightarrow> turn k x a (w, ts) (w', ts[j := Watching n img old])"
| finish: "j < length ts \<Longrightarrow> ts ! j = Watching n img old
    \<Longrightarrow> service (update_finish x (a_conf a) (a_updater a) n img old) w = (r, w')
    \<Longrightarrow> turn k x a (w, ts) (w', ts[j := Answered (map_sum id Updated r)])"

inductive turns ::
  "('k, 'p, 'n, 'c, 'd) crypto \<Rightarrow> ('g, 'd) ext \<Rightarrow> app \<Rightarrow>
     ('g, 'd) world \<times> thread list \<Rightarrow> ('g, 'd) world \<times> thread list \<Rightarrow> bool"
  for k x a where
  stay: "turns k x a s s"
| more: "turns k x a s t \<Longrightarrow> turn k x a t u \<Longrightarrow> turns k x a s u"

lemma two_turns: "turn k x a t u \<Longrightarrow> turn k x a s t \<Longrightarrow> turns k x a s u"
  by (rule turns.more [OF turns.more [OF turns.stay]])

lemma three_turns: "turn k x a s t \<Longrightarrow> turn k x a t u \<Longrightarrow> turn k x a u v \<Longrightarrow> turns k x a s v"
  by (rule turns.more [OF two_turns])

section \<open>What turns keep\<close>

lemma fit_apply_service:
  "yaml_ok x \<Longrightarrow> inst_errors i = [] \<Longrightarrow> moves (fit_kept x) (service (apply_inst x c i))"
  by (intro moves_service fit_apply)

lemma fit_pin: "moves (fit_kept x) (pin_ldap_ca k a n pem)"
  unfolding pin_ldap_ca_def by (intro fit_service keeps_intros aloof_insts)

lemma pin_file: "pin_ldap_ca k a n pem w = (Inr p, w') \<Longrightarrow> pi_file p = LDAP_CA_FILE"
  using write_ldap_ca_file by (fastforce simp: pin_ldap_ca_def service_run split: prod.splits sum.splits)

lemma fit_after:
  assumes "yaml_ok x" and "body_errors req = []" and "inst_errors i = []"
  shows "moves (fit_kept x) (after_read k x a req i)"
proof (cases req)
  case (PatchInstance n p)
  have "moves (fit_kept x) (after_read k x a (PatchInstance n p) i)"
    unfolding after_patch
    by (auto intro!: fitting.moves_raise fitting.moves_bind fitting.moves_return fit_apply_service assms(1) split: option.split)
  with PatchInstance show ?thesis by simp
next
  case (DeleteInstance n)
  have "moves (fit_kept x) (recon_remove x (a_conf a) n)"
    unfolding recon_remove_def
    by (intro fitting.moves_bind fitting.moves_return fit_delete fit_keeps keeps_intros)
      (simp_all add: apart_def keeps_def store_get_run)
  then show ?thesis using DeleteInstance by (auto intro!: fitting.moves_intros moves_service)
next
  case (SetLdapCa n pem)
  then show ?thesis
    by (auto intro!: fitting.moves_bind_Inr [OF fit_pin] fitting.moves_bind fitting.moves_return fit_apply_service assms
        dest!: pin_file simp: pinned_valid [OF assms(3)])
next
  case (UpdateInstance n img)
  then have "re_test image_re img" using assms(2) by (simp add: v_image_def)
  then show ?thesis
    using UpdateInstance by (auto intro!: fitting.moves_bind fitting.moves_return moves_service fit_update assms(1))
next
  case (RollbackInstance n)
  then show ?thesis by (auto intro!: fitting.moves_bind fitting.moves_return moves_service fit_rollback assms(1))
qed (simp_all add: fitting.moves_return)

lemma fit_secured: "(errors = [] \<Longrightarrow> moves (fit_kept x) h) \<Longrightarrow> moves (fit_kept x) (secured a cred errors h)"
  by (auto simp: moves_def secured_def run_bind verify_run fitting.same)

lemma DEFAULT_IMAGE_valid: "re_test image_re DEFAULT_IMAGE"
  by code_simp

lemma fit_create:
  assumes "yaml_ok x" and "create_errors b = []"
  shows "moves (fit_kept x) (create_instance k x a b)"
proof -
  have valid: "inst_errors (c_inst b) = []" using assms(2) by (simp add: create_errors_def)
  show ?thesis
  proof (cases "c_ldap_ca_pem b")
    case None
    then show ?thesis
      unfolding create_instance_def create_valid [OF assms(2)] bind_return_left
      by (auto intro!: fitting.moves_raise fitting.moves_return fitting.moves_bind fit_apply_service assms(1) valid)
  next
    case (Some pem)
    then show ?thesis
      unfolding create_instance_def create_valid [OF assms(2)] bind_return_left
      by (auto simp: bind_assoc pinned_valid [OF valid] dest!: pin_file
          intro!: fitting.moves_bind_Inr [OF fit_pin] fitting.moves_bind fitting.moves_return fit_apply_service assms(1))
  qed
qed

lemma fit_found_or: "moves (fit_kept x) (bindP (found_or s r) (\<lambda>v. returnP (f v)))"
  unfolding found_or_def by (intro fitting.moves_intros)

lemma fit_look_only: "keeps w_insts m \<Longrightarrow> moves (fit_kept x) (bindP (service_or h m) (\<lambda>r. returnP (f r)))"
  by (intro fitting.moves_intros fit_service)

lemma fit_route:
  assumes "yaml_ok x"
  shows "moves (fit_kept x) (route k x a cred req)"
proof (cases "overtaken req")
  case True
  then obtain n where n: "target req = Some n" by (cases req) auto
  show ?thesis
    unfolding route_halves [OF True n] by (intro fit_secured fit_require fit_after assms)
next
  case False
  have all: "req = UpdateAll \<Longrightarrow> moves (fit_kept x) (route k x a cred req)"
    by (auto intro!: fit_secured fitting.moves_bind fitting.moves_return moves_service fit_update_all assms DEFAULT_IMAGE_valid)
  have life: "keeps w_insts (f n) \<Longrightarrow> moves (fit_kept x) (lifecycle x n f)" for n f
    unfolding lifecycle_def by (intro fit_require fit_look_only)
  have params: "moves (fit_kept x) (check_log_params t g)" for t g
    unfolding check_log_params_def by (intro fitting.moves_intros)
  from False have "req \<noteq> UpdateAll \<Longrightarrow> moves (fit_kept x) (route k x a cred req)"
    by (cases req) (auto simp: init_ca_route_def get_ca_def export_ca_route_def instance_logs_def test_instance_def
        issue_cert_def get_cert_def Let_def
      intro!: fit_secured fit_create [OF assms] fit_require life fit_look_only fitting.moves_return fitting.moves_bind
        fit_service fit_found_or params keeps_intros aloof_insts)
  with all show ?thesis by blast
qed

section \<open>Overlapping requests keep the records whole\<close>

text \<open>What a thread holds on to is a valid record of its own instance.\<close>

fun thread_ok :: "thread \<Rightarrow> bool" where
  "thread_ok (Holding req i) \<longleftrightarrow> inst_errors i = [] \<and> target req = Some (i_name i) \<and> body_errors req = []"
| "thread_ok (Watching n img i) \<longleftrightarrow> inst_errors i = [] \<and> i_name i = n"
| "thread_ok _ \<longleftrightarrow> True"

definition whole_state :: "('g, 'd) ext \<Rightarrow> ('g, 'd) world \<times> thread list \<Rightarrow> bool" where
  "whole_state x s \<longleftrightarrow> fit x (fst s) \<and> names_ok x (fst s) \<and> list_all thread_ok (snd s)"

lemma thread_okD: "list_all thread_ok ts \<Longrightarrow> j < length ts \<Longrightarrow> thread_ok (ts ! j)"
  by (simp add: list_all_length)

lemma threads_update: "list_all thread_ok ts \<Longrightarrow> thread_ok t \<Longrightarrow> list_all thread_ok (ts[j := t])"
  by (auto simp: list_all_iff dest!: set_update_subset_insert [THEN subsetD])

lemma whole_moved:
  assumes "moves (fit_kept x) m" and "moves (names_kept x) m" and "m w = (r, w')"
    and "whole_state x (w, ts)" and "thread_ok t"
  shows "whole_state x (w', ts[j := t])"
  using movesD [OF assms(1,3)] movesD [OF assms(2,3)] assms(4,5)
  by (simp add: whole_state_def fit_kept_def names_kept_def threads_update)

lemma turn_whole:
  assumes "turn k x a s t" and "yaml_ok x" and "whole_state x s"
  shows "whole_state x t"
  using assms
proof (induction rule: turn.induct)
  case (whole j ts cred req w r w')
  then show ?case by (intro whole_moved [OF fit_route route_names]) simp_all
next
  case (read j ts cred req n w i w')
  then have "w' = w" "look_inst x w n = Inr (Some i)"
    by (auto simp: require_run split: if_splits sum.splits option.splits)
  with read look_valid show ?case by (auto simp: whole_state_def names_ok_def intro!: threads_update)
next
  case (resume j ts req i w r w')
  then have ok: "inst_errors i = []" "target req = Some (i_name i)" "body_errors req = []"
    using thread_okD [of ts j] by (auto simp: whole_state_def)
  with resume show ?case
    by (intro whole_moved [OF fit_after tidy_names [OF tidy_after]]) simp_all
next
  case (start j ts n img i w old w')
  then have "re_test image_re img" using thread_okD [of ts j] by (auto simp: whole_state_def v_image_def)
  moreover have "look_inst x w n = Inr (Some old)" by (rule update_start_old [OF start.hyps(3)])
  then have "thread_ok (Watching n img old)"
    using look_valid start.prems(2) by (auto simp: whole_state_def names_ok_def)
  ultimately show ?case
    using start by (intro whole_moved [OF fit_start tidy_names [OF tidy_start]]) simp_all
next
  case (finish j ts n img old w r w')
  then have "inst_errors old = []" "i_name old = n" using thread_okD [of ts j] by (auto simp: whole_state_def)
  with finish show ?case
    by (intro whole_moved [OF moves_service [OF fit_finish] moves_service [OF tidy_names [OF tidy_finish]]]) simp_all
qed

lemma turns_whole: "turns k x a s t \<Longrightarrow> yaml_ok x \<Longrightarrow> whole_state x s \<Longrightarrow> whole_state x t"
  by (induction rule: turns.induct) (auto dest: turn_whole)

text \<open>Threads that are not for the instance \<open>n\<close>, and what they leave alone.\<close>

fun foreign :: "string \<Rightarrow> thread \<Rightarrow> bool" where
  "foreign n (Asked cred req) \<longleftrightarrow> req \<noteq> UpdateAll \<and> target req \<noteq> Some n"
| "foreign n (Holding req i) \<longleftrightarrow> target req \<noteq> Some n"
| "foreign n (Watching m img i) \<longleftrightarrow> m \<noteq> n"
| "foreign n (Answered r) \<longleftrightarrow> True"

lemma tidy_other: "moves (tidy x m) p \<Longrightarrow> p w = (r, w') \<Longrightarrow> names_ok x w \<Longrightarrow> m \<noteq> n \<Longrightarrow> look_inst x w' n = look_inst x w n"
  by (drule movesD, assumption) (auto simp: tidy_def only_def)

lemma foreign_route:
  assumes "yaml_ok x" and "req \<noteq> UpdateAll" and "target req \<noteq> Some n" and "names_ok x w"
    and "route k x a cred req w = (r, w')"
  shows "look_inst x w' n = look_inst x w n"
proof (cases "target req")
  case (Some m)
  with tidy_other [OF route_moves [OF assms(1) Some] assms(5,4)] assms(3) show ?thesis by simp
next
  case None
  show ?thesis
    by (rule tidy_other [OF route_rest_moves [OF None assms(2), of x "CHR ''a'' # n"] assms(5,4)]) simp
qed

lemma foreign_update: "list_all (foreign n) ts \<Longrightarrow> foreign n t \<Longrightarrow> list_all (foreign n) (ts[j := t])"
  by (auto simp: list_all_iff dest!: set_update_subset_insert [THEN subsetD])

lemma foreignD: "list_all (foreign n) ts \<Longrightarrow> j < length ts \<Longrightarrow> foreign n (ts ! j)"
  by (simp add: list_all_length)

lemma turn_foreign:
  assumes "turn k x a s t" and "yaml_ok x" and "whole_state x s" and "list_all (foreign n) (snd s)"
  shows "list_all (foreign n) (snd t) \<and> look_inst x (fst t) n = look_inst x (fst s) n"
  using assms
proof (induction rule: turn.induct)
  case (whole j ts cred req w r w')
  then have "req \<noteq> UpdateAll" "target req \<noteq> Some n" "names_ok x w"
    using foreignD [of n ts j] by (auto simp: whole_state_def)
  from foreign_route [OF whole.prems(1) this whole.hyps(3)] whole.prems(3) show ?case by (simp add: foreign_update)
next
  case (read j ts cred req m w i w')
  then have "target req \<noteq> Some n" "w' = w" using foreignD [of n ts j] by (auto simp: require_run)
  with read.prems(3) show ?case by (simp add: foreign_update)
next
  case (resume j ts req i w r w')
  then have "target req = Some (i_name i)" "i_name i \<noteq> n" and names: "names_ok x w"
    using thread_okD [of ts j] foreignD [of n ts j] by (auto simp: whole_state_def)
  with tidy_other [OF tidy_after [OF resume.prems(1)] resume.hyps(3) names] resume.prems(3)
  show ?case by (auto simp: foreign_update)
next
  case (start j ts m img i w old w')
  then have "m \<noteq> n" and names: "names_ok x w" using foreignD [of n ts j] by (auto simp: whole_state_def)
  with tidy_other [OF tidy_start [OF start.prems(1)] start.hyps(3) names] start.prems(3)
  show ?case by (auto simp: foreign_update)
next
  case (finish j ts m img old w r w')
  then have "i_name old = m" "m \<noteq> n" and names: "names_ok x w"
    using thread_okD [of ts j] foreignD [of n ts j] by (auto simp: whole_state_def)
  with tidy_other [OF moves_service [OF tidy_finish [OF finish.prems(1)]] finish.hyps(3) names] finish.prems(3)
  show ?case by (auto simp: foreign_update)
qed

lemma turns_foreign:
  "turns k x a s t \<Longrightarrow> yaml_ok x \<Longrightarrow> whole_state x s \<Longrightarrow> list_all (foreign n) (snd s)
    \<Longrightarrow> list_all (foreign n) (snd t) \<and> look_inst x (fst t) n = look_inst x (fst s) n"
  by (induction rule: turns.induct) (auto dest: turn_foreign turns_whole)



section \<open>Overlapping requests lose updates\<close>

lemma patch_second_half:
  assumes "merge_patch i p = Some j" and "storable x j" and "i_name j = n"
  shows "\<exists>r w'. after_read k x a (PatchInstance n p) i w = (r, w') \<and> look_inst x w' = (look_inst x w)(n := Inr (Some j))"
proof -
  have valid: "inst_errors j = []" using assms(2) by (simp add: storable_def)
  obtain r w' where r: "bindP (service (apply_inst x (a_conf a) j)) (\<lambda>st. returnP (Applied j st None)) w = (r, w')"
    by fastforce
  with apply_service(1) [OF assms(2) r] assms(3) show ?thesis unfolding after_patch by (simp add: assms(1) valid)
qed

text \<open>
  C20: The last writer wins with what it read first. A PATCH and any other request, at the same time: there is a
  run in which both are answered, the other as if it were alone, and in which afterwards the record of the
  instance is what the PATCH made of the record before both. So whatever the other request did to that record
  is lost, a PATCH of other fields or an update, and an instance that was deleted is back.
\<close>

theorem stale_patch_wins:
  assumes "authorised a cred" and "re_test name_re n" and "patch_errors p = []"
    and "look_inst x w n = Inr (Some i)" and "i_name i = n"
    and "merge_patch i p = Some j" and "storable x j"
    and "route k x a other_cred other w = (answer, w1)"
  shows "\<exists>r w'. turns k x a (w, [Asked cred (PatchInstance n p), Asked other_cred other]) (w', [Answered r, Answered answer])
    \<and> look_inst x w' = (look_inst x w1)(n := Inr (Some j))"
proof -
  let ?req = "PatchInstance n p"
  have "i_name j = n" using merge_patch_name [OF assms(6)] assms(5) by simp
  from patch_second_half [OF assms(6,7) this] obtain r w' where
    second: "after_read k x a ?req i w1 = (r, w')" and look: "look_inst x w' = (look_inst x w1)(n := Inr (Some j))" by blast
  have req: "require x n w = (Inr i, w)" using assms(2,4) by (simp add: require_run)
  have "turn k x a (w, [Asked cred ?req, Asked other_cred other]) (w, [Asked cred ?req, Asked other_cred other][0 := Holding ?req i])"
    by (rule turn.read [OF _ _ _ _ assms(1) _ req]) (simp_all add: assms(3))
  moreover have "turn k x a (w, [Holding ?req i, Asked other_cred other]) (w1, [Holding ?req i, Asked other_cred other][1 := Answered answer])"
    using assms(8) by (intro turn.whole) simp_all
  moreover have "turn k x a (w1, [Holding ?req i, Answered answer]) (w', [Holding ?req i, Answered answer][0 := Answered r])"
    by (rule turn.resume [OF _ _ second]) simp_all
  ultimately have "turns k x a (w, [Asked cred ?req, Asked other_cred other]) (w', [Answered r, Answered answer])"
    by simp (rule three_turns)
  with look show ?thesis by blast
qed

text \<open>In the witness the instance is deleted while a PATCH of its image is on the way.\<close>

theorem stale_patch_wins_witness:
  "\<exists>r answer w'. turns toy_crypto dock_ext example_app
      (dock_world, [Asked (Some ''secret'') (PatchInstance ''a'' new_image), Asked (Some ''secret'') (DeleteInstance ''a'')])
      (w', [Answered r, Answered answer])
    \<and> look_inst dock_ext w' ''a'' = Inr (Some (dock_inst \<lparr> i_image := ''s:1'' \<rparr>))"
proof -
  have auth: "authorised example_app (Some ''secret'')" by (simp add: authorised_def example_app_def)
  have name: "re_test name_re ''a''" by code_simp
  have body: "patch_errors new_image = []" by (simp add: patch_errors_def new_image_def no_change_def)
  have look: "look_inst dock_ext dock_world ''a'' = Inr (Some dock_inst)" by code_simp
  have named: "i_name dock_inst = ''a''" by (simp add: dock_inst_def)
  have merged: "merge_patch dock_inst new_image = Some (dock_inst \<lparr> i_image := ''s:1'' \<rparr>)"
    by (simp add: merge_patch_def merged_field_def new_image_def no_change_def)
  have st: "storable dock_ext (dock_inst \<lparr> i_image := ''s:1'' \<rparr>)" by code_simp
  obtain answer w1 where del: "route toy_crypto dock_ext example_app (Some ''secret'') (DeleteInstance ''a'') dock_world = (answer, w1)"
    by fastforce
  from stale_patch_wins [OF auth name body look named merged st del] show ?thesis by fastforce
qed

text \<open>
  The longer window: an update that watches its container for minutes, and goes back to the record it read at
  the start, undoes what any request did to the instance in the meantime.
\<close>

theorem rollback_undoes:
  assumes "storable x old" and "i_name old = n"
    and "route k x a other_cred other w = (answer, w1)"
    and "wait_healthy x (a_updater a) n w1 = (Inr False, w2)"
  shows "\<exists>r w'. turns k x a (w, [Watching n img old, Asked other_cred other]) (w', [Answered r, Answered answer])
    \<and> look_inst x w' = (look_inst x w1)(n := Inr (Some old))"
proof -
  obtain q w' where undo: "apply_inst x (a_conf a) old w2 = (q, w')" by fastforce
  have "keeps (look_inst x) (wait_healthy x (a_updater a) n)" by (intro keeps_wait_healthy) simp
  from keepsD [OF this assms(4)] apply_look [OF assms(1) undo] assms(2)
  have look: "look_inst x w' = (look_inst x w1)(n := Inr (Some old))" by simp
  obtain r where fin: "service (update_finish x (a_conf a) (a_updater a) n img old) w1 = (r, w')"
    using assms(4) undo by (cases q) (auto simp: service_run update_finish_def run_bind)
  have "turn k x a (w1, [Watching n img old, Answered answer])
      (w', [Watching n img old, Answered answer][0 := Answered (map_sum id Updated r)])"
    by (rule turn.finish [OF _ _ fin]) simp_all
  moreover have "turn k x a (w, [Watching n img old, Asked other_cred other])
      (w1, [Watching n img old, Asked other_cred other][1 := Answered answer])"
    using assms(3) by (intro turn.whole) simp_all
  ultimately have "turns k x a (w, [Watching n img old, Asked other_cred other])
      (w', [Answered (map_sum id Updated r), Answered answer])"
    by simp (rule two_turns)
  with look show ?thesis by blast
qed

end
