(* ===== verification/Config.thy ===== *)
theory Config
  imports Api Sim
begin

text \<open>
  \<open>config.py\<close> and \<open>main.py\<close>: the settings, from a YAML file overlaid by the environment, and how \<open>main\<close> builds
  the application from them. \<open>env\<close> is \<open>os.environ\<close>, a list of distinct names with values. What
  \<open>BaseSettings\<close> does with the fields is written out as documented: arguments before the environment, whose
  names it matches without regard to case, before defaults; unknown arguments are an error.
\<close>

definition ENV_PREFIX :: string where
  "ENV_PREFIX = ''LMNRADIUS_''"

record settings =
  se_api_token :: string
  se_instances_dir :: string
  se_secrets_dir :: string
  se_certs_dir :: string
  se_render_dir :: string
  se_docker_host :: "string option"
  se_bind_host :: string
  se_bind_port :: int
  se_api_url :: string
  se_container_bind_ip :: string
  se_log_max_size :: string
  se_log_max_file :: int
  se_host_ip :: "string option"

definition setting_fields :: "string list" where
  "setting_fields = [''api_token'', ''instances_dir'', ''secrets_dir'', ''certs_dir'', ''render_dir'', ''docker_host'',
     ''bind_host'', ''bind_port'', ''api_url'', ''container_bind_ip'', ''log_max_size'', ''log_max_file'', ''host_ip'']"

text \<open>The value of a field: an argument, else the environment (the last of names that differ in case only).\<close>

definition env_value :: "(string \<times> string) list \<Rightarrow> string \<Rightarrow> string option" where
  "env_value env field = map_of (rev (map (\<lambda>(k, v). (lower k, v)) env)) (lower (ENV_PREFIX @ field))"

definition field_value :: "(string \<times> string) list \<Rightarrow> (string \<times> pyval) list \<Rightarrow> string \<Rightarrow> pyval option" where
  "field_value env args field =
     (case map_of args field of Some v \<Rightarrow> Some v | None \<Rightarrow> map_option PStr (env_value env field))"

definition int_setting :: "(pyval \<Rightarrow> int option) \<Rightarrow> int \<Rightarrow> pyval option \<Rightarrow> int option" where
  "int_setting lax dflt v = (case v of None \<Rightarrow> Some dflt | Some (PInt n) \<Rightarrow> Some n | Some u \<Rightarrow> lax u)"

text \<open>\<open>Settings(**args)\<close>.\<close>

definition settings_of ::
  "(pyval \<Rightarrow> int option) \<Rightarrow> (string \<times> string) list \<Rightarrow> (string \<times> pyval) list \<Rightarrow> pyerr + settings" where
  "settings_of lax env args =
     (let get = field_value env args; txt = (\<lambda>d f. str_field (Some d) (get f)) in
      if \<not> list_all (\<lambda>(k, _). k \<in> set setting_fields) args then Inl ValidationErr
      else
        (case (str_field None (get ''api_token''),
               txt ''/var/lib/linuxmuster-radius/instances'' ''instances_dir'',
               txt ''/etc/linuxmuster-radius/secrets'' ''secrets_dir'',
               txt ''/etc/linuxmuster-radius/certs'' ''certs_dir'',
               txt ''/var/lib/linuxmuster-radius/instance.d'' ''render_dir'',
               opt_str_field (get ''docker_host''), txt ''127.0.0.1'' ''bind_host'') of
           (Some token, Some insts, Some secrets, Some certs, Some render, Some docker_host, Some bind_host) \<Rightarrow>
             (case (int_setting lax 8080 (get ''bind_port''), txt ''http://127.0.0.1:8080'' ''api_url'',
                    txt ''0.0.0.0'' ''container_bind_ip'', txt ''20m'' ''log_max_size'',
                    int_setting lax 5 (get ''log_max_file''), opt_str_field (get ''host_ip'')) of
                (Some port, Some url, Some bind_ip, Some size_max, Some files, Some host_ip) \<Rightarrow>
                  Inr \<lparr> se_api_token = token, se_instances_dir = insts, se_secrets_dir = secrets,
                    se_certs_dir = certs, se_render_dir = render, se_docker_host = docker_host,
                    se_bind_host = bind_host, se_bind_port = port, se_api_url = url,
                    se_container_bind_ip = bind_ip, se_log_max_size = size_max, se_log_max_file = files,
                    se_host_ip = host_ip \<rparr>
              | _ \<Rightarrow> Inl ValidationErr)
         | _ \<Rightarrow> Inl ValidationErr))"

section \<open>Loading\<close>

text \<open>\<open>str(key)\<close> of a key of the file, for the keys YAML gives.\<close>

fun key_text :: "pyval \<Rightarrow> string" where
  "key_text PNone = ''None''"
| "key_text (PBool b) = (if b then ''True'' else ''False'')"
| "key_text (PInt n) = str_int n"
| "key_text (PStr s) = s"
| "key_text _ = []"

definition in_environ :: "(string \<times> string) list \<Rightarrow> string \<Rightarrow> bool" where
  "in_environ env field = (map_of env (ENV_PREFIX @ upper field) \<noteq> None)"

definition add_override ::
  "(string \<times> string) list \<Rightarrow> pyval \<times> pyval \<Rightarrow> (string \<times> pyval) list \<Rightarrow> (string \<times> pyval) list" where
  "add_override env kv args =
     (let field = key_text (fst kv) in
      if in_environ env field then args else AList.update field (snd kv) args)"

definition overrides_of :: "(string \<times> string) list \<Rightarrow> pyval \<Rightarrow> (string \<times> pyval) list" where
  "overrides_of env data =
     (case data of PDict d \<Rightarrow> fold (add_override env) d [] | _ \<Rightarrow> [])"

text \<open>Whether the file is readable for others, which is logged as a warning.\<close>

definition too_open :: "fs \<Rightarrow> path \<Rightarrow> bool" where
  "too_open fs p = (case stat fs p of Some (FFile _ mode) \<Rightarrow> mode mod 64 \<noteq> 0 | _ \<Rightarrow> False)"

definition load_settings ::
  "('g, 'd) ext \<Rightarrow> (string \<times> string) list \<Rightarrow> fs \<Rightarrow> string option \<Rightarrow> pyerr + settings \<times> bool" where
  "load_settings x env fs config_path =
     (let path = (case config_path of
            Some p \<Rightarrow> p
          | None \<Rightarrow> (case map_of env ''LMNRADIUS_CONFIG'' of Some p \<Rightarrow> p | None \<Rightarrow> ''/etc/linuxmuster-radius/config.yml''));
          p = comps path in
      if path \<noteq> [] \<and> isfile fs p then
        bindE (read_file fs p) (\<lambda>text.
        bindE (x_load x text) (\<lambda>data.
        bindE (settings_of (x_int x) env (overrides_of env (if truthy data then data else PDict []))) (\<lambda>s.
        Inr (s, too_open fs p))))
      else bindE (settings_of (x_int x) env []) (\<lambda>s. Inr (s, False)))"

section \<open>The application\<close>

definition insecure_bind :: "string \<Rightarrow> bool" where
  "insecure_bind bind_host = (bind_host \<notin> {''127.0.0.1'', ''localhost'', ''::1''})"

definition conf_of :: "settings \<Rightarrow> conf" where
  "conf_of s = default_conf \<lparr>
     c_secrets_dir := se_secrets_dir s, c_certs_dir := se_certs_dir s, c_render_dir := se_render_dir s,
     c_bind_ip := se_container_bind_ip s, c_log_max_size := se_log_max_size s,
     c_log_max_file := se_log_max_file s, c_host_ip := se_host_ip s \<rparr>"

definition app_of :: "string \<Rightarrow> settings \<Rightarrow> app" where
  "app_of version s = \<lparr> a_token = se_api_token s, a_version = version, a_conf = conf_of s,
     a_updater = default_updater \<rparr>"

section \<open>The environment wins\<close>

text \<open>The value of a setting under the name of its field.\<close>

definition setting_value :: "settings \<Rightarrow> string \<Rightarrow> pyval option" where
  "setting_value s = map_of
     [(''api_token'', PStr (se_api_token s)), (''instances_dir'', PStr (se_instances_dir s)),
      (''secrets_dir'', PStr (se_secrets_dir s)), (''certs_dir'', PStr (se_certs_dir s)),
      (''render_dir'', PStr (se_render_dir s)), (''docker_host'', str_or_none (se_docker_host s)),
      (''bind_host'', PStr (se_bind_host s)), (''bind_port'', PInt (se_bind_port s)),
      (''api_url'', PStr (se_api_url s)), (''container_bind_ip'', PStr (se_container_bind_ip s)),
      (''log_max_size'', PStr (se_log_max_size s)), (''log_max_file'', PInt (se_log_max_file s)),
      (''host_ip'', str_or_none (se_host_ip s))]"

lemma add_override_other:
  "in_environ env f \<Longrightarrow> map_of (fold (add_override env) d args) f = map_of args f"
  by (induction d arbitrary: args) (auto simp: add_override_def Let_def update_conv')

lemma overrides_env: "in_environ env f \<Longrightarrow> map_of (overrides_of env data) f = None"
  using add_override_other [of env f _ "[]"] by (auto simp: overrides_of_def split: pyval.split)

lemma lower_upper_fields: "list_all (\<lambda>f. lower (ENV_PREFIX @ upper f) = lower (ENV_PREFIX @ f)) setting_fields"
  by code_simp

lemma env_value_named:
  assumes "map_of env (ENV_PREFIX @ upper f) = Some v" and "f \<in> set setting_fields"
    and "\<And>k u. (k, u) \<in> set env \<Longrightarrow> lower k = lower (ENV_PREFIX @ f) \<Longrightarrow> k = ENV_PREFIX @ upper f"
    and "distinct (map fst env)"
  shows "env_value env f = Some v"
proof -
  let ?l = "rev (map (\<lambda>(k, u). (lower k, u)) env)" and ?n = "lower (ENV_PREFIX @ f)"
  have "(?n, v) \<in> set ?l"
    using assms(1,2) lower_upper_fields map_of_SomeD [of env] by (force simp: list_all_iff)
  then obtain u where u: "map_of ?l ?n = Some u" by (metis map_of_eq_None_iff fst_conv image_eqI not_None_eq)
  then obtain k where "(k, u) \<in> set env" "lower k = ?n" using map_of_SomeD [OF u] by auto
  with assms(3,4) have "map_of env (ENV_PREFIX @ upper f) = Some u" by auto
  with assms(1) u show ?thesis by (simp add: env_value_def)
qed

lemma settings_of_Inr:
  assumes "settings_of lax env args = Inr s" and "get = field_value env args"
  shows "str_field None (get ''api_token'') = Some (se_api_token s)"
    and "\<exists>d. str_field (Some d) (get ''instances_dir'') = Some (se_instances_dir s)"
    and "\<exists>d. str_field (Some d) (get ''secrets_dir'') = Some (se_secrets_dir s)"
    and "\<exists>d. str_field (Some d) (get ''certs_dir'') = Some (se_certs_dir s)"
    and "\<exists>d. str_field (Some d) (get ''render_dir'') = Some (se_render_dir s)"
    and "opt_str_field (get ''docker_host'') = Some (se_docker_host s)"
    and "\<exists>d. str_field (Some d) (get ''bind_host'') = Some (se_bind_host s)"
    and "\<exists>d. int_setting lax d (get ''bind_port'') = Some (se_bind_port s)"
    and "\<exists>d. str_field (Some d) (get ''api_url'') = Some (se_api_url s)"
    and "\<exists>d. str_field (Some d) (get ''container_bind_ip'') = Some (se_container_bind_ip s)"
    and "\<exists>d. str_field (Some d) (get ''log_max_size'') = Some (se_log_max_size s)"
    and "\<exists>d. int_setting lax d (get ''log_max_file'') = Some (se_log_max_file s)"
    and "opt_str_field (get ''host_ip'') = Some (se_host_ip s)"
  using assms(1) unfolding settings_of_def Let_def assms(2) [symmetric]
  by (auto split: if_splits option.splits intro!: exI)

lemma str_field_given: "str_field d (Some v) = Some t \<Longrightarrow> v = PStr t"
  by (auto simp: str_field_def split: pyval.splits)

lemma opt_str_field_given: "opt_str_field (Some v) = Some t \<Longrightarrow> v = str_or_none t"
  by (auto simp: opt_str_field_def str_or_none_def split: pyval.splits)

lemma int_setting_given: "int_setting lax d (Some v) = int_setting lax e (Some v)"
  by (simp add: int_setting_def)

lemma settings_of_values:
  assumes "settings_of lax env args = Inr s" and "f \<in> set setting_fields" and "field_value env args f = Some v"
  shows "if f \<in> {''bind_port'', ''log_max_file''}
    then \<exists>n. int_setting lax 0 (Some v) = Some n \<and> setting_value s f = Some (PInt n)
    else setting_value s f = Some v"
proof -
  note all = settings_of_Inr [OF assms(1) refl]
  show ?thesis
    using assms(2) unfolding setting_fields_def set_simps insert_iff empty_iff
    by (elim disjE FalseE; insert all assms(3); hypsubst_thin)
      (auto simp: setting_value_def dest!: str_field_given opt_str_field_given intro: int_setting_given [THEN trans])
qed


text \<open>For the witness, a file with a token of its own, and a token in the environment.\<close>

definition config_ext :: "(unit, sim) ext" where
  "config_ext = sim_ext \<lparr> u_book = (\<lambda>_. Some (PDict
     [(PStr ''api_token'', PStr ''old''), (PStr ''bind_host'', PStr ''0.0.0.0'')])), u_attrs = (\<lambda>_. []), u_broken = [] \<rparr>"

definition config_files :: fs where
  "config_files = [([''etc''], FDir 0), ([''etc'', ''c.yml''], FFile (Text ''token'') 416)]"


end
