(* ===== verification/Wire.thy ===== *)
theory Wire
  imports Config
begin

text \<open>
  The HTTP interface of \<open>api.py\<close>: which method and path lead to which handler (the decorators of the routes),
  how a body becomes the request model of the handler (the field types in \<open>models.py\<close>), and the JSON of
  each answer (what the handlers return). A message is taken as the framework hands it on: its path as a
  text, its query values and its JSON body as Python values.
\<close>

section \<open>Messages\<close>

datatype verb = GET | POST | PUT | PATCH | DELETE

record message =
  m_verb :: verb
  m_path :: string
  m_query :: "(string \<times> pyval) list"
  m_json :: "pyval option"

text \<open>The lax conversion to integers is pydantic's, as in the world's \<open>x_int\<close>.\<close>

type_synonym lax = "pyval \<Rightarrow> int option"

section \<open>Bodies\<close>

definition json_object :: "message \<Rightarrow> (pyval \<times> pyval) list option" where
  "json_object m = (case m_json m of Some (PDict d) \<Rightarrow> Some d | _ \<Rightarrow> None)"

definition create_body :: "lax \<Rightarrow> (pyval \<times> pyval) list \<Rightarrow> inst_create option" where
  "create_body lax d =
     (case (inst_fields lax d, opt_str_field (dget d ''ldap_ca_pem'')) of
        (Some i, Some pem) \<Rightarrow> Some \<lparr> c_inst = i, c_ldap_ca_pem = pem \<rparr> | _ \<Rightarrow> None)"

text \<open>A field of a patch: left out, null, or of its type.\<close>

definition patch_field :: "(pyval \<Rightarrow> 'a option) \<Rightarrow> (pyval \<times> pyval) list \<Rightarrow> string \<Rightarrow> 'a option option option" where
  "patch_field f d k =
     (case dget d k of
        None \<Rightarrow> Some None
      | Some PNone \<Rightarrow> Some (Some None)
      | Some v \<Rightarrow> map_option (Some \<circ> Some) (f v))"

definition list_val :: "(pyval \<Rightarrow> 'a option) \<Rightarrow> pyval \<Rightarrow> 'a list option" where
  "list_val f v = list_field f (Some v)"

definition patch_body :: "lax \<Rightarrow> (pyval \<times> pyval) list \<Rightarrow> inst_patch option" where
  "patch_body lax d =
     (let txt = patch_field str_val d in
      case (txt ''realm'', txt ''workgroup'', txt ''server_fqdn'', txt ''ldap_server'', txt ''ldap_base_dn'',
            txt ''ldap_bind_dn'', txt ''wifi_group'') of
        (Some rl, Some wg, Some fq, Some ls, Some ba, Some bi, Some wi) \<Rightarrow>
          (case (patch_field (list_val str_val) d ''client_subnets'', patch_field (list_val (ssid_of_val lax)) d ''ssids'',
                 txt ''join_secret'', txt ''ldap_bind_secret'', txt ''radius_secret'', txt ''image'', txt ''ldap_ca'') of
             (Some cs, Some ss, Some js, Some lb, Some rs, Some im, Some ca) \<Rightarrow>
               Some \<lparr> p_realm = rl, p_workgroup = wg, p_server_fqdn = fq, p_ldap_server = ls, p_ldap_base_dn = ba,
                 p_ldap_bind_dn = bi, p_wifi_group = wi, p_client_subnets = cs, p_ssids = ss, p_join_secret = js,
                 p_ldap_bind_secret = lb, p_radius_secret = rs, p_image = im, p_ldap_ca = ca \<rparr>
           | _ \<Rightarrow> None)
      | _ \<Rightarrow> None)"

definition ldap_ca_body :: "(pyval \<times> pyval) list \<Rightarrow> string option" where
  "ldap_ca_body d = str_field None (dget d ''pem'')"

definition update_body :: "(pyval \<times> pyval) list \<Rightarrow> string option" where
  "update_body d = str_field (Some DEFAULT_IMAGE) (dget d ''image'')"

definition ca_init_body :: "lax \<Rightarrow> (pyval \<times> pyval) list \<Rightarrow> ca_init_request option" where
  "ca_init_body lax d =
     (case (str_field None (dget d ''passphrase''), str_field (Some ''linuxmuster-radius EAP CA'') (dget d ''common_name''),
            int_setting lax 3652 (dget d ''validity_days'')) of
        (Some p, Some c, Some v) \<Rightarrow> Some \<lparr> ci_passphrase = p, ci_common_name = c, ci_validity_days = v \<rparr>
      | _ \<Rightarrow> None)"

definition cert_issue_body :: "lax \<Rightarrow> (pyval \<times> pyval) list \<Rightarrow> cert_issue_request option" where
  "cert_issue_body lax d =
     (case (str_field None (dget d ''passphrase''), opt_str_field (dget d ''fqdn''),
            int_setting lax 1095 (dget d ''validity_days'')) of
        (Some p, Some f, Some v) \<Rightarrow> Some \<lparr> ce_passphrase = p, ce_fqdn = f, ce_validity_days = v \<rparr>
      | _ \<Rightarrow> None)"

definition test_body :: "(pyval \<times> pyval) list \<Rightarrow> test_request option" where
  "test_body d =
     (case (opt_str_field (dget d ''user''), opt_str_field (dget d ''password'')) of
        (Some u, Some p) \<Rightarrow> Some \<lparr> t_user = u, t_password = p \<rparr> | _ \<Rightarrow> None)"

text \<open>The query of the logs route; an absent optional number is \<open>None\<close>.\<close>

definition query_int :: "lax \<Rightarrow> message \<Rightarrow> string \<Rightarrow> int option option" where
  "query_int lax m k =
     (case map_of (m_query m) k of None \<Rightarrow> Some None | Some v \<Rightarrow> map_option Some (int_setting lax 0 (Some v)))"

definition logs_query :: "lax \<Rightarrow> message \<Rightarrow> string \<Rightarrow> request option" where
  "logs_query lax m name =
     (case (int_setting lax 100 (map_of (m_query m) ''tail''), query_int lax m ''since'', query_int lax m ''until'',
            opt_str_field (map_of (m_query m) ''grep'')) of
        (Some t, Some s, Some u, Some g) \<Rightarrow> Some (InstanceLogs name t s u g) | _ \<Rightarrow> None)"

section \<open>Routes\<close>

text \<open>
  What a message is: for no route, for a route whose body or query it does not fit, or a request. The
  routes without an instance are found by their path; the others by what follows the name, which is
  any non-empty part of the path without a slash.
\<close>

datatype parsed = Unrouted | Unfit | Fit request

definition parsed_of :: "request option \<Rightarrow> parsed" where
  "parsed_of r = (case r of None \<Rightarrow> Unfit | Some q \<Rightarrow> Fit q)"

definition with_body :: "message \<Rightarrow> ((pyval \<times> pyval) list \<Rightarrow> 'b option) \<Rightarrow> ('b \<Rightarrow> request) \<Rightarrow> parsed" where
  "with_body m f req = parsed_of (Option.bind (json_object m) (\<lambda>d. map_option req (f d)))"

definition plain_route :: "lax \<Rightarrow> message \<Rightarrow> parsed option" where
  "plain_route lax m = map_of
     [((GET, ''/v1/health''), Fit Health),
      ((GET, ''/v1/version''), Fit Version),
      ((POST, ''/v1/reconcile''), Fit ReconcileAll),
      ((POST, ''/v1/update-all''), Fit UpdateAll),
      ((POST, ''/v1/instances''), with_body m (create_body lax) CreateInstance),
      ((GET, ''/v1/instances''), Fit ListInstances),
      ((POST, ''/v1/ca''), with_body m (ca_init_body lax) InitCa),
      ((GET, ''/v1/ca''), Fit GetCa),
      ((GET, ''/v1/ca/export''), Fit ExportCa)] (m_verb m, m_path m)"

definition instance_route :: "lax \<Rightarrow> message \<Rightarrow> string \<Rightarrow> string \<Rightarrow> parsed" where
  "instance_route lax m name rest =
     (case map_of
       [((GET, []), Fit (GetInstance name)),
        ((PATCH, []), with_body m (patch_body lax) (PatchInstance name)),
        ((DELETE, []), Fit (DeleteInstance name)),
        ((PUT, ''ldap-ca''), with_body m ldap_ca_body (SetLdapCa name)),
        ((POST, ''start''), Fit (StartInstance name)),
        ((POST, ''stop''), Fit (StopInstance name)),
        ((POST, ''restart''), Fit (RestartInstance name)),
        ((GET, ''status''), Fit (InstanceStatus name)),
        ((GET, ''logs''), parsed_of (logs_query lax m name)),
        ((POST, ''update''), with_body m update_body (UpdateInstance name)),
        ((POST, ''rollback''), Fit (RollbackInstance name)),
        ((POST, ''test''), with_body m test_body (TestInstance name)),
        ((POST, ''cert''), with_body m (cert_issue_body lax) (IssueCert name)),
        ((GET, ''cert''), Fit (GetCert name))] (m_verb m, rest) of
      None \<Rightarrow> Unrouted | Some p \<Rightarrow> p)"

definition parse_message :: "lax \<Rightarrow> message \<Rightarrow> parsed" where
  "parse_message lax m =
     (case plain_route lax m of
        Some p \<Rightarrow> p
      | None \<Rightarrow>
          (case split_on (CHR ''/'') (m_path m) of
             [root, v, insts, name] \<Rightarrow>
               if root = [] \<and> v = ''v1'' \<and> insts = ''instances'' \<and> name \<noteq> [] then instance_route lax m name []
               else Unrouted
           | [root, v, insts, name, rest] \<Rightarrow>
               if root = [] \<and> v = ''v1'' \<and> insts = ''instances'' \<and> name \<noteq> [] \<and> rest \<noteq> []
               then instance_route lax m name rest else Unrouted
           | _ \<Rightarrow> Unrouted))"

section \<open>Answers\<close>

definition bool_or_none :: "bool option \<Rightarrow> pyval" where
  "bool_or_none b = (case b of None \<Rightarrow> PNone | Some v \<Rightarrow> PBool v)"

definition int_or_none :: "int option \<Rightarrow> pyval" where
  "int_or_none n = (case n of None \<Rightarrow> PNone | Some v \<Rightarrow> PInt v)"

definition entries :: "(string \<times> pyval) list \<Rightarrow> pyval" where
  "entries xs = PDict (map (\<lambda>(k, v). (PStr k, v)) xs)"

text \<open>\<open>Instance\<close> in an answer: the record, and the computed name of its container.\<close>

definition inst_json :: "inst \<Rightarrow> pyval" where
  "inst_json i =
     (case model_dump i of PDict d \<Rightarrow> PDict (d @ [(PStr ''container_name'', PStr (container_name i))]) | v \<Rightarrow> v)"

definition status_json :: "status \<Rightarrow> pyval" where
  "status_json st = entries
     (if \<not> st_exists st then
        [(''name'', PStr (st_name st)), (''exists'', PBool False), (''running'', PBool False), (''health'', PNone),
         (''image'', PNone)]
      else
        [(''name'', PStr (st_name st)), (''exists'', PBool True), (''running'', PBool (st_running st)),
         (''health'', str_or_none (st_health st)), (''restart_count'', int_or_none (st_restart_count st)),
         (''crash_looping'', PBool (st_crash_looping st)),
         (''exit_code'', case st_exit_code st of None \<Rightarrow> PNone | Some v \<Rightarrow> v), (''image'', str_or_none (st_image st))]
        @ (case st_last_error st of None \<Rightarrow> [] | Some e \<Rightarrow> [(''last_error'', PStr e)]))"

text \<open>An exception whose text an answer holds is turned into that text by \<open>err\<close>, \<open>str(exc)\<close>.\<close>

definition leave_json :: "(pyerr \<Rightarrow> string) \<Rightarrow> leave_result \<Rightarrow> pyval" where
  "leave_json err l = entries
     [(''ok'', PBool (lv_ok l)), (''attempted'', PBool (lv_attempted l)),
      (''detail'', PStr (lv_detail l @ (case lv_cause l of None \<Rightarrow> [] | Some e \<Rightarrow> err e)))]"

definition update_json :: "(pyerr \<Rightarrow> string) \<Rightarrow> update_result \<Rightarrow> pyval" where
  "update_json err r = entries
     ([(''name'', PStr (ur_name r)), (''updated'', PBool (ur_updated r))]
      @ (if ur_skipped r then [(''skipped'', PBool True)] else [])
      @ concat (map (\<lambda>(k, v). case v of None \<Rightarrow> [] | Some s \<Rightarrow> [(k, PStr s)])
          [(''image'', ur_image r), (''previous_image'', ur_previous_image r),
           (''rolled_back_to'', ur_rolled_back_to r), (''failed_image'', ur_failed_image r)])
      @ (case ur_error r of None \<Rightarrow> [] | Some e \<Rightarrow> [(''error'', PStr (err e))]))"

definition bundle_cert_json :: "bundle_cert \<Rightarrow> pyval" where
  "bundle_cert_json c = entries
     [(''subject'', PStr (bc_subject c)), (''issuer'', PStr (bc_issuer c)), (''not_after'', PStr (bc_not_after c)),
      (''sha256_fingerprint'', PStr (bc_fingerprint c)), (''is_ca'', PBool (bc_is_ca c)),
      (''trust_anchor'', PBool (bc_trust_anchor c))]"

definition pinned_json :: "pinned \<Rightarrow> pyval" where
  "pinned_json p = entries
     [(''file'', PStr (pi_file p)), (''certificates'', PList (map bundle_cert_json (pi_certificates p))),
      (''trust_anchor'', PBool (pi_trust_anchor p))]"

definition gate_json :: "gate_row \<Rightarrow> pyval" where
  "gate_json g = entries
     [(''ssid'', PStr (gr_ssid g)), (''group'', PStr (gr_group g)), (''vlan'', int_or_none (gr_vlan g)),
      (''member'', PBool (gr_member g))]"

definition test_json :: "test_result \<Rightarrow> pyval" where
  "test_json t = entries
     ([(''instance'', PStr (te_instance t)), (''container_running'', PBool (te_running t))]
      @ (case te_detail t of None \<Rightarrow> [] | Some s \<Rightarrow> [(''detail'', PStr s)])
      @ (case te_trust t of None \<Rightarrow> []
           | Some v \<Rightarrow> [(''trust'', entries [(''ok'', PBool (tr_ok v)), (''detail'', PStr (tr_detail v))])])
      @ (case te_login t of None \<Rightarrow> []
           | Some v \<Rightarrow> [(''login'', entries [(''ok'', PBool (nt_ok v)), (''code'', PStr (nt_code v)),
               (''detail'', PStr (nt_detail v))])])
      @ (case te_gates t of None \<Rightarrow> [] | Some gs \<Rightarrow> [(''gates'', PList (map gate_json gs))]))"

definition ca_json :: "ca_view \<Rightarrow> pyval" where
  "ca_json v = entries
     [(''subject'', PStr (cv_subject v)), (''serial'', PStr (cv_serial v)), (''not_before'', PStr (cv_not_before v)),
      (''not_after'', PStr (cv_not_after v)), (''sha256_fingerprint'', PStr (cv_fingerprint v))]"

definition server_json :: "server_view \<Rightarrow> pyval" where
  "server_json v = entries
     [(''subject'', PStr (sv_subject v)), (''san'', PList (map PStr (sv_san v))), (''issuer'', PStr (sv_issuer v)),
      (''serial'', PStr (sv_serial v)), (''not_before'', PStr (sv_not_before v)), (''not_after'', PStr (sv_not_after v))]"

text \<open>The body of a successful answer; the certificate alone is plain text.\<close>

datatype body = Json pyval | Plain string

fun answer_body :: "(pyerr \<Rightarrow> string) \<Rightarrow> payload \<Rightarrow> body" where
  "answer_body err HealthOk = Json (entries [(''status'', PStr ''ok'')])"
| "answer_body err (VersionIs v) = Json (entries [(''version'', PStr v)])"
| "answer_body err (Reconciled sts) = Json (entries [(''reconciled'', PList (map status_json sts))])"
| "answer_body err (Results rs) = Json (entries [(''results'', PList (map (update_json err) rs))])"
| "answer_body err (Applied i st pinned) = Json (entries ([(''instance'', inst_json i), (''status'', status_json st)]
     @ (case pinned of None \<Rightarrow> [] | Some p \<Rightarrow> [(''ldap_ca'', pinned_json p)])))"
| "answer_body err (Instances is) = Json (PList (map inst_json is))"
| "answer_body err (OneInstance i) = Json (inst_json i)"
| "answer_body err (Removed name l) = Json (entries [(''name'', PStr name), (''removed'', PBool True),
     (''domain_leave'', leave_json err l)])"
| "answer_body err (StatusIs st) = Json (status_json st)"
| "answer_body err (LogText t) = Json (entries [(''logs'', PStr t)])"
| "answer_body err (Updated r) = Json (update_json err r)"
| "answer_body err (RolledBack name img) = Json (entries [(''name'', PStr name), (''rolled_back_to'', PStr img)])"
| "answer_body err (CaIs v) = Json (ca_json v)"
| "answer_body err (PemText t) = Plain t"
| "answer_body err (Tested t) = Json (test_json t)"
| "answer_body err (CertIs v) = Json (server_json v)"

text \<open>
  The server's side of an exchange: a message that fits a route is handled; one that does not fit it is
  refused by the route, behind its token; a message for no route is left to the framework (\<open>None\<close>).
\<close>

definition serve ::
  "('k, 'p, 'n, 'c, 'd) crypto \<Rightarrow> ('g, 'd) ext \<Rightarrow> app \<Rightarrow> string option \<Rightarrow> message \<Rightarrow> ('g, 'd) world \<Rightarrow>
     (int \<times> payload option) option \<times> ('g, 'd) world" where
  "serve k x a cred m w =
     (case parse_message (x_int x) m of
        Fit req \<Rightarrow> (case handle k x a cred req w of (r, w') \<Rightarrow> (Some r, w'))
      | Unfit \<Rightarrow>
          (case secured a cred [''body''] (returnP HealthOk) w of
             (Inl (Http s), w') \<Rightarrow> (Some (s, None), w') | (_, w') \<Rightarrow> (None, w'))
      | Unrouted \<Rightarrow> (None, w))"

end
