(* ===== verification/Cli.thy ===== *)
theory Cli
  imports Wire
begin

text \<open>
  \<open>cli.py\<close>: the command line, a client of the HTTP interface. A command takes its options as the
  argument parser (typer) types them and runs on a console: the lines it printed, the files of the host, the
  messages it sent, and what lies behind the connection. Its end is success, an exit with a code, a usage
  error, or an exception. Colours are left out, and so are the log lines of \<open>load_settings\<close>.
\<close>

section \<open>Texts of values\<close>

abbreviation APOS :: string where "APOS \<equiv> [CHR 0x27]"

text \<open>\<open>str(v)\<close> and \<open>repr(v)\<close>.\<close>

definition hex2 :: "char \<Rightarrow> string" where
  "hex2 c = [''0123456789abcdef'' ! (of_char c div 16), ''0123456789abcdef'' ! (of_char c mod 16)]"

definition repr_char :: "char \<Rightarrow> char \<Rightarrow> string" where
  "repr_char q c =
     (if c = q \<or> c = BSL then [BSL, c]
      else if c = LF then BSL # ''n'' else if c = CR then BSL # ''r'' else if c = CHR 0x09 then BSL # ''t''
      else if c < CHR 0x20 \<or> in_range c (CHR 0x7F, CHR 0xA0) \<or> c = CHR 0xAD then BSL # CHR ''x'' # hex2 c
      else [c])"

definition repr_str :: "string \<Rightarrow> string" where
  "repr_str s =
     (let q = (if CHR 0x27 \<in> set s \<and> QUOTE \<notin> set s then QUOTE else CHR 0x27)
      in q # concat (map (repr_char q) s) @ [q])"

primrec py_repr :: "pyval \<Rightarrow> string" where
  "py_repr PNone = ''None''"
| "py_repr (PBool b) = (if b then ''True'' else ''False'')"
| "py_repr (PInt n) = str_int n"
| "py_repr (PStr s) = repr_str s"
| "py_repr (PList vs) = ''['' @ join '', '' (map py_repr vs) @ '']''"
| "py_repr (PDict d) = ''{'' @ join '', '' (map (\<lambda>(k, v). k @ '': '' @ v) (map (map_prod py_repr py_repr) d)) @ ''}''"

fun py_str :: "pyval \<Rightarrow> string" where
  "py_str (PStr s) = s"
| "py_str v = py_repr v"

text \<open>\<open>json.dumps(v, indent=2, ensure_ascii=False)\<close>, at a depth of indentation; keys of objects are texts.\<close>

definition json_char :: "char \<Rightarrow> string" where
  "json_char c =
     (if c = QUOTE \<or> c = BSL then [BSL, c]
      else if c = LF then BSL # ''n'' else if c = CR then BSL # ''r'' else if c = CHR 0x09 then BSL # ''t''
      else if c = CHR 0x0C then BSL # ''f'' else if c = CHR 0x08 then BSL # ''b''
      else if c < CHR 0x20 then BSL # ''u00'' @ hex2 c else [c])"

definition json_str :: "string \<Rightarrow> string" where
  "json_str s = [QUOTE] @ concat (map json_char s) @ [QUOTE]"

definition json_rows :: "string \<Rightarrow> string \<Rightarrow> nat \<Rightarrow> string list \<Rightarrow> string" where
  "json_rows l r n rows =
     (if rows = [] then l @ r
      else l @ LF # replicate (n + 2) CHR '' '' @ join ('','' @ LF # replicate (n + 2) CHR '' '') rows
        @ LF # replicate n CHR '' '' @ r)"

primrec json_at :: "pyval \<Rightarrow> nat \<Rightarrow> string" where
  "json_at PNone = (\<lambda>n. ''null'')"
| "json_at (PBool b) = (\<lambda>n. if b then ''true'' else ''false'')"
| "json_at (PInt i) = (\<lambda>n. str_int i)"
| "json_at (PStr s) = (\<lambda>n. json_str s)"
| "json_at (PList vs) = (\<lambda>n. json_rows ''['' '']'' n (map (\<lambda>f. f (n + 2)) (map json_at vs)))"
| "json_at (PDict d) = (\<lambda>n. json_rows ''{'' ''}'' n
     (map (\<lambda>(k, v). k n @ '': '' @ v (n + 2)) (map (map_prod json_at json_at) d)))"

definition json_dumps :: "pyval \<Rightarrow> string" where
  "json_dumps v = json_at v 0"

section \<open>The console\<close>

record client =
  cl_base_url :: string
  cl_headers :: "(string \<times> string) list"
  cl_verify :: bool

record response =
  rp_status :: int
  rp_text :: string
  rp_json :: "pyval option"

text \<open>How a command ends, if not by success: \<open>typer.Exit(1)\<close>, a usage error, an \<open>httpx.HTTPError\<close>, another exception.\<close>

datatype cli_end = Exit1 | BadParameter | HttpError | Crash pyerr

text \<open>A run of \<open>openssl\<close>: not started or timed out, with output that is no text, or with exit code and outputs.\<close>

datatype process = Unstarted string | Garbled | Ran int string string

text \<open>A console, with a line of output per entry, marked if it is on the error output.\<close>

record 's console =
  co_out :: "(bool \<times> string) list"
  co_fs :: fs
  co_sent :: "(client \<times> message) list"
  co_net :: 's

text \<open>
  What is outside: \<open>httpx\<close>, \<open>openssl\<close>, what the user types at a prompt, the environment, the current directory,
  the texts of exceptions, and the certificate and configuration libraries.
\<close>

record ('k, 'p, 'n, 'c, 'g, 'd, 's) outside =
  o_send :: "client \<Rightarrow> message \<Rightarrow> 's \<Rightarrow> (cli_end + response) \<times> 's"
  o_openssl :: "string list \<Rightarrow> 's \<Rightarrow> process"
  o_prompt :: string
  o_env :: "(string \<times> string) list"
  o_cwd :: path
  o_text :: "pyerr \<Rightarrow> string"
  o_crypto :: "('k, 'p, 'n, 'c, 'd) crypto"
  o_ext :: "('g, 'd) ext"

type_synonym ('s, 'a) cmd = "('s console, cli_end, 'a) prog"

definition print_on :: "bool \<Rightarrow> string \<Rightarrow> ('s, unit) cmd" where
  "print_on err line = updP (\<lambda>c. c \<lparr> co_out := co_out c @ [(err, line)] \<rparr>)"

abbreviation echo :: "string \<Rightarrow> ('s, unit) cmd" where
  "echo \<equiv> print_on False"

abbreviation complain :: "string \<Rightarrow> ('s, unit) cmd" where
  "complain \<equiv> print_on True"

text \<open>An exception of Python inside a command.\<close>

definition must_be :: "pyerr + 'a \<Rightarrow> ('s, 'a) cmd" where
  "must_be r = (case r of Inl e \<Rightarrow> raiseP (Crash e) | Inr a \<Rightarrow> returnP a)"

section \<open>Values of answers\<close>

text \<open>\<open>v.get(k, d)\<close>, \<open>v[k]\<close> and iteration: a value of another type raises.\<close>

definition get_or :: "pyval \<Rightarrow> string \<Rightarrow> pyval \<Rightarrow> pyerr + pyval" where
  "get_or v k dflt =
     (case v of PDict d \<Rightarrow> Inr (case dget d k of None \<Rightarrow> dflt | Some u \<Rightarrow> u) | _ \<Rightarrow> Inl OtherErr)"

definition item :: "pyval \<Rightarrow> string \<Rightarrow> pyerr + pyval" where
  "item v k =
     (case v of PDict d \<Rightarrow> (case dget d k of None \<Rightarrow> Inl (KeyErr k) | Some u \<Rightarrow> Inr u) | _ \<Rightarrow> Inl TypeErr)"

definition members :: "pyval \<Rightarrow> pyerr + pyval list" where
  "members v =
     (case v of PList vs \<Rightarrow> Inr vs | PDict d \<Rightarrow> Inr (map fst d) | PStr s \<Rightarrow> Inr (map (\<lambda>c. PStr [c]) s)
      | _ \<Rightarrow> Inl TypeErr)"

section \<open>The connection\<close>

definition client_of :: "settings \<Rightarrow> client" where
  "client_of s = \<lparr> cl_base_url = se_api_url s,
     cl_headers = (if se_api_token s \<noteq> [] then [(''Authorization'', ''Bearer '' @ se_api_token s)] else []),
     cl_verify = \<not> list_ex (\<lambda>t. sublist t (se_api_url s)) [''://127.0.0.1'', ''://localhost'', ''://[::1]''] \<rparr>"

definition get_client :: "('k, 'p, 'n, 'c, 'g, 'd, 's) outside \<Rightarrow> ('s, client) cmd" where
  "get_client h =
     bindP (getP (\<lambda>c. load_settings (o_ext h) (o_env h) (co_fs c) None)) (\<lambda>r.
     bindP (must_be r) (\<lambda>(s, _). returnP (client_of s)))"

definition send ::
  "('k, 'p, 'n, 'c, 'g, 'd, 's) outside \<Rightarrow> client \<Rightarrow> verb \<Rightarrow> string \<Rightarrow> (string \<times> pyval) list \<Rightarrow> pyval option \<Rightarrow>
     ('s, response) cmd" where
  "send h cl v path query json = (\<lambda>c.
     let m = \<lparr> m_verb = v, m_path = path, m_query = query, m_json = json \<rparr>
     in case o_send h cl m (co_net c) of
          (r, s) \<Rightarrow> (r, c \<lparr> co_net := s, co_sent := co_sent c @ [(cl, m)] \<rparr>))"

lemma send_run [code]: "send h cl v path query json c =
    (let m = \<lparr> m_verb = v, m_path = path, m_query = query, m_json = json \<rparr>
     in case o_send h cl m (co_net c) of
          (r, s) \<Rightarrow> (r, c \<lparr> co_net := s, co_sent := co_sent c @ [(cl, m)] \<rparr>))"
  by (simp add: send_def)

definition fail_text :: "response \<Rightarrow> string" where
  "fail_text r = ''error '' @ str_int (rp_status r) @ '': '' @ rp_text r"

text \<open>What \<open>_emit\<close> does, and the same check where a command prints the answer itself.\<close>

definition refuse_error :: "response \<Rightarrow> ('s, unit) cmd" where
  "refuse_error r =
     (if rp_status r \<ge> 400 then bindP (complain (fail_text r)) (\<lambda>_. raiseP Exit1) else returnP ())"

definition emit :: "response \<Rightarrow> ('s, unit) cmd" where
  "emit r =
     bindP (refuse_error r) (\<lambda>_.
     if rp_status r = 204 \<or> rp_text r = [] then echo ''ok''
     else (case rp_json r of None \<Rightarrow> echo (rp_text r) | Some v \<Rightarrow> echo (json_dumps v)))"

text \<open>\<open>resp.json()\<close>.\<close>

definition json_of :: "response \<Rightarrow> ('s, pyval) cmd" where
  "json_of r = must_be (case rp_json r of None \<Rightarrow> Inl ValueErr | Some v \<Rightarrow> Inr v)"

definition instance_path :: "string \<Rightarrow> string \<Rightarrow> string" where
  "instance_path name rest = ''/v1/instances/'' @ name @ (if rest = [] then [] else CHR ''/'' # rest)"

section \<open>Warnings about instances\<close>

definition ldaps_warning :: "string \<Rightarrow> string \<Rightarrow> string" where
  "ldaps_warning name server =
     ''WARNING: instance '' @ APOS @ name @ APOS @ '': LDAPS unverified '' @ DASH @ '' the certificate of '' @ server @
     '' is NOT checked (no CA pinned); an on-path attacker between this host and the DC can spoof the group lookup '' @
     ''(role gate / VLAN). Fix: lmnradius set-ldap-ca '' @ name @ '' --ldap-ca /path/to/cacert.pem '' @
     ''(the DC'' @ APOS @ ''s CA; on a linuxmuster.net server /etc/linuxmuster/ssl/cacert.pem)''"

definition warn_unverified :: "pyval \<Rightarrow> ('s, int) cmd" where
  "warn_unverified v =
     bindP (must_be (get_or v ''ldap_server'' (PStr []))) (\<lambda>server.
     if is_ldaps (py_str server) then
       bindP (must_be (get_or v ''ldap_ca'' PNone)) (\<lambda>ca.
       if truthy ca then returnP 0
       else bindP (must_be (get_or v ''name'' PNone)) (\<lambda>name.
         bindP (complain (ldaps_warning (py_str name) (py_str server))) (\<lambda>_. returnP 1)))
     else returnP 0)"

definition ldaps_warnings :: "pyval \<Rightarrow> ('s, int) cmd" where
  "ldaps_warnings insts =
     bindP (must_be (members insts)) (\<lambda>vs. bindP (mapP warn_unverified vs) (\<lambda>ns. returnP (sum_list ns)))"

definition status_problem :: "pyval \<Rightarrow> pyerr + string option" where
  "status_problem v =
     (case v of
        PDict st \<Rightarrow>
          (let get = (\<lambda>k d. case dget st k of None \<Rightarrow> d | Some u \<Rightarrow> u) in
           Inr (if \<not> truthy (get ''exists'' PNone) then Some ''no container''
                else if truthy (get ''crash_looping'' PNone) then
                  Some (''crash-looping (restarted '' @ py_str (get ''restart_count'' (PInt 0)) @ ''x, health '' @
                    py_str (get ''health'' PNone) @ ''); last error: '' @
                    (if truthy (get ''last_error'' PNone) then py_str (get ''last_error'' PNone) else ''-''))
                else if \<not> truthy (get ''running'' PNone) then
                  Some (''not running (exit code '' @ py_str (get ''exit_code'' PNone) @ '')'')
                else if get ''health'' PNone = PStr ''unhealthy'' then
                  Some ''running but unhealthy (winbind trust or radiusd probe failing)''
                else None))
      | _ \<Rightarrow> Inl OtherErr)"

definition check_status :: "pyval \<Rightarrow> pyval \<Rightarrow> ('s, bool) cmd" where
  "check_status name st =
     bindP (must_be (status_problem st)) (\<lambda>problem.
     case problem of
       None \<Rightarrow> returnP True
     | Some p \<Rightarrow>
         bindP (complain (''WARNING: instance '' @ APOS @ py_str name @ APOS @ '' is '' @ p @ '' '' @ DASH @ '' see '' @
           APOS @ ''lmnradius logs '' @ py_str name @ APOS)) (\<lambda>_. returnP False))"

text \<open>\<open>if not ok: raise typer.Exit(1)\<close>.\<close>

definition exit_unless :: "bool \<Rightarrow> ('s, unit) cmd" where
  "exit_unless ok = (if ok then returnP () else raiseP Exit1)"

end
