(* ===== verification/Commands.thy ===== *)
theory Commands
  imports Cli
begin

text \<open>
  The commands of \<open>cli.py\<close>, in the order of the source: how options become messages to the service, and
  what of an answer is printed and makes the command fail.
\<close>

section \<open>The CA of the directory server\<close>

definition PEM_BLOCK_RE :: re where
  "PEM_BLOCK_RE = Seq (lits ''-----BEGIN CERTIFICATE-----'')
     (Seq (Lazy (NCls [])) (Seq (lits ''-----END CERTIFICATE-----'') (opt (lit LF))))"

definition with_newline :: "string \<Rightarrow> string" where
  "with_newline pem = (if suffix [LF] pem then pem else pem @ [LF])"

definition warn_cert :: "bundle_cert \<Rightarrow> ('s, unit) cmd" where
  "warn_cert c =
     bindP (complain (''  '' @ (if bc_trust_anchor c then ''trust anchor (CA)'' else ''end-entity certificate'') @ '': '' @
       bc_subject c @ ''  (issuer '' @ bc_issuer c @ '', expires '' @ bc_not_after c @ '')'')) (\<lambda>_.
     complain (''    SHA-256 '' @ bc_fingerprint c))"

definition compare_advice :: "bool \<Rightarrow> string" where
  "compare_advice anchored =
     (if anchored then ''  Compare the CA fingerprint on the DC: '' @
        ''openssl x509 -in /etc/linuxmuster/ssl/cacert.pem -noout -fingerprint -sha256''
      else ''  The DC served no CA, only its own certificate: it is pinned as-is and a renewed DC '' @
        ''certificate FAILS CLOSED until you re-run set-ldap-ca. Prefer --ldap-ca with the '' @
        ''CA file (/etc/linuxmuster/ssl/cacert.pem on the DC). Compare the fingerprint there: '' @
        ''openssl x509 -in /etc/linuxmuster/ssl/server.cert.pem -noout -fingerprint -sha256'')"

definition s_client :: "string \<Rightarrow> int \<Rightarrow> string list" where
  "s_client host port =
     [''openssl'', ''s_client'', ''-connect'', host @ '':'' @ str_int port, ''-servername'', host, ''-showcerts'']"

text \<open>The last five lines of the error output.\<close>

definition last_lines :: "string \<Rightarrow> string" where
  "last_lines s = (let ls = splitlines (strip s) in join [LF] (drop (length ls - 5) ls))"

definition describe_served ::
  "('k, 'p, 'n, 'c, 'g, 'd, 's) outside \<Rightarrow> string \<Rightarrow> int \<Rightarrow> string \<Rightarrow> ('s, string) cmd" where
  "describe_served h host port bundle =
     (case describe_pem_bundle (o_crypto h) bundle of
        Inl e \<Rightarrow> if is_value_error e then bindP (complain (''error: '' @ o_text h e)) (\<lambda>_. raiseP Exit1)
                 else raiseP (Crash e)
      | Inr certs \<Rightarrow>
          bindP (complain (''TRUST ON FIRST USE: pinning what '' @ host @ '':'' @ str_int port @
            '' served right now '' @ DASH @ '' NOT verified:'')) (\<lambda>_.
          bindP (eachP warn_cert certs) (\<lambda>_.
          bindP (complain (compare_advice (list_ex bc_trust_anchor certs))) (\<lambda>_. returnP bundle))))"

definition tofu_fetch_chain :: "('k, 'p, 'n, 'c, 'g, 'd, 's) outside \<Rightarrow> string \<Rightarrow> ('s, string) cmd" where
  "tofu_fetch_chain h ldap_server =
     (case ldap_url_parts ldap_server of
        None \<Rightarrow> raiseP BadParameter
      | Some (scheme, host, port) \<Rightarrow>
          if scheme \<noteq> ''ldaps'' then raiseP BadParameter
          else bindP (getP (\<lambda>c. o_openssl h (s_client host port) (co_net c))) (\<lambda>proc.
            case proc of
              Unstarted msg \<Rightarrow>
                bindP (complain (''error: '' @ join '' '' (s_client host port) @ '': '' @ msg)) (\<lambda>_. raiseP Exit1)
            | Garbled \<Rightarrow> raiseP (Crash UnicodeErr)
            | Ran code out err \<Rightarrow>
                (let pems = re_findall PEM_BLOCK_RE out; tail = last_lines err in
                 if pems = [] then
                   bindP (complain (''error: no certificate received from '' @ host @ '':'' @ str_int port @
                     '' (openssl exit '' @ str_int code @ '')'' @ (if tail = [] then [] else '': '' @ tail)))
                     (\<lambda>_. raiseP Exit1)
                 else describe_served h host port (concat (map with_newline pems)))))"

definition resolve_ldap_ca ::
  "('k, 'p, 'n, 'c, 'g, 'd, 's) outside \<Rightarrow> string option \<Rightarrow> bool \<Rightarrow> string \<Rightarrow> ('s, string option) cmd" where
  "resolve_ldap_ca h ldap_ca tofu ldap_server =
     (case ldap_ca of
        Some file \<Rightarrow>
          if tofu then raiseP BadParameter
          else bindP (getP (\<lambda>c. read_file (co_fs c) (join_path (o_cwd h) file))) (\<lambda>r.
            case r of
              Inl e \<Rightarrow> if is_os_error e then raiseP BadParameter else raiseP (Crash e)
            | Inr text \<Rightarrow> returnP (Some text))
      | None \<Rightarrow>
          if tofu then bindP (tofu_fetch_chain h ldap_server) (\<lambda>pem. returnP (Some pem)) else returnP None)"

section \<open>Instances\<close>

definition parse_ssid :: "string \<Rightarrow> cli_end + pyval" where
  "parse_ssid spec =
     (case split_on (CHR '':'') spec of
        [name, grp] \<Rightarrow> Inr (entries [(''name'', PStr name), (''allowed_group'', PStr grp)])
      | [name, grp, vlan] \<Rightarrow>
          (case py_int vlan of
             None \<Rightarrow> Inl BadParameter
           | Some v \<Rightarrow> Inr (entries [(''name'', PStr name), (''allowed_group'', PStr grp), (''vlan'', PInt v)]))
      | _ \<Rightarrow> Inl BadParameter)"

record create_options =
  op_name :: string
  op_realm :: string
  op_workgroup :: string
  op_server_fqdn :: string
  op_ldap_server :: string
  op_ldap_base_dn :: string
  op_ldap_bind_dn :: string
  op_client_subnet :: "string list"
  op_ssid :: "string list"
  op_join_secret :: string
  op_ldap_bind_secret :: string
  op_radius_secret :: string
  op_wifi_group :: string
  op_image :: "string option"
  op_ldap_ca :: "string option"
  op_ldap_ca_tofu :: bool

text \<open>An entry for an option that was given.\<close>

definition given :: "string \<Rightarrow> ('a \<Rightarrow> pyval) \<Rightarrow> 'a option \<Rightarrow> (string \<times> pyval) list" where
  "given k f v = (case v of None \<Rightarrow> [] | Some u \<Rightarrow> [(k, f u)])"

definition create_message :: "create_options \<Rightarrow> pyval list \<Rightarrow> string option \<Rightarrow> pyval" where
  "create_message o1 ssids pem = entries
     ([(''name'', PStr (op_name o1)), (''realm'', PStr (op_realm o1)), (''workgroup'', PStr (op_workgroup o1)),
       (''server_fqdn'', PStr (op_server_fqdn o1)), (''ldap_server'', PStr (op_ldap_server o1)),
       (''ldap_base_dn'', PStr (op_ldap_base_dn o1)), (''ldap_bind_dn'', PStr (op_ldap_bind_dn o1)),
       (''wifi_group'', PStr (op_wifi_group o1)), (''client_subnets'', PList (map PStr (op_client_subnet o1))),
       (''ssids'', PList ssids), (''join_secret'', PStr (op_join_secret o1)),
       (''ldap_bind_secret'', PStr (op_ldap_bind_secret o1)), (''radius_secret'', PStr (op_radius_secret o1))]
      @ given ''image'' PStr (op_image o1) @ given ''ldap_ca_pem'' PStr pem)"

definition list_instances :: "('k, 'p, 'n, 'c, 'g, 'd, 's) outside \<Rightarrow> ('s, unit) cmd" where
  "list_instances h =
     bindP (get_client h) (\<lambda>cl.
     bindP (send h cl GET ''/v1/instances'' [] None) (\<lambda>r.
     bindP (emit r) (\<lambda>_.
     bindP (json_of r) (\<lambda>v. bindP (ldaps_warnings v) (\<lambda>_. returnP ())))))"

text \<open>A command that sends one message and prints the answer.\<close>

definition simple ::
  "('k, 'p, 'n, 'c, 'g, 'd, 's) outside \<Rightarrow> verb \<Rightarrow> string \<Rightarrow> pyval option \<Rightarrow> ('s, unit) cmd" where
  "simple h v path json = bindP (get_client h) (\<lambda>cl. bindP (send h cl v path [] json) emit)"

definition show_cmd :: "('k, 'p, 'n, 'c, 'g, 'd, 's) outside \<Rightarrow> string \<Rightarrow> ('s, unit) cmd" where
  "show_cmd h name = simple h GET (instance_path name []) None"

text \<open>What \<open>create\<close> and \<open>set-ldap-ca\<close> do with their answer.\<close>

definition report_status :: "string \<Rightarrow> response \<Rightarrow> ('s, unit) cmd" where
  "report_status name r =
     bindP (emit r) (\<lambda>_.
     bindP (json_of r) (\<lambda>v.
     bindP (must_be (get_or v ''status'' (PDict []))) (\<lambda>st.
     bindP (check_status (PStr name) st) exit_unless)))"

definition create :: "('k, 'p, 'n, 'c, 'g, 'd, 's) outside \<Rightarrow> create_options \<Rightarrow> ('s, unit) cmd" where
  "create h o1 =
     bindP (resolve_ldap_ca h (op_ldap_ca o1) (op_ldap_ca_tofu o1) (op_ldap_server o1)) (\<lambda>pem.
     bindP (mapP (\<lambda>s. liftP (parse_ssid s)) (op_ssid o1)) (\<lambda>ssids.
     bindP (get_client h) (\<lambda>cl.
     bindP (send h cl POST ''/v1/instances'' [] (Some (create_message o1 ssids pem)))
       (report_status (op_name o1)))))"

definition set_ldap_ca_cmd ::
  "('k, 'p, 'n, 'c, 'g, 'd, 's) outside \<Rightarrow> string \<Rightarrow> string option \<Rightarrow> bool \<Rightarrow> ('s, unit) cmd" where
  "set_ldap_ca_cmd h name ldap_ca tofu =
     bindP (get_client h) (\<lambda>cl.
     bindP (send h cl GET (instance_path name []) [] None) (\<lambda>current.
     bindP (if rp_status current \<ge> 400 then emit current else returnP ()) (\<lambda>_.
     bindP (json_of current) (\<lambda>v.
     bindP (must_be (get_or v ''ldap_server'' (PStr []))) (\<lambda>server.
     bindP (resolve_ldap_ca h ldap_ca tofu (py_str server)) (\<lambda>pem.
     case pem of
       None \<Rightarrow> raiseP BadParameter
     | Some t \<Rightarrow>
         bindP (send h cl PUT (instance_path name ''ldap-ca'') [] (Some (entries [(''pem'', PStr t)])))
           (report_status name)))))))"

definition leave_warning :: "string \<Rightarrow> string \<Rightarrow> string" where
  "leave_warning name detail =
     ''WARNING: instance '' @ APOS @ name @ APOS @ '' was removed locally but did NOT leave the domain: '' @ detail @
     [LF] @ ''Clean up on the DC: samba-tool computer delete '' @
     ''<NAME>$ and remove the DNS A record of the RADIUS FQDN.''"

definition rm :: "('k, 'p, 'n, 'c, 'g, 'd, 's) outside \<Rightarrow> string \<Rightarrow> ('s, unit) cmd" where
  "rm h name =
     bindP (get_client h) (\<lambda>cl.
     bindP (send h cl DELETE (instance_path name []) [] None) (\<lambda>r.
     bindP (emit r) (\<lambda>_.
     bindP (json_of r) (\<lambda>v.
     bindP (must_be (get_or v ''domain_leave'' (PDict []))) (\<lambda>leave.
     bindP (must_be (get_or leave ''ok'' (PBool False))) (\<lambda>ok.
     if truthy ok then returnP ()
     else bindP (must_be (get_or leave ''detail'' (PStr ''-''))) (\<lambda>detail.
       bindP (complain (leave_warning name (py_str detail))) (\<lambda>_. raiseP Exit1))))))))"

definition start_cmd :: "('k, 'p, 'n, 'c, 'g, 'd, 's) outside \<Rightarrow> string \<Rightarrow> ('s, unit) cmd" where
  "start_cmd h name = simple h POST (instance_path name ''start'') None"

definition stop_cmd :: "('k, 'p, 'n, 'c, 'g, 'd, 's) outside \<Rightarrow> string \<Rightarrow> ('s, unit) cmd" where
  "stop_cmd h name = simple h POST (instance_path name ''stop'') None"

definition restart_cmd :: "('k, 'p, 'n, 'c, 'g, 'd, 's) outside \<Rightarrow> string \<Rightarrow> ('s, unit) cmd" where
  "restart_cmd h name = simple h POST (instance_path name ''restart'') None"

definition status_cmd :: "('k, 'p, 'n, 'c, 'g, 'd, 's) outside \<Rightarrow> string \<Rightarrow> ('s, unit) cmd" where
  "status_cmd h name = simple h GET (instance_path name ''status'') None"

section \<open>Diagnosis\<close>

definition mark :: "bool \<Rightarrow> string" where
  "mark ok = (if ok then ''  OK  '' else '' FAIL '')"

text \<open>What \<open>secho\<close> prints of a value.\<close>

definition shown :: "pyval \<Rightarrow> string" where
  "shown v = (if v = PNone then [] else py_str v)"

definition gate_line :: "pyval \<Rightarrow> pyerr + string" where
  "gate_line g =
     bindE (get_or g ''vlan'' PNone) (\<lambda>vlan.
     bindE (item g ''member'') (\<lambda>m.
     bindE (item g ''ssid'') (\<lambda>ssid.
     bindE (item g ''group'') (\<lambda>grp.
     Inr (''['' @ mark (truthy m) @ ''] SSID '' @ py_str ssid @ ''  '' @ DASH @ '' member of '' @ py_str grp @ ''?'' @
       (if truthy m \<and> vlan \<noteq> PNone then '' -> VLAN '' @ py_str vlan else []))))))"

definition is_member :: "pyval \<Rightarrow> bool" where
  "is_member g = (case item g ''member'' of Inr m \<Rightarrow> truthy m | Inl _ \<Rightarrow> False)"

definition NO_GATE_NOTE :: string where
  "NO_GATE_NOTE = ''note: login OK but the user is in NONE of the configured SSID groups '' @ DASH @
     '' every SSID would reject.''"

definition render_login :: "pyval \<Rightarrow> pyval \<Rightarrow> ('s, unit) cmd" where
  "render_login data login =
     bindP (must_be (item login ''ok'')) (\<lambda>ok.
     bindP (must_be (item login ''detail'')) (\<lambda>detail.
     bindP (must_be (item login ''code'')) (\<lambda>code.
     bindP (echo (''['' @ mark (truthy ok) @ ''] domain login   '' @ DASH @ '' '' @ py_str detail @ '' ('' @
       py_str code @ '')'')) (\<lambda>_.
     bindP (must_be (bindE (get_or data ''gates'' (PList [])) members)) (\<lambda>gates.
     bindP (eachP (\<lambda>g. bindP (must_be (gate_line g)) echo) gates) (\<lambda>_.
     if \<not> truthy ok then raiseP Exit1
     else if gates \<noteq> [] \<and> \<not> list_ex is_member gates then echo NO_GATE_NOTE
     else returnP ()))))))"

definition render_test :: "pyval \<Rightarrow> ('s, unit) cmd" where
  "render_test data =
     bindP (must_be (get_or data ''container_running'' PNone)) (\<lambda>running.
     if \<not> truthy running then
       bindP (must_be (get_or data ''detail'' (PStr ''container not running''))) (\<lambda>detail.
       bindP (complain (shown detail)) (\<lambda>_. raiseP Exit1))
     else
       bindP (must_be (get_or data ''trust'' (PDict []))) (\<lambda>trust.
       bindP (must_be (get_or trust ''ok'' (PBool False))) (\<lambda>ok.
       bindP (must_be (get_or trust ''detail'' (PStr []))) (\<lambda>detail.
       bindP (echo (''['' @ mark (truthy ok) @ ''] winbind trust  '' @ DASH @ '' '' @ py_str detail)) (\<lambda>_.
       bindP (must_be (get_or data ''login'' PNone)) (\<lambda>login.
       if login = PNone then
         echo (''(no user given '' @ DASH @ '' trust-only check; add --user <name> to test a domain login)'')
       else render_login data login))))))"

definition test_message :: "string \<Rightarrow> string option \<Rightarrow> string option \<Rightarrow> pyval" where
  "test_message typed user password = entries
     (case user of
        None \<Rightarrow> []
      | Some u \<Rightarrow> [(''user'', PStr u), (''password'', PStr (case password of Some (c # cs) \<Rightarrow> c # cs | _ \<Rightarrow> typed))])"

definition test_cmd ::
  "('k, 'p, 'n, 'c, 'g, 'd, 's) outside \<Rightarrow> string \<Rightarrow> string option \<Rightarrow> string option \<Rightarrow> bool \<Rightarrow> ('s, unit) cmd" where
  "test_cmd h name user password json_out =
     bindP (get_client h) (\<lambda>cl.
     bindP (send h cl POST (instance_path name ''test'') [] (Some (test_message (o_prompt h) user password))) (\<lambda>r.
     bindP (refuse_error r) (\<lambda>_.
     bindP (json_of r) (\<lambda>v. if json_out then echo (json_dumps v) else render_test v))))"

definition log_params :: "int \<Rightarrow> int option \<Rightarrow> int option \<Rightarrow> string option \<Rightarrow> (string \<times> pyval) list" where
  "log_params tail since until grep =
     [(''tail'', PInt tail)] @ given ''since'' PInt since @ given ''until'' PInt until @ given ''grep'' PStr grep"

definition rstrip_newlines :: "pyval \<Rightarrow> pyerr + string" where
  "rstrip_newlines v = (case v of PStr s \<Rightarrow> Inr (rstrip_by (\<lambda>c. c = LF) s) | _ \<Rightarrow> Inl OtherErr)"

definition logs_cmd ::
  "('k, 'p, 'n, 'c, 'g, 'd, 's) outside \<Rightarrow> string \<Rightarrow> int \<Rightarrow> int option \<Rightarrow> int option \<Rightarrow> string option \<Rightarrow> bool \<Rightarrow>
     ('s, unit) cmd" where
  "logs_cmd h name tail since until grep json_out =
     bindP (get_client h) (\<lambda>cl.
     bindP (send h cl GET (instance_path name ''logs'') (log_params tail since until grep) None) (\<lambda>r.
     bindP (refuse_error r) (\<lambda>_.
     bindP (json_of r) (\<lambda>v.
     if json_out then echo (json_dumps v)
     else bindP (must_be (bindE (get_or v ''logs'' (PStr [])) rstrip_newlines)) echo))))"

section \<open>The service\<close>

definition update_cmd :: "('k, 'p, 'n, 'c, 'g, 'd, 's) outside \<Rightarrow> string \<Rightarrow> string option \<Rightarrow> ('s, unit) cmd" where
  "update_cmd h name img = 
     simple h POST (instance_path name ''update'') (Some (entries (given ''image'' PStr img)))"

definition update_all_cmd :: "('k, 'p, 'n, 'c, 'g, 'd, 's) outside \<Rightarrow> ('s, unit) cmd" where
  "update_all_cmd h = simple h POST ''/v1/update-all'' None"

definition rollback_cmd :: "('k, 'p, 'n, 'c, 'g, 'd, 's) outside \<Rightarrow> string \<Rightarrow> ('s, unit) cmd" where
  "rollback_cmd h name = simple h POST (instance_path name ''rollback'') None"

text \<open>The second message of \<open>health\<close> may fail; the command then ends well.\<close>

definition health :: "('k, 'p, 'n, 'c, 'g, 'd, 's) outside \<Rightarrow> ('s, unit) cmd" where
  "health h =
     bindP (get_client h) (\<lambda>cl.
     bindP (send h cl GET ''/v1/health'' [] None) (\<lambda>r.
     bindP (emit r) (\<lambda>_.
     bindP (tryP (bindP (send h cl GET ''/v1/instances'' [] None) (\<lambda>listing. returnP (Some listing)))
              (\<lambda>e. if e = HttpError then returnP None else raiseP e)) (\<lambda>listing.
     case listing of
       None \<Rightarrow> returnP ()
     | Some l \<Rightarrow>
         if rp_status l = 200
         then bindP (json_of l) (\<lambda>v. bindP (ldaps_warnings v) (\<lambda>_. returnP ()))
         else returnP ()))))"

text \<open>\<open>all(\<dots>)\<close> stops at the first instance with a problem.\<close>

primrec check_all :: "pyval list \<Rightarrow> ('s, bool) cmd" where
  "check_all [] = returnP True"
| "check_all (st # sts) =
     bindP (must_be (get_or st ''name'' (PStr ''?''))) (\<lambda>name.
     bindP (check_status name st) (\<lambda>ok. if ok then check_all sts else returnP False))"

definition reconcile :: "('k, 'p, 'n, 'c, 'g, 'd, 's) outside \<Rightarrow> ('s, unit) cmd" where
  "reconcile h =
     bindP (get_client h) (\<lambda>cl.
     bindP (send h cl POST ''/v1/reconcile'' [] None) (\<lambda>r.
     bindP (emit r) (\<lambda>_.
     bindP (json_of r) (\<lambda>v.
     bindP (must_be (bindE (get_or v ''reconciled'' (PList [])) members)) (\<lambda>sts.
     bindP (check_all sts) exit_unless)))))"

definition ca_init_cmd :: "('k, 'p, 'n, 'c, 'g, 'd, 's) outside \<Rightarrow> string \<Rightarrow> int \<Rightarrow> string \<Rightarrow> ('s, unit) cmd" where
  "ca_init_cmd h common_name valid passphrase = simple h POST ''/v1/ca''
     (Some (entries [(''passphrase'', PStr passphrase), (''common_name'', PStr common_name),
       (''validity_days'', PInt valid)]))"

definition ca_show_cmd :: "('k, 'p, 'n, 'c, 'g, 'd, 's) outside \<Rightarrow> ('s, unit) cmd" where
  "ca_show_cmd h = simple h GET ''/v1/ca'' None"

definition ca_export_cmd :: "('k, 'p, 'n, 'c, 'g, 'd, 's) outside \<Rightarrow> string option \<Rightarrow> ('s, unit) cmd" where
  "ca_export_cmd h out =
     bindP (get_client h) (\<lambda>cl.
     bindP (send h cl GET ''/v1/ca/export'' [] None) (\<lambda>r.
     bindP (refuse_error r) (\<lambda>_.
     case out of
       None \<Rightarrow> echo (rp_text r)
     | Some file \<Rightarrow>
         bindP (getP (\<lambda>c. write_mode (co_fs c) (join_path (o_cwd h) file) (Text (rp_text r)) mode_644)) (\<lambda>w.
         bindP (must_be w) (\<lambda>fs.
         bindP (updP (\<lambda>c. c \<lparr> co_fs := fs \<rparr>)) (\<lambda>_. echo (''wrote '' @ file)))))))"

definition cert_issue_cmd :: "('k, 'p, 'n, 'c, 'g, 'd, 's) outside \<Rightarrow> string \<Rightarrow> string option \<Rightarrow> int \<Rightarrow> string \<Rightarrow> ('s, unit) cmd" where
  "cert_issue_cmd h name fqdn valid passphrase = 
     simple h POST (instance_path name ''cert'')
       (Some (entries ([(''passphrase'', PStr passphrase), (''validity_days'', PInt valid)] @ given ''fqdn'' PStr fqdn)))"

definition cert_show_cmd :: "('k, 'p, 'n, 'c, 'g, 'd, 's) outside \<Rightarrow> string \<Rightarrow> ('s, unit) cmd" where
  "cert_show_cmd h name = simple h GET (instance_path name ''cert'') None"

lemmas simple_cmds = show_cmd_def start_cmd_def stop_cmd_def restart_cmd_def status_cmd_def update_cmd_def
  update_all_cmd_def rollback_cmd_def ca_init_cmd_def ca_show_cmd_def cert_issue_cmd_def cert_show_cmd_def

section \<open>The command line\<close>

datatype command =
    ListCmd
  | ShowCmd string
  | CreateCmd create_options
  | SetLdapCaCmd string "string option" bool
  | RmCmd string
  | StartCmd string
  | StopCmd string
  | RestartCmd string
  | StatusCmd string
  | TestCmd string "string option" "string option" bool
  | LogsCmd string int "int option" "int option" "string option" bool
  | UpdateCmd string "string option"
  | UpdateAllCmd
  | RollbackCmd string
  | HealthCmd
  | ReconcileCmd
  | CaInitCmd string int string
  | CaShowCmd
  | CaExportCmd "string option"
  | CertIssueCmd string "string option" int string
  | CertShowCmd string

fun run_command :: "('k, 'p, 'n, 'c, 'g, 'd, 's) outside \<Rightarrow> command \<Rightarrow> ('s, unit) cmd" where
  "run_command h ListCmd = list_instances h"
| "run_command h (ShowCmd name) = show_cmd h name"
| "run_command h (CreateCmd o1) = create h o1"
| "run_command h (SetLdapCaCmd name ca tofu) = set_ldap_ca_cmd h name ca tofu"
| "run_command h (RmCmd name) = rm h name"
| "run_command h (StartCmd name) = start_cmd h name"
| "run_command h (StopCmd name) = stop_cmd h name"
| "run_command h (RestartCmd name) = restart_cmd h name"
| "run_command h (StatusCmd name) = status_cmd h name"
| "run_command h (TestCmd name user password json_out) = test_cmd h name user password json_out"
| "run_command h (LogsCmd name tail since until grep json_out) = logs_cmd h name tail since until grep json_out"
| "run_command h (UpdateCmd name img) = update_cmd h name img"
| "run_command h UpdateAllCmd = update_all_cmd h"
| "run_command h (RollbackCmd name) = rollback_cmd h name"
| "run_command h HealthCmd = health h"
| "run_command h ReconcileCmd = reconcile h"
| "run_command h (CaInitCmd common_name valid passphrase) = ca_init_cmd h common_name valid passphrase"
| "run_command h CaShowCmd = ca_show_cmd h"
| "run_command h (CaExportCmd out) = ca_export_cmd h out"
| "run_command h (CertIssueCmd name fqdn valid passphrase) = cert_issue_cmd h name fqdn valid passphrase"
| "run_command h (CertShowCmd name) = cert_show_cmd h name"

text \<open>The exit code of the process: a usage error is 2; an exception that nobody catches is 1 like \<open>Exit(1)\<close>.\<close>

definition exit_code :: "cli_end + unit \<Rightarrow> int" where
  "exit_code r = (case r of Inr _ \<Rightarrow> 0 | Inl BadParameter \<Rightarrow> 2 | Inl _ \<Rightarrow> 1)"

lemma exit_code_0: "exit_code r = 0 \<longleftrightarrow> r = Inr ()"
  by (auto simp: exit_code_def split: sum.splits cli_end.splits)

end
