(* ===== verification/CliFacts.thy ===== *)
theory CliFacts
  imports Commands ApiFacts
begin

text \<open>
  Facts on the command line: which messages a command sends, how a message of it is read by the service,
  and what the service at the other end of the connection has done when an answer arrives.
\<close>

section \<open>The messages a command sends\<close>

text \<open>
  On the way from one console to another lines are only added to the output, and the messages sent all
  satisfy a predicate.
\<close>

definition talked :: "(message \<Rightarrow> bool) \<Rightarrow> 's console \<Rightarrow> 's console \<Rightarrow> bool" where
  "talked P c c' \<longleftrightarrow>
     (\<exists>ms lines. co_sent c' = co_sent c @ ms \<and> list_all (P \<circ> snd) ms \<and> co_out c' = co_out c @ lines)"

interpretation talk: evolution "talked P" for P
proof
  show "talked P c c" for c :: "'s console" by (auto simp: talked_def)
  show "talked P c u" if "talked P c t" "talked P t u" for c t u :: "'s console"
    using that by (auto simp: talked_def)
qed

lemma talk_print: "moves (talked P) (print_on err line)"
  by (auto simp: moves_def print_on_def talked_def)

lemma talk_must: "moves (talked P) (must_be r)"
  unfolding must_be_def by (auto split: sum.split intro: talk.moves_intros)

lemma talk_client: "moves (talked P) (get_client h)"
  unfolding get_client_def by (intro talk.moves_intros talk_must)

lemma talk_send:
  "P \<lparr> m_verb = v, m_path = path, m_query = query, m_json = json \<rparr> \<Longrightarrow> moves (talked P) (send h cl v path query json)"
  by (auto simp: moves_def send_def talked_def Let_def split: prod.split)

lemma talk_each: "(\<And>x. moves (talked P) (f x)) \<Longrightarrow> moves (talked P) (eachP f xs)"
  by (induction xs) (auto intro!: talk.moves_intros)

lemma talk_upd: "(\<And>c. co_sent (f c) = co_sent c \<and> co_out (f c) = co_out c) \<Longrightarrow> moves (talked P) (updP f)"
  by (simp add: moves_def talked_def)

lemmas talk_rules = talk.moves_return talk.moves_raise talk.moves_get talk.moves_lift talk.moves_bind
  talk.moves_try talk.moves_if talk.moves_option talk.moves_pair talk.moves_map talk_print talk_must talk_client talk_each

lemma talk_refuse: "moves (talked P) (refuse_error r)"
  unfolding refuse_error_def by (intro talk_rules)

lemma talk_emit: "moves (talked P) (emit r)"
  unfolding emit_def by (intro talk_rules talk_refuse)

lemma talk_json: "moves (talked P) (json_of r)"
  unfolding json_of_def by (intro talk_rules)

lemma talk_ldaps: "moves (talked P) (ldaps_warnings v)"
  unfolding ldaps_warnings_def warn_unverified_def by (intro talk_rules)

lemma talk_check: "moves (talked P) (check_status name st)"
  unfolding check_status_def by (intro talk_rules)

lemma talk_exit: "moves (talked P) (exit_unless ok)"
  unfolding exit_unless_def by (intro talk_rules)

lemma talk_check_all: "moves (talked P) (check_all sts)"
  by (induction sts) (simp_all only: check_all.simps, (intro talk_rules talk_check | assumption)+)

lemma talk_describe: "moves (talked P) (describe_served h host port bundle)"
  unfolding describe_served_def warn_cert_def by (auto split: sum.split intro!: talk_rules)

lemma talk_tofu: "moves (talked P) (tofu_fetch_chain h server)"
  unfolding tofu_fetch_chain_def Let_def
  by (intro talk_rules) (auto split: process.split intro!: talk_rules talk_describe)

lemma talk_resolve: "moves (talked P) (resolve_ldap_ca h ca tofu server)"
  unfolding resolve_ldap_ca_def
  by (intro talk_rules talk_tofu) (auto split: sum.split intro!: talk_rules)

lemma talk_report: "moves (talked P) (report_status name r)"
  unfolding report_status_def by (intro talk_rules talk_emit talk_json talk_check talk_exit)

lemma talk_render_login: "moves (talked P) (render_login data login)"
  unfolding render_login_def by (intro talk_rules)

lemma talk_render: "moves (talked P) (render_test data)"
  unfolding render_test_def by (intro talk_rules talk_render_login)

lemmas talk_parts = talk_rules talk_refuse talk_emit talk_json talk_ldaps talk_check talk_exit talk_check_all
  talk_tofu talk_resolve talk_report talk_render

section \<open>How the service reads a message\<close>

lemma parse_instance:
  assumes "n \<noteq> []" and "CHR ''/'' \<notin> set n" and "CHR ''/'' \<notin> set rest" and "m_path m = instance_path n rest"
  shows "parse_message lax m = instance_route lax m n rest"
proof -
  have "plain_route lax m = None" using assms(1,4) by (simp add: plain_route_def instance_path_def)
  moreover have "split_on (CHR ''/'') (m_path m) = [[], ''v1'', ''instances'', n] @ (if rest = [] then [] else [rest])"
    using assms(2-4) by (simp add: instance_path_def split_on_append)
  ultimately show ?thesis using assms(1) by (simp add: parse_message_def)
qed

text \<open>What a value of \<open>--ssid\<close> stands for, and the entry of the body it becomes.\<close>

definition spec_ssid :: "string \<Rightarrow> ssid option" where
  "spec_ssid spec =
     (case split_on (CHR '':'') spec of
        [n, g] \<Rightarrow> Some \<lparr> s_name = n, s_allowed_group = g, s_vlan = None \<rparr>
      | [n, g, v] \<Rightarrow> map_option (\<lambda>k. \<lparr> s_name = n, s_allowed_group = g, s_vlan = Some k \<rparr>) (py_int v)
      | _ \<Rightarrow> None)"

definition ssid_entry :: "ssid \<Rightarrow> pyval" where
  "ssid_entry s = entries ([(''name'', PStr (s_name s)), (''allowed_group'', PStr (s_allowed_group s))]
     @ given ''vlan'' PInt (s_vlan s))"

lemma parse_ssid_eq: "parse_ssid spec = (case spec_ssid spec of None \<Rightarrow> Inl BadParameter | Some s \<Rightarrow> Inr (ssid_entry s))"
  by (auto simp: parse_ssid_def spec_ssid_def ssid_entry_def given_def split: list.splits option.splits)

lemma ssid_of_entry [simp]: "ssid_of_val lax (ssid_entry s) = Some s"
  by (auto simp: ssid_entry_def entries_def given_def str_field_def int_field_def split: option.splits)

lemma those_entries [simp]: "those (map (ssid_of_val lax \<circ> ssid_entry) ss) = Some ss"
  by (induction ss) auto

lemma parse_specs:
  "mapP (\<lambda>s. liftP (parse_ssid s)) specs c = (Inr vs, c') \<Longrightarrow>
     c' = c \<and> (\<exists>ss. those (map spec_ssid specs) = Some ss \<and> vs = map ssid_entry ss)"
  by (induction specs arbitrary: vs) (fastforce simp: bind_Inr_iff parse_ssid_eq split: option.splits)+

text \<open>The body of \<open>create\<close> stands for the record of its options.\<close>

definition asked :: "create_options \<Rightarrow> ssid list \<Rightarrow> inst" where
  "asked o1 ss = \<lparr> i_name = op_name o1, i_realm = op_realm o1, i_workgroup = op_workgroup o1,
     i_server_fqdn = op_server_fqdn o1, i_ldap_server = op_ldap_server o1, i_ldap_base_dn = op_ldap_base_dn o1,
     i_ldap_bind_dn = op_ldap_bind_dn o1, i_wifi_group = op_wifi_group o1, i_client_subnets = op_client_subnet o1,
     i_ssids = ss, i_join_secret = op_join_secret o1, i_ldap_bind_secret = op_ldap_bind_secret o1,
     i_radius_secret = op_radius_secret o1,
     i_image = (case op_image o1 of None \<Rightarrow> DEFAULT_IMAGE | Some img \<Rightarrow> img), i_ldap_ca = None \<rparr>"

lemma create_message_body:
  assumes "create_message o1 (map ssid_entry ss) pem = PDict d"
  shows "create_body lax d = Some \<lparr> c_inst = asked o1 ss, c_ldap_ca_pem = pem \<rparr>"
  using assms
  by (cases pem; cases "op_image o1") (auto simp: create_message_def entries_def given_def create_body_def inst_fields_def
      str_field_def opt_str_field_def asked_def)

lemma create_message_dict: "\<exists>d. create_message o1 ssids pem = PDict d"
  by (simp add: create_message_def entries_def)

lemma create_message_parsed:
  "parse_message lax \<lparr> m_verb = POST, m_path = ''/v1/instances'', m_query = [],
      m_json = Some (create_message o1 (map ssid_entry ss) pem) \<rparr>
     = Fit (CreateInstance \<lparr> c_inst = asked o1 ss, c_ldap_ca_pem = pem \<rparr>)"
proof -
  obtain d where d: "create_message o1 (map ssid_entry ss) pem = PDict d" using create_message_dict by blast
  show ?thesis
    by (simp add: parse_message_def plain_route_def with_body_def parsed_of_def json_object_def d create_message_body [OF d])
qed

section \<open>The other end of the connection\<close>

text \<open>The credentials the service reads from a client's headers.\<close>

definition bearer :: "client \<Rightarrow> string option" where
  "bearer cl =
     (case map_of (cl_headers cl) ''Authorization'' of
        None \<Rightarrow> None
      | Some v \<Rightarrow> if prefix ''Bearer '' v then Some (drop 7 v) else None)"

lemma bearer_client: "bearer (client_of s) = (if se_api_token s = [] then None else Some (se_api_token s))"
  by (simp add: bearer_def client_of_def)

text \<open>A path that no URL library changes: letters, digits, hyphens and slashes.\<close>

definition plain_path :: "string \<Rightarrow> bool" where
  "plain_path p = list_all (cls_has (plus_chars alnum ''/-'')) p"

text \<open>A response that carries an answer of the service.\<close>

definition carries :: "(pyerr \<Rightarrow> string) \<Rightarrow> response \<Rightarrow> payload \<Rightarrow> bool" where
  "carries err r q \<longleftrightarrow>
     (case answer_body err q of Json v \<Rightarrow> rp_json r = Some v \<and> rp_text r \<noteq> [] | Plain t \<Rightarrow> rp_text r = t)"

text \<open>
  What is assumed of HTTP: a response to a message with a plain path comes from the service, which has
  handled this message once, and carries its status and answer. Nothing is assumed of a message without a
  response, nor of other paths.
\<close>

definition linked ::
  "('k, 'p, 'n, 'c, 'g, 'd, ('g1, 'd1) world) outside \<Rightarrow> ('k1, 'p1, 'n1, 'c1, 'd1) crypto \<Rightarrow> ('g1, 'd1) ext \<Rightarrow>
     app \<Rightarrow> (pyerr \<Rightarrow> string) \<Rightarrow> bool" where
  "linked h k x a err \<longleftrightarrow>
     (\<forall>cl m w r w'. plain_path (m_path m) \<longrightarrow> o_send h cl m w = (Inr r, w') \<longrightarrow>
        (case serve k x a (bearer cl) m w of
           (Some (s, p), u) \<Rightarrow> u = w' \<and> rp_status r = s \<and> (\<forall>q. p = Some q \<longrightarrow> carries err r q)
         | (None, _) \<Rightarrow> True))"

lemma linkedD:
  assumes "linked h k x a err" and "plain_path (m_path m)" and "o_send h cl m w = (Inr r, w')"
    and "serve k x a (bearer cl) m w = (Some (s, p), u)"
  shows "u = w' \<and> rp_status r = s \<and> (\<forall>q. p = Some q \<longrightarrow> carries err r q)"
  using assms(1) [unfolded linked_def, rule_format, OF assms(2,3)] assms(4) by simp

lemma linked_send:
  assumes "linked h k x a err" and "plain_path path" and "send h cl v path query js c = (Inr r, c')"
    and "parse_message (x_int x) \<lparr> m_verb = v, m_path = path, m_query = query, m_json = js \<rparr> = Fit req"
  shows "\<exists>p. handle k x a (bearer cl) req (co_net c) = ((rp_status r, p), co_net c') \<and> (\<forall>q. p = Some q \<longrightarrow> carries err r q)"
proof -
  let ?m = "\<lparr> m_verb = v, m_path = path, m_query = query, m_json = js \<rparr>"
  have sent: "o_send h cl ?m (co_net c) = (Inr r, co_net c')"
    using assms(3) by (auto simp: send_def Let_def split: prod.splits)
  obtain s p u where run: "handle k x a (bearer cl) req (co_net c) = ((s, p), u)" by (metis surj_pair)
  then have "serve k x a (bearer cl) ?m (co_net c) = (Some (s, p), u)" using assms(4) by (simp add: serve_def)
  then have "u = co_net c' \<and> rp_status r = s \<and> (\<forall>q. p = Some q \<longrightarrow> carries err r q)"
    using linkedD [OF assms(1) _ sent] assms(2) by simp
  with run show ?thesis by auto
qed

text \<open>Printing and checking leave the other end alone.\<close>

lemma net_print [keeps_intros]: "keeps co_net (print_on err line)"
  unfolding print_on_def by (rule keeps_upd) simp

lemma net_must [keeps_intros]: "keeps co_net (must_be r)"
  unfolding must_be_def by (auto split: sum.split intro: keeps_intros)

lemma net_client [keeps_intros]: "keeps co_net (get_client h)"
  unfolding get_client_def by (intro keeps_intros)

lemma net_emit [keeps_intros]: "keeps co_net (emit r)"
  unfolding emit_def refuse_error_def by (intro keeps_intros)

lemma net_json [keeps_intros]: "keeps co_net (json_of r)"
  unfolding json_of_def by (intro keeps_intros)

lemma net_check [keeps_intros]: "keeps co_net (check_status name st)"
  unfolding check_status_def by (intro keeps_intros)

lemma net_exit [keeps_intros]: "keeps co_net (exit_unless ok)"
  unfolding exit_unless_def by (intro keeps_intros)

lemma net_report [keeps_intros]: "keeps co_net (report_status name r)"
  unfolding report_status_def by (intro keeps_intros)

lemma net_describe [keeps_intros]: "keeps co_net (describe_served h host port bundle)"
  unfolding describe_served_def warn_cert_def by (auto split: sum.split intro!: keeps_intros)

lemma net_tofu [keeps_intros]: "keeps co_net (tofu_fetch_chain h server)"
  unfolding tofu_fetch_chain_def Let_def by (intro keeps_intros) (auto split: process.split intro!: keeps_intros)

lemma net_resolve [keeps_intros]: "keeps co_net (resolve_ldap_ca h ca tofu server)"
  unfolding resolve_ldap_ca_def by (intro keeps_intros)

section \<open>What success means\<close>

lemma must_Inr: "must_be r c = (Inr v, c') \<longleftrightarrow> r = Inr v \<and> c' = c"
  by (auto simp: must_be_def split: sum.splits)

lemma json_Inr: "json_of r c = (Inr v, c') \<longleftrightarrow> rp_json r = Some v \<and> c' = c"
  by (auto simp: json_of_def must_Inr split: option.splits)

lemma emit_Inr: "emit r c = (Inr u, c') \<Longrightarrow> rp_status r < 400"
  by (auto simp: emit_def refuse_error_def bind_Inr_iff split: if_splits)

text \<open>A status with no problem.\<close>

definition sound :: "status \<Rightarrow> bool" where
  "sound st \<longleftrightarrow> st_exists st \<and> \<not> st_crash_looping st \<and> st_running st \<and> st_health st \<noteq> Some ''unhealthy''"

lemma status_problem_sound: "status_problem (status_json st) = Inr p \<Longrightarrow> p = None \<longleftrightarrow> sound st"
  by (cases "st_health st"; cases "st_last_error st")
    (auto simp: status_problem_def status_json_def entries_def sound_def Let_def str_or_none_def split: if_splits)

lemma check_status_Inr: "check_status name st c = (Inr True, c') \<Longrightarrow> status_problem st = Inr None"
  by (auto simp: check_status_def bind_Inr_iff must_Inr split: option.splits)

lemma report_status_Inr:
  assumes "report_status name r c = (Inr u, c')"
  shows "rp_status r < 400"
    and "\<exists>v st. rp_json r = Some v \<and> get_or v ''status'' (PDict []) = Inr st \<and> status_problem st = Inr None"
proof -
  from assms obtain c1 where e: "emit r c = (Inr (), c1)" by (auto simp: report_status_def bind_Inr_iff)
  then show "rp_status r < 400" by (rule emit_Inr)
  from assms e show "\<exists>v st. rp_json r = Some v \<and> get_or v ''status'' (PDict []) = Inr st \<and> status_problem st = Inr None"
    by (auto simp: report_status_def bind_Inr_iff json_Inr must_Inr exit_unless_def dest!: check_status_Inr split: if_splits)
qed

lemma secured_Inr: "secured a cred errors f w = (Inr q, u) \<Longrightarrow> authorised a cred \<and> errors = [] \<and> f w = (Inr q, u)"
  by (cases "authorised a cred") (auto simp: secured_run secured_refused split: if_splits)

lemma secured_Http:
  "secured a cred errors f w = (Inl (Http t), u) \<Longrightarrow> (authorised a cred \<Longrightarrow> errors = [] \<Longrightarrow> f w = (Inl (Http t), u) \<Longrightarrow> t \<ge> 400) \<Longrightarrow>
     t \<ge> 400"
  by (cases "authorised a cred") (auto simp: secured_run secured_refused split: if_splits)

text \<open>An answer below 400 is that of a handler that ran through.\<close>

lemma handle_success:
  assumes "handle k x a cred req w = ((s, p), w')" and "s < 400"
    and "\<And>t u. route k x a cred req w = (Inl (Http t), u) \<Longrightarrow> t \<ge> 400"
  shows "\<exists>q. p = Some q \<and> route k x a cred req w = (Inr q, w')"
proof -
  obtain r u where run: "route k x a cred req w = (r, u)" by fastforce
  note answer = handle_answers [OF run assms(1)]
  show ?thesis
  proof (cases r)
    case (Inl e)
    have "400 \<le> s"
    proof (cases e)
      case (Http t)
      then show ?thesis using answer(4) [of t] Inl assms(3) [of t u] run by auto
    next
      case (Raised f)
      then show ?thesis using answer(3) [of f] Inl error_status_ge [of f] by auto
    qed
    with assms(2) show ?thesis by simp
  qed (use run answer in auto)
qed

lemma service_Inr: "service_or h m w = (Inr v, w') \<longleftrightarrow> m w = (Inr v, w')"
  by (auto simp: service_run split: prod.splits sum.splits)

lemma create_served:
  assumes "handle k x a cred (CreateInstance b) w = ((s, p), w')" and "s < 400"
    and "inst_errors (created b) = [] \<Longrightarrow> storable x (created b)"
  shows "\<exists>st pinned w1. p = Some (Applied (created b) st pinned) \<and> apply_inst x (a_conf a) (created b) w1 = (Inr st, w')
    \<and> \<not> unpinned b \<and> inst_errors (c_inst b) = []
    \<and> look_inst x w' (i_name (c_inst b)) = Inr (Some (created b))"
proof -
  have http: "t \<ge> 400" if "route k x a cred (CreateInstance b) w = (Inl (Http t), u)" for t u
    using that secured_Http [of a cred "create_errors b" "create_instance k x a b" w t u]
    by (force dest: create_Http)
  obtain q where q: "p = Some q" "route k x a cred (CreateInstance b) w = (Inr q, w')"
    using handle_success [OF assms(1,2)] http by blast
  then have ok: "create_errors b = []" and run: "create_instance k x a b w = (Inr q, w')"
    using secured_Inr [of a cred "create_errors b"] by auto
  have un: "\<not> unpinned b" using create_unpinned [OF ok, of k x a w] run by auto
  have valid: "inst_errors (c_inst b) = []" using ok by (simp add: create_errors_def)
  have "inst_errors (created b) = []"
  proof (cases "c_ldap_ca_pem b")
    case (Some pem)
    have "v_ldap_ca (Some LDAP_CA_FILE) = Some (Some LDAP_CA_FILE)" by code_simp
    with Some valid show ?thesis by (auto simp: created_def inst_errors_def split: if_splits)
  qed (simp add: created_def valid)
  then have st: "storable x (created b)" by (rule assms(3))
  from create_applies [OF ok un run] obtain pinned w1 where
    "bindP (service (apply_inst x (a_conf a) (created b))) (\<lambda>st. returnP (Applied (created b) st pinned)) w1 = (Inr q, w')"
    by blast
  then obtain sta where "apply_inst x (a_conf a) (created b) w1 = (Inr sta, w')" "q = Applied (created b) sta pinned"
    by (auto simp: bind_Inr_iff service_run split: prod.splits sum.splits)
  with q(1) un valid create_Inr(1) [OF ok un st run] show ?thesis by blast
qed

lemma resolve_Inr:
  "resolve_ldap_ca h ca tofu server c = (Inr pem, c') \<Longrightarrow> pem = None \<longleftrightarrow> ca = None \<and> \<not> tofu"
  by (auto simp: resolve_ldap_ca_def bind_Inr_iff split: option.splits if_splits sum.splits)

lemma get_status_answer:
  assumes "carries err r (Applied i st pinned)" and "rp_json r = Some v" and "get_or v ''status'' (PDict []) = Inr u"
  shows "u = status_json st"
  using assms by (auto simp: carries_def get_or_def entries_def split: option.splits)

text \<open>The record \<open>create\<close> stands for, with the CA it is pinned to.\<close>

definition pinned_record :: "create_options \<Rightarrow> ssid list \<Rightarrow> inst" where
  "pinned_record o1 ss = (asked o1 ss)
     \<lparr> i_ldap_ca := if op_ldap_ca o1 = None \<and> \<not> op_ldap_ca_tofu o1 then None else Some LDAP_CA_FILE \<rparr>"

lemma created_pinned:
  "pem = None \<longleftrightarrow> op_ldap_ca o1 = None \<and> \<not> op_ldap_ca_tofu o1 \<Longrightarrow>
     created \<lparr> c_inst = asked o1 ss, c_ldap_ca_pem = pem \<rparr> = pinned_record o1 ss"
  by (auto simp: created_def pinned_record_def asked_def split: option.split)

lemma removed_gone: "recon_remove x c n w = (Inr l, w') \<Longrightarrow> look_inst x w' n = Inr None"
  by (auto simp: recon_remove_def bind_Inr_iff dest!: delete_look_inst)

lemma remove_served:
  assumes "handle k x a cred (DeleteInstance n) w = ((s, p), w')" and "s < 400"
  shows "\<exists>leave w1. p = Some (Removed n leave) \<and> recon_remove x (a_conf a) n w1 = (Inr leave, w')"
proof -
  have http: "t \<ge> 400" if "route k x a cred (DeleteInstance n) w = (Inl (Http t), u)" for t u
    using that secured_Http [of a cred "[]" "delete_instance x a n" w t u]
    by (force simp: delete_instance_def run_bind require_run service_run split: if_splits sum.splits option.splits prod.splits)
  obtain q where q: "p = Some q" "route k x a cred (DeleteInstance n) w = (Inr q, w')"
    using handle_success [OF assms] http by blast
  then have "delete_instance x a n w = (Inr q, w')" using secured_Inr [of a cred "[]"] by auto
  with q(1) show ?thesis by (auto simp: delete_instance_def bind_Inr_iff service_Inr)
qed

lemma plain_instance_path: "plain_path n \<Longrightarrow> plain_path rest \<Longrightarrow> plain_path (instance_path n rest)"
proof -
  assume "plain_path n" "plain_path rest"
  moreover have "plain_path ''/v1/instances/''" "plain_path ''/''" by code_simp+
  ultimately show ?thesis by (auto simp: instance_path_def plain_path_def)
qed

section \<open>Programs that only print\<close>

definition says :: "cli_end + 'a \<Rightarrow> ('s, 'a) cmd \<Rightarrow> bool" where
  "says r m \<longleftrightarrow> (\<forall>c. \<exists>lines. m c = (r, c \<lparr> co_out := co_out c @ lines \<rparr>))"

named_theorems says_intros "programs that only print"

lemma says_return [says_intros]: "says (Inr a) (returnP a)"
  by (auto simp: says_def intro: exI [of _ "[]"])

lemma says_raise [says_intros]: "says (Inl e) (raiseP e)"
  by (auto simp: says_def intro: exI [of _ "[]"])

lemma says_done [says_intros]: "says r (Pair r)"
  by (auto simp: says_def intro: exI [of _ "[]"])

lemma says_print [says_intros]: "says (Inr ()) (print_on err line)"
  by (auto simp: says_def print_on_def)

lemma says_bind:
  assumes "says (Inr a) m" and "says r (f a)"
  shows "says r (bindP m f)"
  unfolding says_def
proof
  fix c
  obtain l1 where "m c = (Inr a, c \<lparr> co_out := co_out c @ l1 \<rparr>)" using assms(1) by (auto simp: says_def)
  moreover obtain l2 where "f a (c \<lparr> co_out := co_out c @ l1 \<rparr>) = (r, c \<lparr> co_out := co_out c @ l1 @ l2 \<rparr>)"
    using assms(2) [unfolded says_def, rule_format, of "c \<lparr> co_out := co_out c @ l1 \<rparr>"] by auto
  ultimately show "\<exists>lines. bindP m f c = (r, c \<lparr> co_out := co_out c @ lines \<rparr>)" by (auto simp: run_bind)
qed

lemma says_print_bind [says_intros]: "says r (f ()) \<Longrightarrow> says r (bindP (print_on err line) f)"
  by (rule says_bind [OF says_print])

lemma must_bind [simp]: "bindP (must_be (Inr v)) f = f v" "bindP (must_be (Inl e)) f = raiseP (Crash e)"
  by (simp_all add: must_be_def)

lemma says_each:
  "(\<And>x. x \<in> set xs \<Longrightarrow> says (Inr ()) (f x)) \<Longrightarrow> says (Inr ()) (eachP f xs)"
  by (induction xs) (auto intro: says_bind says_return)

lemma test_json_gets:
  "get_or (test_json t) ''container_running'' d = Inr (PBool (te_running t))"
  "get_or (test_json t) ''detail'' d = Inr (case te_detail t of None \<Rightarrow> d | Some s \<Rightarrow> PStr s)"
  "get_or (test_json t) ''trust'' d = Inr (case te_trust t of None \<Rightarrow> d
     | Some v \<Rightarrow> entries [(''ok'', PBool (tr_ok v)), (''detail'', PStr (tr_detail v))])"
  "get_or (test_json t) ''login'' d = Inr (case te_login t of None \<Rightarrow> d
     | Some v \<Rightarrow> entries [(''ok'', PBool (nt_ok v)), (''code'', PStr (nt_code v)), (''detail'', PStr (nt_detail v))])"
  "get_or (test_json t) ''gates'' d = Inr (case te_gates t of None \<Rightarrow> d | Some gs \<Rightarrow> PList (map gate_json gs))"
  by (cases "te_detail t"; cases "te_trust t"; cases "te_login t"; cases "te_gates t";
      simp add: get_or_def test_json_def entries_def)+

lemma gate_line_ok: "\<exists>line. gate_line (gate_json g) = Inr line"
  by (simp add: gate_line_def gate_json_def entries_def get_or_def item_def)

lemma says_gates: "says (Inr ()) (eachP (\<lambda>g. bindP (must_be (gate_line g)) echo) (map gate_json gs))"
proof (rule says_each)
  fix v
  assume "v \<in> set (map gate_json gs)"
  then obtain line where "gate_line v = Inr line" using gate_line_ok by fastforce
  then show "says (Inr ()) (bindP (must_be (gate_line v)) echo)" by (simp add: says_print)
qed

section \<open>What is fetched on first use\<close>

lemma findall_block:
  "t \<in> set (re_findall r s) \<Longrightarrow> \<exists>u v. s = u @ t @ v \<and> v \<in> ends r (t @ v)"
proof (induction r s rule: re_findall.induct)
  case (1 r s)
  show ?case
  proof (cases "re_run r (s, [])")
    case Nil
    then obtain c s' where "s = c # s'" "t \<in> set (re_findall r s')"
      using "1.prems" by (subst (asm) re_findall.simps) (auto split: list.splits)
    with "1.IH"(1) Nil show ?thesis by (metis append_Cons)
  next
    case (Cons y ys)
    then have e: "fst y \<in> ends r s" by (auto simp: ends_def)
    then obtain p where p: "s = p @ fst y" using ends_eats [of "fst y" r s] by (auto simp: eats_def)
    show ?thesis
    proof (cases "length (fst y) < length s")
      case True
      then consider "t = p" | "t \<in> set (re_findall r (fst y))"
        using "1.prems" Cons p by (subst (asm) re_findall.simps) auto
      then show ?thesis
      proof cases
        case 1
        then show ?thesis using p e by (intro exI [of _ "[]"] exI [of _ "fst y"]) auto
      next
        case 2
        with "1.IH"(2) Cons True p show ?thesis by (metis append.assoc)
      qed
    next
      case False
      then have "p = []" using p by (metis append_Nil length_append less_add_same_cancel2 length_greater_0_conv)
      with False consider "t = []" | c s' where "s = c # s'" "t \<in> set (re_findall r s')"
        using "1.prems" Cons by (subst (asm) re_findall.simps) (auto split: list.splits)
      then show ?thesis
      proof cases
        case 1
        then show ?thesis using p e \<open>p = []\<close> by (intro exI [of _ "[]"] exI [of _ s]) auto
      next
        case 2
        with "1.IH"(3) Cons False show ?thesis by (metis append_Cons)
      qed
    qed
  qed
qed

text \<open>A block is a piece of the output from a begin line to an end line.\<close>

definition pem_block :: "string \<Rightarrow> bool" where
  "pem_block t \<longleftrightarrow> (\<exists>body nl. nl \<in> {[], [LF]} \<and>
     t = ''-----BEGIN CERTIFICATE-----'' @ body @ ''-----END CERTIFICATE-----'' @ nl)"

lemma pem_blocks: "t \<in> set (re_findall PEM_BLOCK_RE out) \<Longrightarrow> pem_block t \<and> sublist t out"
proof -
  assume "t \<in> set (re_findall PEM_BLOCK_RE out)"
  then obtain u v where out: "out = u @ t @ v" and v: "v \<in> ends PEM_BLOCK_RE (t @ v)" using findall_block by blast
  let ?b = "''-----BEGIN CERTIFICATE-----''" and ?e = "''-----END CERTIFICATE-----''"
  from v obtain w1 w2 where w: "t @ v = ?b @ w1" "?e @ w2 \<in> ends (Lazy (NCls [])) w1" "v \<in> ends (opt (lit LF)) w2"
    unfolding PEM_BLOCK_RE_def ends_Seq ends_lits by blast
  from ends_eats [OF w(2)] obtain body where body: "w1 = body @ ?e @ w2" by (auto simp: eats_def)
  from w(3) obtain nl where nl: "w2 = nl @ v" "nl \<in> {[], [LF]}"
    unfolding ends_opt ends_lit by (auto split: list.splits if_splits)
  have "t @ v = (?b @ body @ ?e @ nl) @ v" using w(1) body nl(1) by simp
  then have "t = ?b @ body @ ?e @ nl" by (simp only: append_same_eq)
  with nl(2) out show ?thesis unfolding pem_block_def sublist_def by blast
qed

definition cert_lines :: "bundle_cert \<Rightarrow> (bool \<times> string) list" where
  "cert_lines ct =
     [(True, ''  '' @ (if bc_trust_anchor ct then ''trust anchor (CA)'' else ''end-entity certificate'') @ '': '' @
        bc_subject ct @ ''  (issuer '' @ bc_issuer ct @ '', expires '' @ bc_not_after ct @ '')''),
      (True, ''    SHA-256 '' @ bc_fingerprint ct)]"

lemma warn_cert_run: "warn_cert ct c = (Inr (), c \<lparr> co_out := co_out c @ cert_lines ct \<rparr>)"
  by (simp add: warn_cert_def print_on_def cert_lines_def)

lemma warn_certs_run:
  "eachP warn_cert cts c = (Inr (), c \<lparr> co_out := co_out c @ concat (map cert_lines cts) \<rparr>)"
  by (induction cts arbitrary: c) (simp_all add: run_bind warn_cert_run)

text \<open>What the fetch gives, of which host, and that all of it has been shown.\<close>

definition fetched :: "('k, 'p, 'n, 'c, 'g, 'd, 's) outside \<Rightarrow> 's \<Rightarrow> string \<Rightarrow> string \<Rightarrow> bundle_cert list \<Rightarrow> bool" where
  "fetched h net server pem certs \<longleftrightarrow>
     (\<exists>host port code out err. ldap_url_parts server = Some (''ldaps'', host, port)
        \<and> o_openssl h (s_client host port) net = Ran code out err
        \<and> (let pems = re_findall PEM_BLOCK_RE out in pems \<noteq> [] \<and> pem = concat (map with_newline pems))
        \<and> describe_pem_bundle (o_crypto h) pem = Inr certs)"

lemma tofu_Inr:
  assumes "tofu_fetch_chain h server c = (Inr pem, c')"
  shows "\<exists>certs. fetched h (co_net c) server pem certs
    \<and> (\<forall>ct \<in> set certs. set (cert_lines ct) \<subseteq> set (co_out c'))"
proof -
  obtain host port code out err where parts: "ldap_url_parts server = Some (''ldaps'', host, port)"
    and ran: "o_openssl h (s_client host port) (co_net c) = Ran code out err"
    and pems: "re_findall PEM_BLOCK_RE out \<noteq> []"
    and shown: "describe_served h host port (concat (map with_newline (re_findall PEM_BLOCK_RE out))) c = (Inr pem, c')"
    using assms by (auto simp: tofu_fetch_chain_def bind_Inr_iff Let_def split: option.splits if_splits process.splits)
  obtain certs where certs: "describe_pem_bundle (o_crypto h) (concat (map with_newline (re_findall PEM_BLOCK_RE out))) = Inr certs"
    using shown by (auto simp: describe_served_def bind_Inr_iff split: sum.splits if_splits)
  have "pem = concat (map with_newline (re_findall PEM_BLOCK_RE out)) \<and>
      (\<forall>ct \<in> set certs. set (cert_lines ct) \<subseteq> set (co_out c'))"
    using shown by (auto simp: describe_served_def certs bind_Inr_iff warn_certs_run print_on_def)
  with parts ran pems certs show ?thesis by (auto simp: fetched_def Let_def)
qed

lemma quiet: "moves (talked (\<lambda>_. False)) m \<Longrightarrow> m c = (r, c') \<Longrightarrow> co_sent c' = co_sent c"
  by (drule (1) movesD) (auto simp: talked_def comp_def list_all_iff, metis surj_pair list.set_intros(1) neq_Nil_conv)

lemma fetched_blocks:
  assumes "fetched h net server pem certs"
  shows "\<exists>pems. pems \<noteq> [] \<and> pem = concat (map with_newline pems) \<and> list_all pem_block pems"
proof -
  from assms obtain out where "re_findall PEM_BLOCK_RE out \<noteq> []"
    and "pem = concat (map with_newline (re_findall PEM_BLOCK_RE out))"
    by (auto simp: fetched_def Let_def)
  moreover have "list_all pem_block (re_findall PEM_BLOCK_RE out)" using pem_blocks by (simp add: list_all_iff)
  ultimately show ?thesis by blast
qed

section \<open>Numbers\<close>

lemma split_on_digits: "list_all is_digit s \<Longrightarrow> split_on (CHR ''_'') s = [s]"
  by (intro split_on_none) (auto simp: list_all_iff is_digit_def in_range_def)

lemma digits_no_space: "list_all is_digit s \<Longrightarrow> s \<noteq> [] \<Longrightarrow> rstrip_by c_space (dropWhile c_space s) = s"
proof -
  assume d: "list_all is_digit s" and ne: "s \<noteq> []"
  have no: "\<not> c_space c" if "is_digit c" for c
    using that by (auto simp: c_space_def is_digit_def in_range_def)
  then have "dropWhile c_space s = s" using d ne by (cases s) auto
  moreover obtain u x where "s = u @ [x]" using ne by (metis rev_exhaust)
  ultimately show ?thesis using no d by auto
qed

lemma py_int_dec: "0 \<le> n \<Longrightarrow> py_int (str_int n) = Some n"
proof -
  assume n: "0 \<le> n"
  let ?s = "dec_digits n"
  have d: "list_all is_digit ?s" using n by (rule all_digits_dec)
  then have "list_all (\<lambda>c. c < CHR 0x80) ?s"
    by (auto simp: list_all_iff is_digit_def in_range_def intro: le_less_trans)
  then have "int_text ?s = ?s" using digits_no_space [OF d] by (simp add: int_text_def)
  moreover have "py_digits ?s = Some n" using d n by (simp add: py_digits_def split_on_digits digits_val_dec)
  moreover obtain c r where "?s = c # r" by (cases ?s) auto
  moreover from this d have "c \<noteq> CHR ''-'' \<and> c \<noteq> CHR ''+''" by (auto simp: is_digit_def in_range_def)
  ultimately show ?thesis using n by (simp add: py_int_def str_int_def)
qed

lemma digits_no_colon: "0 \<le> n \<Longrightarrow> CHR '':'' \<notin> set (str_int n)"
  using all_digits_dec [of n] by (auto simp: str_int_def list_all_iff is_digit_def in_range_def)

lemma ssid_no_colon: "re_test ssid_re s \<Longrightarrow> CHR '':'' \<notin> set s"
  unfolding ssid_re_def
  by (erule head_tail_notin) (simp_all add: cls_has_def alnum_def plus_chars_def in_range_def)

lemma group_no_colon: "re_test group_re s \<Longrightarrow> CHR '':'' \<notin> set s"
  unfolding group_re_def
  by (erule head_tail_notin) (simp_all add: cls_has_def alnum_def plus_chars_def in_range_def)

text \<open>
  \<open>reconcile\<close> prints one warning at most: its exit code is right, but of several instances with a problem only
  the first is named.
\<close>

lemma check_all_warns_once:
  "\<exists>lines. check_all (map status_json sts) c = (Inr (list_all sound sts), c \<lparr> co_out := co_out c @ lines \<rparr>)
    \<and> length lines = (if list_all sound sts then 0 else 1)"
proof (induction sts)
  case Nil
  show ?case by simp
next
  case (Cons st sts)
  obtain p where p: "status_problem (status_json st) = Inr p" by (simp add: status_problem_def status_json_def entries_def)
  have "get_or (status_json st) ''name'' (PStr ''?'') = Inr (PStr (st_name st))"
    by (simp add: get_or_def status_json_def entries_def)
  with Cons p status_problem_sound [OF p] show ?case
    by (cases p) (auto simp: check_status_def print_on_def run_bind)
qed

end
