(* ===== verification/CliProps.thy ===== *)
theory CliProps
  imports CliFacts ApiProps
begin

text \<open>
  The properties of the command line: what its messages ask the service for, what it shows before it trusts,
  and what its success means.
\<close>

section \<open>What a command asks for\<close>

text \<open>The request a command is for, and the instance it names.\<close>

fun wants :: "command \<Rightarrow> request \<Rightarrow> bool" where
  "wants ListCmd req = (req = ListInstances)"
| "wants (ShowCmd n) req = (req = GetInstance n)"
| "wants (CreateCmd o1) req = (\<exists>ss pem. those (map spec_ssid (op_ssid o1)) = Some ss
     \<and> req = CreateInstance \<lparr> c_inst = asked o1 ss, c_ldap_ca_pem = pem \<rparr>)"
| "wants (SetLdapCaCmd n _ _) req = (req = GetInstance n \<or> (\<exists>pem. req = SetLdapCa n pem))"
| "wants (RmCmd n) req = (req = DeleteInstance n)"
| "wants (StartCmd n) req = (req = StartInstance n)"
| "wants (StopCmd n) req = (req = StopInstance n)"
| "wants (RestartCmd n) req = (req = RestartInstance n)"
| "wants (StatusCmd n) req = (req = InstanceStatus n)"
| "wants (TestCmd n user _ _) req = (\<exists>t. req = TestInstance n t \<and> t_user t = user)"
| "wants (LogsCmd n tail since until grep _) req = (req = InstanceLogs n tail since until grep)"
| "wants (UpdateCmd n img) req =
     (req = UpdateInstance n (case img of None \<Rightarrow> DEFAULT_IMAGE | Some i \<Rightarrow> i))"
| "wants UpdateAllCmd req = (req = UpdateAll)"
| "wants (RollbackCmd n) req = (req = RollbackInstance n)"
| "wants HealthCmd req = (req = Health \<or> req = ListInstances)"
| "wants ReconcileCmd req = (req = ReconcileAll)"
| "wants (CaInitCmd cn valid p) req =
     (req = InitCa \<lparr> ci_passphrase = p, ci_common_name = cn, ci_validity_days = valid \<rparr>)"
| "wants CaShowCmd req = (req = GetCa)"
| "wants (CaExportCmd _) req = (req = ExportCa)"
| "wants (CertIssueCmd n fqdn valid p) req =
     (req = IssueCert n \<lparr> ce_passphrase = p, ce_fqdn = fqdn, ce_validity_days = valid \<rparr>)"
| "wants (CertShowCmd n) req = (req = GetCert n)"

fun addressed :: "command \<Rightarrow> string option" where
  "addressed (ShowCmd n) = Some n"
| "addressed (SetLdapCaCmd n _ _) = Some n"
| "addressed (RmCmd n) = Some n"
| "addressed (StartCmd n) = Some n"
| "addressed (StopCmd n) = Some n"
| "addressed (RestartCmd n) = Some n"
| "addressed (StatusCmd n) = Some n"
| "addressed (TestCmd n _ _ _) = Some n"
| "addressed (LogsCmd n _ _ _ _ _) = Some n"
| "addressed (UpdateCmd n _) = Some n"
| "addressed (RollbackCmd n) = Some n"
| "addressed (CertIssueCmd n _ _ _) = Some n"
| "addressed (CertShowCmd n) = Some n"
| "addressed _ = None"

definition reaches :: "lax \<Rightarrow> command \<Rightarrow> message \<Rightarrow> bool" where
  "reaches lax cmd m \<longleftrightarrow> (\<exists>req. parse_message lax m = Fit req \<and> wants cmd req)"

definition fits :: "command \<Rightarrow> parsed \<Rightarrow> bool" where
  "fits cmd p = (case p of Fit req \<Rightarrow> wants cmd req | _ \<Rightarrow> False)"

lemma reaches_plain: "case plain_route lax m of None \<Rightarrow> False | Some p \<Rightarrow> fits cmd p \<Longrightarrow> reaches lax cmd m"
  by (auto simp: reaches_def parse_message_def fits_def split: parsed.splits option.splits)

lemma reaches_instance:
  assumes "n \<noteq> []" and "CHR ''/'' \<notin> set n" and "CHR ''/'' \<notin> set rest"
    and "fits cmd (instance_route lax \<lparr> m_verb = v, m_path = instance_path n rest, m_query = q, m_json = js \<rparr> n rest)"
  shows "reaches lax cmd \<lparr> m_verb = v, m_path = instance_path n rest, m_query = q, m_json = js \<rparr>"
  using parse_instance [OF assms(1-3), of "\<lparr> m_verb = v, m_path = instance_path n rest, m_query = q, m_json = js \<rparr>"] assms(4)
  by (auto simp: reaches_def fits_def split: parsed.splits)

lemma simple_talks:
  "P \<lparr> m_verb = v, m_path = path, m_query = [], m_json = json \<rparr> \<Longrightarrow> moves (talked P) (simple h v path json)"
  unfolding simple_def by (intro talk_parts talk_send)

lemma simple_instance:
  assumes "n \<noteq> []" and "CHR ''/'' \<notin> set n" and "CHR ''/'' \<notin> set rest"
    and "fits cmd (instance_route lax \<lparr> m_verb = v, m_path = instance_path n rest, m_query = [], m_json = js \<rparr> n rest)"
  shows "moves (talked (reaches lax cmd)) (simple h v (instance_path n rest) js)"
  using reaches_instance [OF assms] by (rule simple_talks)

lemmas body_defs = fits_def with_body_def parsed_of_def json_object_def entries_def given_def

lemma create_talks: "moves (talked (reaches lax (CreateCmd o1))) (create h o1)"
  unfolding create_def
  by (intro talk.moves_bind talk_resolve talk.moves_bind_Inr talk.moves_map talk.moves_lift talk_client talk_report talk_send)
    (auto simp: reaches_def create_message_parsed dest!: parse_specs)

lemma set_ldap_ca_talks:
  assumes "n \<noteq> []" and "CHR ''/'' \<notin> set n"
  shows "moves (talked (reaches lax (SetLdapCaCmd n ca tofu))) (set_ldap_ca_cmd h n ca tofu)"
  unfolding set_ldap_ca_cmd_def
  by (intro talk_parts talk_send reaches_instance [OF assms];
      simp add: instance_route_def body_defs ldap_ca_body_def str_field_def)

lemma rm_talks:
  assumes "n \<noteq> []" and "CHR ''/'' \<notin> set n"
  shows "moves (talked (reaches lax (RmCmd n))) (rm h n)"
  unfolding rm_def
  by (intro talk_parts talk_send reaches_instance [OF assms])
    (simp_all add: instance_route_def fits_def)

lemma test_talks:
  assumes "n \<noteq> []" and "CHR ''/'' \<notin> set n"
  shows "moves (talked (reaches lax (TestCmd n user pw js))) (test_cmd h n user pw js)"
  unfolding test_cmd_def
  by (intro talk_parts talk_send reaches_instance [OF assms])
    (auto simp: instance_route_def body_defs test_body_def test_message_def opt_str_field_def split: option.split)

lemma logs_talks:
  assumes "n \<noteq> []" and "CHR ''/'' \<notin> set n"
  shows "moves (talked (reaches lax (LogsCmd n tail since until grep js))) (logs_cmd h n tail since until grep js)"
  unfolding logs_cmd_def
  by (intro talk_parts talk_send reaches_instance [OF assms])
    (auto simp: instance_route_def fits_def parsed_of_def logs_query_def log_params_def given_def query_int_def int_setting_def
      opt_str_field_def split: option.split)

lemma plain_talks:
  "moves (talked (reaches lax ListCmd)) (list_instances h)"
  "moves (talked (reaches lax HealthCmd)) (health h)"
  "moves (talked (reaches lax ReconcileCmd)) (reconcile h)"
  "moves (talked (reaches lax (CaExportCmd out))) (ca_export_cmd h out)"
  unfolding list_instances_def health_def reconcile_def ca_export_cmd_def
  by (intro talk_parts talk_send reaches_plain talk_upd; simp add: plain_route_def fits_def)+

lemma command_talks:
  assumes "case addressed cmd of None \<Rightarrow> True | Some n \<Rightarrow> n \<noteq> [] \<and> CHR ''/'' \<notin> set n"
  shows "moves (talked (reaches lax cmd)) (run_command h cmd)"
proof (cases "addressed cmd")
  case None
  then show ?thesis
    by (cases cmd) (auto intro!: plain_talks create_talks simple_talks reaches_plain
        simp: simple_cmds plain_route_def body_defs ca_init_body_def str_field_def int_setting_def)
next
  case (Some n)
  with assms have n: "n \<noteq> []" "CHR ''/'' \<notin> set n" by auto
  from Some show ?thesis
    by (cases cmd) (auto intro!: set_ldap_ca_talks rm_talks test_talks logs_talks n simple_instance [OF n]
        simp: simple_cmds instance_route_def body_defs update_body_def str_field_def cert_issue_body_def int_setting_def
          opt_str_field_def split: option.split)
qed

text \<open>
  For the witnesses: a console whose messages are served by the example service, with the token in the
  environment, a CA file, and an \<open>openssl\<close> that reports one certificate.
\<close>

definition response_of :: "(pyerr \<Rightarrow> string) \<Rightarrow> int \<Rightarrow> payload option \<Rightarrow> response" where
  "response_of err s p =
     (case map_option (answer_body err) p of
        None \<Rightarrow> \<lparr> rp_status = s, rp_text = ''error'', rp_json = None \<rparr>
      | Some (Json v) \<Rightarrow> \<lparr> rp_status = s, rp_text = ''json'', rp_json = Some v \<rparr>
      | Some (Plain t) \<Rightarrow> \<lparr> rp_status = s, rp_text = t, rp_json = None \<rparr>)"

definition local_send :: "('g, sim) ext \<Rightarrow> client \<Rightarrow> message \<Rightarrow> ('g, sim) world \<Rightarrow> (cli_end + response) \<times> ('g, sim) world" where
  "local_send x cl m w =
     (case serve toy_crypto x example_app (bearer cl) m w of
        (Some (s, p), w') \<Rightarrow> (Inr (response_of (\<lambda>_. ''exception'') s p), w')
      | (None, w') \<Rightarrow> (Inl HttpError, w'))"

lemma local_linked: "o_send h = local_send x \<Longrightarrow> linked h toy_crypto x example_app (\<lambda>_. ''exception'')"
  by (auto simp: linked_def local_send_def carries_def response_of_def split: prod.splits option.splits body.splits)

definition cli_record :: inst where
  "cli_record = dock_inst \<lparr> i_ldap_ca := Some LDAP_CA_FILE \<rparr>"

definition cli_book :: "string \<Rightarrow> pyval option" where
  "cli_book s = find (\<lambda>v. name_of_val v = s) (map model_dump [cli_record, dock_inst])"

definition cli_ext :: "(unit, sim) ext" where
  "cli_ext = sim_ext \<lparr> u_book = cli_book, u_attrs = dock_attrs, u_broken = [] \<rparr>"

text \<open>The state after the CA bundle has been stored.\<close>

definition cli_world1 :: "(unit, sim) world" where
  "cli_world1 = dock_world \<lparr> w_fs := sample_fs @ [([''c'', ''a'', ''ldap-ca.pem''], FFile (Text ''ca'') mode_600)] \<rparr>"

definition example_pem :: string where
  "example_pem = ''-----BEGIN CERTIFICATE-----'' @ [LF] @ ''ca'' @ [LF] @ ''-----END CERTIFICATE-----'' @ [LF]"

definition served_chain :: "string list \<Rightarrow> (unit, sim) world \<Rightarrow> process" where
  "served_chain argv w = Ran 0 (''CONNECTED'' @ [LF] @ example_pem @ ''---'') []"

definition cli_outside :: "(string, string, string, string list, unit, sim, (unit, sim) world) outside" where
  "cli_outside = \<lparr> o_send = local_send cli_ext, o_openssl = served_chain, o_prompt = ''pw'',
     o_env = [(''LMNRADIUS_API_TOKEN'', ''secret'')], o_cwd = [], o_text = (\<lambda>_. ''exception''),
     o_crypto = toy_crypto, o_ext = cli_ext \<rparr>"

definition cli_console :: "(unit, sim) world console" where
  "cli_console = \<lparr> co_out = [], co_fs = [([''ca.pem''], FFile (Text ''ca'') mode_644)], co_sent = [],
     co_net = dock_world \<rparr>"

definition cli_options :: create_options where
  "cli_options = \<lparr> op_name = ''a'', op_realm = i_realm dock_inst, op_workgroup = i_workgroup dock_inst,
     op_server_fqdn = i_server_fqdn dock_inst, op_ldap_server = i_ldap_server dock_inst,
     op_ldap_base_dn = i_ldap_base_dn dock_inst, op_ldap_bind_dn = i_ldap_bind_dn dock_inst,
     op_client_subnet = i_client_subnets dock_inst, op_ssid = [''lehrer:teachers:20'', ''schueler:students:10''],
     op_join_secret = ''j'', op_ldap_bind_secret = ''b'', op_radius_secret = ''r'', op_wifi_group = ''wifi'',
     op_image = Some ''i:1'', op_ldap_ca = Some ''/ca.pem'', op_ldap_ca_tofu = False \<rparr>"

definition cli_create :: inst_create where
  "cli_create = \<lparr> c_inst = asked cli_options (i_ssids dock_inst), c_ldap_ca_pem = Some ''ca'' \<rparr>"

text \<open>An \<open>openssl\<close> with an answer, but no service.\<close>

definition no_service :: "client \<Rightarrow> message \<Rightarrow> (unit, sim) world \<Rightarrow> (cli_end + response) \<times> (unit, sim) world" where
  "no_service cl m w = (Inl HttpError, w)"

definition offline :: "(string, string, string, string list, unit, sim, (unit, sim) world) outside" where
  "offline = cli_outside \<lparr> o_send := no_service \<rparr>"



text \<open>
  C28: A value of \<open>--ssid\<close> is unambiguous. Every SSID entry that the data model accepts can be written as
  \<open>name:group\<close> or \<open>name:group:vlan\<close>, and parsing that text gives a body entry that the service reads as
  exactly this entry, blanks and dots in name and group included.
\<close>

theorem ssid_option_roundtrip:
  assumes "ssid_errors s = []"
  shows "\<exists>v. parse_ssid (join '':'' ([s_name s, s_allowed_group s] @ (case s_vlan s of None \<Rightarrow> [] | Some n \<Rightarrow> [str_int n]))) = Inr v
    \<and> ssid_of_val lax v = Some s"
proof -
  let ?parts = "[s_name s, s_allowed_group s] @ (case s_vlan s of None \<Rightarrow> [] | Some n \<Rightarrow> [str_int n])"
  have valid: "re_test ssid_re (s_name s)" "re_test group_re (s_allowed_group s)" "\<And>n. s_vlan s = Some n \<Longrightarrow> 1 \<le> n"
    using assms by (auto simp: ssid_valid_iff)
  have "CHR '':'' \<notin> set (str_int n)" if "s_vlan s = Some n" for n using valid(3) [OF that] digits_no_colon by simp
  then have "CHR '':'' \<notin> set p" if "p \<in> set ?parts" for p
    using that ssid_no_colon [OF valid(1)] group_no_colon [OF valid(2)] by (auto split: option.splits)
  then have "split_on (CHR '':'') (join '':'' ?parts) = ?parts" by (intro split_on_join) auto
  moreover have "py_int (str_int n) = Some n" if "s_vlan s = Some n" for n using valid(3) [OF that] py_int_dec by simp
  ultimately have "spec_ssid (join '':'' ?parts) = Some s"
    by (cases s) (auto simp: spec_ssid_def split: option.splits)
  then show ?thesis by (simp add: parse_ssid_eq)
qed

theorem ssid_option_roundtrip_witness:
  "\<exists>v. parse_ssid ''Lehrer WLAN:role-teacher:20'' = Inr v
    \<and> ssid_of_val (x_int dock_ext) v = Some \<lparr> s_name = ''Lehrer WLAN'', s_allowed_group = ''role-teacher'', s_vlan = Some 20 \<rparr>"
proof -
  let ?s = "\<lparr> s_name = ''Lehrer WLAN'', s_allowed_group = ''role-teacher'', s_vlan = Some 20 \<rparr>"
  have "ssid_errors ?s = []" by code_simp
  moreover have "join '':'' ([s_name ?s, s_allowed_group ?s] @ (case s_vlan ?s of None \<Rightarrow> [] | Some n \<Rightarrow> [str_int n]))
      = ''Lehrer WLAN:role-teacher:20''" by code_simp
  ultimately show ?thesis using ssid_option_roundtrip [of ?s "x_int dock_ext"] by simp
qed

section \<open>What is shown before it is trusted\<close>

lemma create_after_ca:
  "moves (talked (\<lambda>m. \<exists>ss. m_json m = Some (create_message o1 (map ssid_entry ss) pem)))
     (bindP (mapP (\<lambda>s. liftP (parse_ssid s)) (op_ssid o1)) (\<lambda>ssids.
      bindP (get_client h) (\<lambda>cl.
      bindP (send h cl POST ''/v1/instances'' [] (Some (create_message o1 ssids pem))) (report_status (op_name o1)))))"
  by (intro talk.moves_bind talk.moves_bind_Inr talk.moves_map talk.moves_lift talk_client talk_report talk_send)
    (auto dest!: parse_specs)

text \<open>
  C17: Trust on first use shows what it trusts. If \<open>create --ldap-ca-tofu\<close> sends a message at all, then the
  server is an LDAPS server and the bundle in the message is put together from the certificate blocks of what
  \<open>openssl s_client\<close> received from exactly that host and port, and nothing else of its output; and subject,
  issuer, expiry and fingerprint of each certificate of the bundle have been printed to the user.
\<close>

theorem tofu_shows_what_it_pins:
  assumes "op_ldap_ca_tofu o1" and "run_command h (CreateCmd o1) c = (r, c')" and "co_sent c' \<noteq> co_sent c"
  shows "\<exists>pem certs. fetched h (co_net c) (op_ldap_server o1) pem certs
    \<and> (\<exists>pems. pems \<noteq> [] \<and> pem = concat (map with_newline pems) \<and> list_all pem_block pems)
    \<and> (\<forall>ct \<in> set certs. set (cert_lines ct) \<subseteq> set (co_out c'))
    \<and> (\<exists>ms. co_sent c' = co_sent c @ ms
        \<and> list_all (\<lambda>(cl, m). \<exists>ss. m_json m = Some (create_message o1 (map ssid_entry ss) (Some pem))) ms)"
proof -
  obtain q c1 where resolved: "resolve_ldap_ca h (op_ldap_ca o1) (op_ldap_ca_tofu o1) (op_ldap_server o1) c = (q, c1)"
    by fastforce
  have sent: "co_sent c1 = co_sent c" by (rule quiet [OF talk_resolve resolved])
  obtain ca where q: "q = Inr ca"
  proof (cases q)
    case (Inl e)
    then have "c' = c1" using assms(2) resolved by (simp add: create_def run_bind)
    with assms(3) sent show ?thesis by simp
  qed
  obtain pem where pem: "ca = Some pem" and tofu: "tofu_fetch_chain h (op_ldap_server o1) c = (Inr pem, c1)"
    using resolved assms(1) by (auto simp: q resolve_ldap_ca_def bind_Inr_iff split: option.splits)
  from tofu_Inr [OF tofu] obtain certs where certs: "fetched h (co_net c) (op_ldap_server o1) pem certs"
    and shown: "\<forall>ct \<in> set certs. set (cert_lines ct) \<subseteq> set (co_out c1)" by blast
  have "talked (\<lambda>m. \<exists>ss. m_json m = Some (create_message o1 (map ssid_entry ss) (Some pem))) c1 c'"
    using movesD [OF create_after_ca [of o1 "Some pem" h], of c1 r c'] assms(2) resolved
    by (simp add: create_def run_bind [of "resolve_ldap_ca _ _ _ _"] q pem)
  then obtain ms lines where ms: "co_sent c' = co_sent c @ ms" "co_out c' = co_out c1 @ lines"
    "list_all (\<lambda>(cl, m). \<exists>ss. m_json m = Some (create_message o1 (map ssid_entry ss) (Some pem))) ms"
    using sent by (auto simp: talked_def list_all_iff split_beta)
  moreover have "\<forall>ct \<in> set certs. set (cert_lines ct) \<subseteq> set (co_out c')" using shown ms(2) by auto
  ultimately show ?thesis using certs fetched_blocks [OF certs] by blast
qed

lemma tofu_sends:
  "case run_command offline (CreateCmd (cli_options \<lparr> op_ldap_ca := None, op_ldap_ca_tofu := True \<rparr>)) cli_console of
     (r, c) \<Rightarrow> length (co_sent c) = 1"
  by code_simp

theorem tofu_shows_what_it_pins_witness:
  "\<exists>r c' pem certs. run_command offline (CreateCmd (cli_options \<lparr> op_ldap_ca := None, op_ldap_ca_tofu := True \<rparr>)) cli_console
      = (r, c') \<and> fetched offline dock_world (i_ldap_server dock_inst) pem certs
    \<and> (\<forall>ct \<in> set certs. set (cert_lines ct) \<subseteq> set (co_out c'))"
proof -
  let ?o = "cli_options \<lparr> op_ldap_ca := None, op_ldap_ca_tofu := True \<rparr>"
  obtain r c' where run: "run_command offline (CreateCmd ?o) cli_console = (r, c')" by fastforce
  with tofu_sends have "length (co_sent c') = 1" by simp
  moreover have "co_sent cli_console = []" by (simp add: cli_console_def)
  ultimately have "co_sent c' \<noteq> co_sent cli_console" by auto
  moreover have "op_ldap_ca_tofu ?o" by simp
  moreover have "op_ldap_server ?o = i_ldap_server dock_inst" "co_net cli_console = dock_world"
    by (simp_all add: cli_options_def cli_console_def)
  ultimately show ?thesis using tofu_shows_what_it_pins [OF _ run] run by metis
qed

section \<open>What success means\<close>

text \<open>
  C4: A successful \<open>create\<close> is a running instance. Over a link that delivers messages and answers, if
  \<open>lmnradius create\<close> ends with exit code 0, then the service stores under the name the record the options
  stand for, its SSIDs are those of the \<open>--ssid\<close> values, it has passed every validator, with LDAPS it has a
  pinned CA, and the deployment of that record ended with a status of a container that runs, is not
  restarting in a loop and is not unhealthy.
\<close>

theorem create_means_running:
  assumes "linked h k x a err"
    and "\<And>ss. those (map spec_ssid (op_ssid o1)) = Some ss \<Longrightarrow> inst_errors (pinned_record o1 ss) = [] \<Longrightarrow>
      storable x (pinned_record o1 ss)"
    and "run_command h (CreateCmd o1) c = (r, c')" and "exit_code r = 0"
  shows "\<exists>ss st w. those (map spec_ssid (op_ssid o1)) = Some ss
    \<and> look_inst x (co_net c') (op_name o1) = Inr (Some (pinned_record o1 ss))
    \<and> inst_errors (asked o1 ss) = []
    \<and> (is_ldaps (op_ldap_server o1) \<longrightarrow> i_ldap_ca (pinned_record o1 ss) \<noteq> None)
    \<and> apply_inst x (a_conf a) (pinned_record o1 ss) w = (Inr st, co_net c') \<and> sound st"
proof -
  obtain pem c1 ss cl c2 resp c3 where
      pem: "resolve_ldap_ca h (op_ldap_ca o1) (op_ldap_ca_tofu o1) (op_ldap_server o1) c = (Inr pem, c1)"
    and ss: "those (map spec_ssid (op_ssid o1)) = Some ss" and cl: "get_client h c1 = (Inr cl, c2)"
    and sent: "send h cl POST ''/v1/instances'' [] (Some (create_message o1 (map ssid_entry ss) pem)) c2 = (Inr resp, c3)"
    and report: "report_status (op_name o1) resp c3 = (Inr (), c')"
    using assms(3,4) by (auto simp: exit_code_0 create_def bind_Inr_iff dest!: parse_specs)
  let ?b = "\<lparr> c_inst = asked o1 ss, c_ldap_ca_pem = pem \<rparr>"
  have "plain_path ''/v1/instances''" by code_simp
  then obtain p where handled: "handle k x a (bearer cl) (CreateInstance ?b) (co_net c2) = ((rp_status resp, p), co_net c3)"
    and carried: "\<And>q. p = Some q \<Longrightarrow> carries err resp q"
    using linked_send [OF assms(1) _ sent create_message_parsed] by blast
  have made: "created ?b = pinned_record o1 ss" using resolve_Inr [OF pem] by (rule created_pinned)
  have "inst_errors (created ?b) = [] \<Longrightarrow> storable x (created ?b)" unfolding made by (rule assms(2) [OF ss])
  note done1 = create_served [OF handled report_status_Inr(1) [OF report] this]
  from done1 obtain st pinned w where p: "p = Some (Applied (created ?b) st pinned)"
    and ran: "apply_inst x (a_conf a) (created ?b) w = (Inr st, co_net c3)" by blast
  from report_status_Inr(2) [OF report] obtain v u where v: "rp_json resp = Some v"
    and u: "get_or v ''status'' (PDict []) = Inr u" and ok: "status_problem u = Inr None" by blast
  from get_status_answer [OF carried [OF p] v u] status_problem_sound [of st None] ok have "sound st" by simp
  moreover have "co_net c' = co_net c3" using keepsD [OF net_report report] .
  moreover have "is_ldaps (op_ldap_server o1) \<longrightarrow> i_ldap_ca (pinned_record o1 ss) \<noteq> None"
    using done1 resolve_Inr [OF pem] by (auto simp: unpinned_def pinned_record_def asked_def)
  moreover have "i_name (asked o1 ss) = op_name o1" by (simp add: asked_def)
  ultimately show ?thesis using ss done1 ran made by auto
qed

lemma report_ok:
  assumes "carries err r (Applied i st pinned)" and "rp_status r = 201" and "sound st"
  shows "\<exists>c'. report_status name r c = (Inr (), c')"
proof -
  obtain v where v: "rp_json r = Some v" "rp_text r \<noteq> []" "get_or v ''status'' (PDict []) = Inr (status_json st)"
    using assms(1) by (auto simp: carries_def get_or_def entries_def split: option.splits)
  then obtain c1 where "emit r c = (Inr (), c1)"
    using assms(2) by (auto simp: emit_def refuse_error_def print_on_def)
  moreover obtain p where "status_problem (status_json st) = Inr p" by (simp add: status_problem_def status_json_def entries_def)
  moreover from this status_problem_sound assms(3) have "p = None" by blast
  ultimately show ?thesis
    using v by (simp add: report_status_def run_bind json_of_def check_status_def exit_unless_def)
qed

lemma example_pinned: "case write_ldap_ca toy_crypto ''/c'' ''a'' ''ca'' dock_world of
    (r, w) \<Rightarrow> w = cli_world1 \<and> (case r of Inr p \<Rightarrow> pi_file p = LDAP_CA_FILE | Inl _ \<Rightarrow> False)"
  by code_simp

lemma example_applied: "case apply_inst cli_ext sample_conf cli_record cli_world1 of
    (r, w) \<Rightarrow> (case r of Inr st \<Rightarrow> sound st | Inl _ \<Rightarrow> False)"
  by code_simp

lemma example_record: "create_errors cli_create = []" "pinned_record cli_options (i_ssids dock_inst) = cli_record"
  "storable cli_ext cli_record"
  by code_simp+

lemma example_specs: "those (map spec_ssid (op_ssid cli_options)) = Some (i_ssids dock_inst)"
  by code_simp

lemma example_created:
  "\<exists>st pinned w. handle toy_crypto cli_ext example_app (Some ''secret'') (CreateInstance cli_create) dock_world
      = ((201, Some (Applied cli_record st pinned)), w) \<and> sound st"
proof -
  obtain p where p: "write_ldap_ca toy_crypto ''/c'' ''a'' ''ca'' dock_world = (Inr p, cli_world1)" "pi_file p = LDAP_CA_FILE"
    using example_pinned by (auto split: prod.splits sum.splits)
  obtain st w where st: "apply_inst cli_ext sample_conf cli_record cli_world1 = (Inr st, w)" "sound st"
    using example_applied by (auto split: prod.splits sum.splits)
  have body: "c_ldap_ca_pem cli_create = Some ''ca''" "i_name (c_inst cli_create) = ''a''"
    "(c_inst cli_create) \<lparr> i_ldap_ca := Some LDAP_CA_FILE \<rparr> = cli_record"
    by code_simp+
  have app: "a_conf example_app = sample_conf" "a_certs_dir example_app = ''/c''" "authorised example_app (Some ''secret'')"
    by (simp_all add: example_app_def a_certs_dir_def sample_conf_def authorised_def)
  have "create_instance toy_crypto cli_ext example_app cli_create dock_world = (Inr (Applied cli_record st (Some p)), w)"
    using p st by (simp add: create_instance_def create_valid [OF example_record(1)] body app pin_ldap_ca_def service_run run_bind)
  then show ?thesis using st(2) app(3) example_record(1) by (simp add: handle_def secured_run)
qed

lemma example_steps:
  "resolve_ldap_ca cli_outside (Some ''/ca.pem'') False (i_ldap_server dock_inst) cli_console = (Inr (Some ''ca''), cli_console)"
  "mapP (\<lambda>s. liftP (parse_ssid s)) (op_ssid cli_options) cli_console
    = (Inr (map ssid_entry (i_ssids dock_inst)), cli_console)"
  "case get_client cli_outside cli_console of (r, c) \<Rightarrow> c = cli_console \<and> (case r of Inr cl \<Rightarrow> bearer cl = Some ''secret'' | Inl _ \<Rightarrow> False)"
  by code_simp+

lemma local_send_run:
  "send cli_outside cl v path q js cli_console =
     (case serve toy_crypto cli_ext example_app (bearer cl) \<lparr> m_verb = v, m_path = path, m_query = q, m_json = js \<rparr> dock_world of
        (Some (s, p), w') \<Rightarrow> (Inr (response_of (\<lambda>_. ''exception'') s p), cli_console \<lparr> co_net := w',
            co_sent := [(cl, \<lparr> m_verb = v, m_path = path, m_query = q, m_json = js \<rparr>)] \<rparr>)
      | (None, w') \<Rightarrow> (Inl HttpError, cli_console \<lparr> co_net := w',
            co_sent := [(cl, \<lparr> m_verb = v, m_path = path, m_query = q, m_json = js \<rparr>)] \<rparr>))"
  by (auto simp: send_def Let_def cli_outside_def cli_console_def local_send_def split: prod.split option.split)

lemma example_create: "\<exists>c'. run_command cli_outside (CreateCmd cli_options) cli_console = (Inr (), c')"
proof -
  obtain cl where cl: "get_client cli_outside cli_console = (Inr cl, cli_console)" "bearer cl = Some ''secret''"
    using example_steps(3) by (auto split: prod.splits sum.splits)
  obtain st pinned w where handled: "handle toy_crypto cli_ext example_app (Some ''secret'') (CreateInstance cli_create) dock_world
      = ((201, Some (Applied cli_record st pinned)), w)" "sound st" using example_created by blast
  let ?r = "response_of (\<lambda>_. ''exception'') 201 (Some (Applied cli_record st pinned))"
  have "carries (\<lambda>_. ''exception'') ?r (Applied cli_record st pinned)" "rp_status ?r = 201"
    by (simp_all add: carries_def response_of_def)
  then have report: "\<exists>c'. report_status ''a'' ?r c = (Inr (), c')" for c using handled(2) by (intro report_ok)
  have opts: "op_ldap_ca cli_options = Some ''/ca.pem''" "op_ldap_ca_tofu cli_options = False" "op_name cli_options = ''a''"
    "op_ldap_server cli_options = i_ldap_server dock_inst"
    by (simp_all add: cli_options_def)
  show ?thesis using report handled(1)
    by (simp add: create_def run_bind opts example_steps(1,2) cl local_send_run serve_def create_message_parsed
        cli_create_def [symmetric])
qed

theorem create_means_running_witness:
  "\<exists>c'. run_command cli_outside (CreateCmd cli_options) cli_console = (Inr (), c')
    \<and> look_inst cli_ext (co_net c') ''a'' = Inr (Some cli_record)
    \<and> (\<exists>w st. apply_inst cli_ext sample_conf cli_record w = (Inr st, co_net c') \<and> sound st)"
proof -
  obtain c' where run: "run_command cli_outside (CreateCmd cli_options) cli_console = (Inr (), c')" using example_create by blast
  have link: "linked cli_outside toy_crypto cli_ext example_app (\<lambda>_. ''exception'')"
    by (rule local_linked) (simp add: cli_outside_def)
  have code: "exit_code (Inr ()) = 0" by (simp add: exit_code_def)
  have st: "storable cli_ext (pinned_record cli_options ss)" if "those (map spec_ssid (op_ssid cli_options)) = Some ss" for ss
    using that example_specs example_record(2,3) by simp
  have "op_name cli_options = ''a''" "a_conf example_app = sample_conf" by (simp_all add: cli_options_def example_app_def)
  with create_means_running [OF link st run code] example_specs example_record(2) run show ?thesis by auto
qed




end
