(* ===== verification/Spec2Isabelle.thy ===== *)
theory Spec2Isabelle
  imports DockerProps Reconciler Updater LockProps CertProps Health Races Config CliProps
begin

text \<open>
  Verification of the linuxmuster-radius control plane (\<open>controlplane/lmnradius\<close>) and of the gate its
  lockfiles pass (\<open>scripts/lockfile_gate.py\<close>).

  \<^bold>\<open>The program.\<close> A service keeps one record per RADIUS instance (a school network) as a YAML file in a
  git repository (\<open>store.py\<close>), checks records with pydantic validators (\<open>models.py\<close>), renders two
  configuration files from a record (\<open>render.py\<close>: the RADIUS clients, and the policy that maps an SSID
  and a group to a VLAN), and runs one hardened container per instance from them (\<open>docker_service.py\<close>).
  The reconciler (\<open>reconciler.py\<close>) persists before it deploys; the updater (\<open>updater.py\<close>) changes an
  image, watches the health of the new container and rolls back. \<open>diagnostics.py\<close> turns the output of
  tools inside the container into verdicts. \<open>ca.py\<close> keeps the certificate authority and issues the
  server certificate an instance mounts. \<open>api.py\<close> offers all of this as HTTP routes behind a token
  (\<open>security.py\<close>), with settings from \<open>config.py\<close>; \<open>cli.py\<close> is the command line, a client of the routes.
  \<open>lockfile_gate.py\<close> decides whether a lockfile of Python requirements may be installed.

  \<^bold>\<open>Foundations.\<close> \<open>Prelude\<close>: Python's text operations (splitting, stripping, decimal texts) and the monad
  of the effectful code: a program takes a state and gives an exception or a value, with the state
  reached either way (\<open>bindP\<close>, \<open>tryP\<close>, \<open>mapP\<close>, \<open>eachP\<close>); \<open>keeps v m\<close> says that \<open>m\<close> leaves the view \<open>v\<close> of
  the state alone. \<open>Errors\<close>: the exceptions, with the class hierarchy the handlers rely on. \<open>PyRe\<close>: a
  backtracking matcher for the regular expressions of the sources, with captures and a lookahead;
  \<open>Captures\<close> characterises matches with groups. \<open>Ipaddress\<close>: the parsing of IPv4 and IPv6
  networks that \<open>models.py\<close> relies on. \<open>World\<close>: the state of the services (record files, git, file tree,
  engine) and the record \<open>ext\<close> of the services themselves (git, PyYAML, docker-py and its engine, the
  clock, sockets), which are not code of this repository and are an argument of every definition that
  calls them; every call of git and of the engine is logged, and \<open>logs P m\<close> says which calls \<open>m\<close> makes.
  \<open>FileSys\<close>: files, directories and symbolic links with \<open>realpath\<close>, and the confinement of a path to a
  directory. \<open>Sim\<close> and \<open>DockerExample\<close>: concrete services and an instance, for examples.

  \<^bold>\<open>Components.\<close>
  \<^item> \<open>Models\<close> (\<open>models.py\<close>): the patterns, the records \<open>ssid\<close> and \<open>inst\<close>, and each validator
    (\<open>inst_errors\<close> and those of the request bodies). Lemmas: what an accepted record cannot contain.
  \<^item> \<open>Render\<close> (\<open>render.py\<close>): both files, and readers of the two formats. Lemmas: reading a rendered
    file gives back exactly the subnets and the secret, and exactly the gates of the record.
  \<^item> \<open>Store\<close> (\<open>store.py\<close>): \<open>put\<close>, \<open>get\<close>, \<open>delete\<close>, \<open>list\<close> and the git commits. Lemmas: round trips, what
    each failure leaves behind, and that a failure of git is never silent. It interprets the locale
    \<open>instance_store\<close> of \<open>Contracts\<close>.
  \<^item> \<open>Diagnostics\<close> (\<open>diagnostics.py\<close> and the parts of \<open>docker_service.py\<close> that read texts and
    attributes): verdicts, the choice of the error line, and the view of a container's state.
  \<^item> \<open>Docker\<close>, \<open>DockerFacts\<close>, \<open>DockerProps\<close>, \<open>Polling\<close> (\<open>docker_service.py\<close>): every method of
    \<open>DockerService\<close>. Lemmas: which calls and which files an operation touches, that a container is
    replaced only once everything it mounts is there, what it may see and do, and that watching it ends.
    \<open>ensure_running\<close> interprets the locale \<open>deployer\<close>.
  \<^item> \<open>Reconciler\<close> (\<open>reconciler.py\<close>) and \<open>Updater\<close>, \<open>Health\<close> (\<open>updater.py\<close>): every operation. Lemmas: the order
    of persisting and deploying, what records and rollback pointer each outcome leaves, batches, how often
    the health poll looks, and that a container which gets healthy in time makes the update succeed.
  \<^item> \<open>CertAuth\<close>, \<open>CertProps\<close> (\<open>ca.py\<close>): creating and opening the authority, issuing a server certificate,
    the CA bundle for LDAP, over a record \<open>crypto\<close> of the library that makes keys, certificates and PEM
    texts; \<open>FileFacts\<close> follows paths and writes. Lemmas: a CA is never overwritten, the passphrase it was
    made with opens it, what is issued lies where the container mounts it, and a refusal keeps the files.
  \<^item> \<open>Api\<close>, \<open>ApiFacts\<close>, \<open>ApiProps\<close> (\<open>api.py\<close>, \<open>security.py\<close>): a request is a value of the datatype of the
    routes, \<open>handle\<close> checks the token and runs the handler. The locale \<open>evolution\<close> says how programs compose
    under a reflexive and transitive relation between states; it is interpreted for \<open>only\<close> (one record
    may change), \<open>names_kept\<close> and \<open>tidy\<close>. Lemmas: no token, no change; a patch is the merged and validated
    record; and no history of requests changes who a record belongs to.
  \<^item> \<open>Halves\<close>, \<open>Validity\<close>, \<open>Races\<close> (\<open>api.py\<close>, \<open>updater.py\<close>): requests that overlap, as threads that take turns on the shared
    state (\<open>turn\<close>, \<open>turns\<close>): a handler that writes a record reads it in one turn and goes on in another, and an
    update lets others in while it watches. The halves are proved to make up the handlers. \<open>evolution\<close> is
    interpreted once more, for records that stay readable (\<open>fit_kept\<close>). Lemmas: no overlap makes a record
    unreadable or touches another instance; but the last writer undoes what came in between.
  \<^item> \<open>Config\<close> (\<open>config.py\<close>, \<open>main.py\<close>): the settings, from the defaults, the YAML file and the environment.
    Lemma: the environment wins over the file, the file over the defaults.
  \<^item> \<open>Wire\<close> (\<open>api.py\<close>): which method and path reach which route, the bodies with their types, and the JSON
    of each answer; \<open>serve\<close> is the service as a client sees it.
  \<^item> \<open>Cli\<close>, \<open>Commands\<close>, \<open>CliFacts\<close>, \<open>CliProps\<close> (\<open>cli.py\<close>): a console (printed lines, prompts, the service
    beyond the connection) as the state, every command as a program over it that ends with an exit code.
    Lemmas: which messages a command sends and which routes they reach, and, where the connection carries
    messages to \<open>serve\<close> (\<open>linked\<close>), what a success of a command means for the records and containers.
    It interprets \<open>evolution\<close> for the messages sent (\<open>talked\<close>).
  \<^item> \<open>LockFile\<close>, \<open>LockParse\<close>, \<open>LockClosure\<close>, \<open>LockGate\<close>, \<open>LockProps\<close> (\<open>scripts/lockfile_gate.py\<close>): \<open>parse\<close> and
    the commands \<open>lint\<close>, \<open>freeze\<close>, \<open>closure\<close>, \<open>only\<close>, \<open>pypi\<close>. Lemmas: \<open>parse\<close> accepts exactly the
    lockfiles of a stated form, pip's view of an accepted file is the pins read, and each command passes
    exactly when, or only when, the installation is the locked one.

  \<^bold>\<open>Bounds.\<close> A polling loop of the model has fuel and raises \<open>NoFuel\<close> without it; no handler catches that.
  A container settles within 45 s, polled each second, so 46 rounds are enough; the health of an update
  is polled every 3 s for 120 s, so 41 rounds are enough. The theorems on these loops assume that the
  clock does not go back and that a sleep lasts at least as long as asked. The search of
  \<open>closure\<close> needs no fuel: it ends because an item new to the set of seen ones comes from a finite set.
  Integers are Python's and unbounded.

  \<^bold>\<open>Not modelled.\<close> How typer parses an argument vector into options (a command takes its options as
  arguments), help texts and colours. What FastAPI and pydantic parse beyond the fields and types of the
  bodies, the HTTP transport itself, and the event loop that serves it; a failure of the transport is a
  branch of the client. The texts of exceptions, except where the program reads or shows them again, and the
  log and audit lines of the service. RSA, X.509 and PEM are the parameter \<open>crypto\<close>. Permissions of files are
  recorded, not enforced. Overlapping requests interleave in the turns of \<open>Races\<close>, whose parts are atomic; finer
  interleavings, inside a write or a deployment, are not modelled. The image, the packaging and the deployment
  are shell scripts and configuration.
\<close>

end
